(* ===== verification/JS_Prelude.thy ===== *)
theory JS_Prelude
  imports Complex_Main "HOL-Library.Sublist"
begin

text \<open>
  Shared vocabulary of the development: the result type of fallible code, the JavaScript values,
  truthiness and property access, insertion-ordered objects, and the generic interfaces the components
  instantiate: a dictionary, a transition system with an invariant, a simulation of a specification, and a
  codec whose decoder inverts its encoder. Strings are lists of 8-bit code units.
\<close>

named_theorems js_simps "evaluation rules of the JavaScript primitives"
named_theorems step_defs "definitions of the handlers of a component"

section \<open>Results\<close>

datatype js_error = Error string | TypeError string

type_synonym 'a res = "js_error + 'a"

fun err_message :: "js_error \<Rightarrow> string" where
  "err_message (Error m) = m"
| "err_message (TypeError m) = m"

definition bind_res :: "'a res \<Rightarrow> ('a \<Rightarrow> 'b res) \<Rightarrow> 'b res" where
  "bind_res r f = (case r of Inl e \<Rightarrow> Inl e | Inr x \<Rightarrow> f x)"

lemma bind_res_simps [simp, js_simps]:
  "bind_res (Inl e) f = Inl e"
  "bind_res (Inr x) f = f x"
  by (simp_all add: bind_res_def)

lemma bind_res_Inr_iff:
  "bind_res r f = Inr y \<longleftrightarrow> (\<exists>x. r = Inr x \<and> f x = Inr y)"
  by (cases r) auto

lemma bind_res_cong [fundef_cong]:
  "r = r' \<Longrightarrow> (\<And>x. r' = Inr x \<Longrightarrow> f x = g x) \<Longrightarrow> bind_res r f = bind_res r' g"
  by (cases r') auto

fun is_ok :: "'a res \<Rightarrow> bool" where
  "is_ok (Inr _) = True"
| "is_ok (Inl _) = False"

lemma is_ok_iff: "is_ok r \<longleftrightarrow> (\<exists>x. r = Inr x)"
  by (cases r) auto

section \<open>Values\<close>

datatype jv = Undefined | Null | Bool bool | Num rat | NaN | Str string
  | Arr "jv list" | Obj "(string \<times> jv) list"

fun truthy :: "jv \<Rightarrow> bool" where
  "truthy Undefined = False"
| "truthy Null = False"
| "truthy (Bool b) = b"
| "truthy (Num x) = (x \<noteq> 0)"
| "truthy NaN = False"
| "truthy (Str s) = (s \<noteq> [])"
| "truthy (Arr _) = True"
| "truthy (Obj _) = True"

text \<open>\<^verbatim>\<open>a || b\<close>\<close>

definition js_or :: "jv \<Rightarrow> jv \<Rightarrow> jv" where
  "js_or a b = (if truthy a then a else b)"

text \<open>Own properties only: names inherited from \<^verbatim>\<open>Object.prototype\<close> are not modelled.\<close>

definition own :: "(string \<times> jv) list \<Rightarrow> string \<Rightarrow> jv" where
  "own ps k = (case map_of ps k of None \<Rightarrow> Undefined | Some v \<Rightarrow> v)"

text \<open>\<^verbatim>\<open>v?.k\<close>: reading a property of undefined or null gives undefined.\<close>

fun oprop :: "jv \<Rightarrow> string \<Rightarrow> jv" where
  "oprop (Obj ps) k = own ps k"
| "oprop (Arr xs) k = (if k = ''length'' then Num (of_nat (length xs)) else Undefined)"
| "oprop (Str s) k = (if k = ''length'' then Num (of_nat (length s)) else Undefined)"
| "oprop _ k = Undefined"

text \<open>\<^verbatim>\<open>v.k\<close>: reading a property of undefined or null throws.\<close>

fun jget :: "jv \<Rightarrow> string \<Rightarrow> jv res" where
  "jget Undefined k = Inl (TypeError (''Cannot read properties of undefined (reading '' @ k @ '')''))"
| "jget Null k = Inl (TypeError (''Cannot read properties of null (reading '' @ k @ '')''))"
| "jget v k = Inr (oprop v k)"

lemma jget_Obj [simp]: "jget (Obj ps) k = Inr (own ps k)"
  by simp

lemma prop_oprop: "jget v k = Inr x \<Longrightarrow> oprop v k = x"
  by (cases v) auto

section \<open>Insertion-ordered maps\<close>

text \<open>
  A JavaScript \<^verbatim>\<open>Map\<close> and an object used as a dictionary keep their entries in insertion order;
  setting an existing key keeps its place.
\<close>

type_synonym ('k, 'v) omap = "('k \<times> 'v) list"

fun oset :: "'k \<Rightarrow> 'v \<Rightarrow> ('k, 'v) omap \<Rightarrow> ('k, 'v) omap" where
  "oset k v [] = [(k, v)]"
| "oset k v ((a, b) # m) = (if a = k then (k, v) # m else (a, b) # oset k v m)"

definition odel :: "'k \<Rightarrow> ('k, 'v) omap \<Rightarrow> ('k, 'v) omap" where
  "odel k m = filter (\<lambda>(a, b). a \<noteq> k) m"

definition ohas :: "('k, 'v) omap \<Rightarrow> 'k \<Rightarrow> bool" where
  "ohas m k = (map_of m k \<noteq> None)"

definition owf :: "('k, 'v) omap \<Rightarrow> bool" where
  "owf m = distinct (map fst m)"

lemma map_of_oset [simp]: "map_of (oset k v m) = (map_of m)(k \<mapsto> v)"
  by (induction m) (auto simp: fun_eq_iff)

lemma map_of_odel [simp]: "map_of (odel k m) = (map_of m)(k := None)"
  by (induction m) (auto simp: odel_def fun_eq_iff)

lemma fst_set_oset: "fst ` set (oset k v m) = insert k (fst ` set m)"
  by (simp flip: dom_map_of_conv_image_fst)

lemma oset_append: "k \<notin> fst ` set m \<Longrightarrow> oset k v m = m @ [(k, v)]"
  by (induction m) force+

lemma owf_Nil [simp]: "owf []"
  by (simp add: owf_def)

lemma owf_oset [simp]: "owf m \<Longrightarrow> owf (oset k v m)"
  by (induction m) (auto simp: owf_def fst_set_oset)

lemma owf_odel [simp]: "owf m \<Longrightarrow> owf (odel k m)"
  by (simp add: owf_def odel_def distinct_map_filter)

lemma odel_empty_iff: "odel k m = [] \<longleftrightarrow> (\<forall>x \<in> dom (map_of m). x = k)"
  by (auto simp: odel_def filter_empty_conv dom_map_of_conv_image_fst)

text \<open>What a client of a dictionary relies on.\<close>

locale dictionary =
  fixes get :: "'m \<Rightarrow> 'k \<Rightarrow> 'v option"
    and put :: "'k \<Rightarrow> 'v \<Rightarrow> 'm \<Rightarrow> 'm"
    and del :: "'k \<Rightarrow> 'm \<Rightarrow> 'm"
  assumes get_put: "get (put k v m) j = (if j = k then Some v else get m j)"
    and get_del: "get (del k m) j = (if j = k then None else get m j)"
begin

lemma put_put_get: "get (put k v (put k w m)) j = get (put k v m) j"
  by (simp add: get_put)

lemma put_comm_get: "k \<noteq> k' \<Longrightarrow> get (put k v (put k' w m)) j = get (put k' w (put k v m)) j"
  by (simp add: get_put)

lemma del_put_get: "get (del k (put k v m)) j = get (del k m) j"
  by (simp add: get_put get_del)

end

interpretation od: dictionary map_of oset odel
  by unfold_locales auto

section \<open>Transition systems\<close>

text \<open>
  A component that handles one event at a time. The locale lifts an invariant from one step to
  every run and every state along it.
\<close>

locale stepper =
  fixes step :: "'s \<Rightarrow> 'e \<Rightarrow> 's"
    and inv :: "'s \<Rightarrow> bool"
  assumes step_inv: "inv s \<Longrightarrow> inv (step s e)"
begin

lemma run_inv: "inv s \<Longrightarrow> inv (foldl step s es)"
  by (induction es arbitrary: s) (simp_all add: step_inv)

lemma prefix_inv: "inv s \<Longrightarrow> prefix ds es \<Longrightarrow> inv (foldl step s ds)"
  by (rule run_inv)

end

text \<open>A component whose abstraction follows a specification step by step follows it in every run.\<close>

locale simulation =
  fixes step :: "'s \<Rightarrow> 'e \<Rightarrow> 's"
    and spec :: "'a \<Rightarrow> 'e \<Rightarrow> 'a"
    and abs :: "'s \<Rightarrow> 'a"
    and inv :: "'s \<Rightarrow> bool"
  assumes keeps: "inv s \<Longrightarrow> inv (step s e)"
    and follows: "inv s \<Longrightarrow> abs (step s e) = spec (abs s) e"
begin

lemma run_keeps: "inv s \<Longrightarrow> inv (foldl step s es)"
  by (induction es arbitrary: s) (simp_all add: keeps)

lemma run_follows: "inv s \<Longrightarrow> abs (foldl step s es) = foldl spec (abs s) es"
  by (induction es arbitrary: s) (simp_all add: keeps follows)

end

section \<open>Codecs\<close>

locale codec =
  fixes enc :: "'a \<Rightarrow> 'b"
    and dec :: "'b \<Rightarrow> 'a option"
    and wf :: "'a \<Rightarrow> bool"
  assumes dec_enc: "wf x \<Longrightarrow> dec (enc x) = Some x"
begin

lemma enc_inj: "wf x \<Longrightarrow> wf y \<Longrightarrow> enc x = enc y \<Longrightarrow> x = y"
  by (metis dec_enc option.inject)

lemma dec_enc_list:
  "list_all wf xs \<Longrightarrow> map (dec \<circ> enc) xs = map Some xs"
  by (induction xs) (simp_all add: dec_enc)

end

end
