(* ===== verification/JS_Number.thy ===== *)
theory JS_Number
  imports JS_String
begin

text \<open>
  JavaScript numbers: IEEE 754 binary64 with rounding to nearest, ties to even, as an executable
  rounding \<open>fl\<close> of exact rational results (53-bit significands, subnormals included; infinities,
  signed zeros and NaN are outside this model). On safe integers the arithmetic is exact, which is
  what the time-series code relies on.
\<close>

section \<open>Rounding\<close>

fun nlog2 :: "nat \<Rightarrow> nat" where
  "nlog2 n = (if n \<le> 1 then 0 else Suc (nlog2 (n div 2)))"

declare nlog2.simps [simp del]

definition pow2 :: "int \<Rightarrow> rat" where
  "pow2 k = (if 0 \<le> k then 2 ^ nat k else 1 / 2 ^ nat (- k))"

definition clog2 :: "nat \<Rightarrow> nat" where
  "clog2 m = (if m \<le> 1 then 0 else Suc (nlog2 (m - 1)))"

text \<open>The exponent of the leading bit of a positive rational.\<close>

definition ilog2 :: "rat \<Rightarrow> int" where
  "ilog2 x = (if 1 \<le> x then int (nlog2 (nat \<lfloor>x\<rfloor>)) else - int (clog2 (nat \<lceil>1 / x\<rceil>)))"

definition round_even :: "rat \<Rightarrow> int" where
  "round_even x =
     (let f = \<lfloor>x\<rfloor>; d = x - of_int f
      in if d < 1 / 2 then f else if 1 / 2 < d then f + 1 else if even f then f else f + 1)"

definition fl :: "rat \<Rightarrow> rat" where
  "fl x =
     (if x = 0 then 0
      else (let e = max (ilog2 \<bar>x\<bar> - 52) (- 1074)
            in of_int (round_even (x / pow2 e)) * pow2 e))"

definition dadd :: "rat \<Rightarrow> rat \<Rightarrow> rat" where "dadd x y = fl (x + y)"
definition dsub :: "rat \<Rightarrow> rat \<Rightarrow> rat" where "dsub x y = fl (x - y)"
definition dmul :: "rat \<Rightarrow> rat \<Rightarrow> rat" where "dmul x y = fl (x * y)"
definition ddiv :: "rat \<Rightarrow> rat \<Rightarrow> rat" where "ddiv x y = fl (x / y)"

lemmas double_ops = dadd_def dsub_def dmul_def ddiv_def

text \<open>\<^verbatim>\<open>Number.isSafeInteger\<close>\<close>

definition safe :: "int \<Rightarrow> bool" where
  "safe n = (\<bar>n\<bar> < 2 ^ 53)"

section \<open>Exactness\<close>

lemma nlog2_le: "0 < n \<Longrightarrow> 2 ^ nlog2 n \<le> n"
proof (induction n rule: nlog2.induct)
  case (1 n)
  show ?case
  proof (cases "n \<le> 1")
    case True
    with "1.prems" show ?thesis by (subst nlog2.simps) simp
  next
    case False
    with "1.IH" have "2 ^ nlog2 (n div 2) \<le> n div 2" by simp
    then have "2 * 2 ^ nlog2 (n div 2) \<le> n" by linarith
    with False show ?thesis by (subst nlog2.simps) simp
  qed
qed

lemma nlog2_less: "0 < n \<Longrightarrow> n < 2 ^ k \<Longrightarrow> nlog2 n < k"
  using nlog2_le [of n] power_less_imp_less_exp [of "2::nat" "nlog2 n" k] by linarith

lemma round_even_int [simp]: "round_even (of_int k) = k"
  by (simp add: round_even_def)

lemma pow2_neg: "pow2 (- int j) = 1 / 2 ^ j"
  by (simp add: pow2_def)

lemma fl_0 [simp]: "fl 0 = 0"
  by (simp add: fl_def)

lemma round_even_error: "\<bar>of_int (round_even x) - x\<bar> \<le> 1 / 2"
proof -
  have "of_int \<lfloor>x\<rfloor> \<le> x" "x < of_int \<lfloor>x\<rfloor> + 1" by linarith+
  then show ?thesis by (auto simp: round_even_def Let_def abs_le_iff)
qed

lemma pow2_pos: "0 < pow2 k"
  by (simp add: pow2_def)

lemma fl_error: "\<bar>fl x - x\<bar> \<le> pow2 (max (ilog2 \<bar>x\<bar> - 52) (- 1074)) / 2"
proof (cases "x = 0")
  case False
  let ?p = "pow2 (max (ilog2 \<bar>x\<bar> - 52) (- 1074))"
  have p: "0 < ?p" by (rule pow2_pos)
  have "fl x - x = (of_int (round_even (x / ?p)) - x / ?p) * ?p"
    using False p by (simp add: fl_def Let_def field_simps)
  then have "\<bar>fl x - x\<bar> = \<bar>of_int (round_even (x / ?p)) - x / ?p\<bar> * ?p"
    using p by (simp add: abs_mult)
  also have "\<dots> \<le> 1 / 2 * ?p" using p round_even_error by (intro mult_right_mono) auto
  finally show ?thesis by simp
qed (use pow2_pos [of "max (ilog2 \<bar>x\<bar> - 52) (- 1074)"] in simp)

lemma ilog2_le: "x < 2 ^ Suc n \<Longrightarrow> ilog2 x \<le> int n"
proof (cases "1 \<le> x")
  case True
  assume x: "x < 2 ^ Suc n"
  have "2 ^ nlog2 (nat \<lfloor>x\<rfloor>) \<le> nat \<lfloor>x\<rfloor>" using True by (intro nlog2_le) simp
  also have "nat \<lfloor>x\<rfloor> < 2 ^ Suc n"
  proof -
    have "\<lfloor>x\<rfloor> < 2 ^ Suc n" using x by (simp add: floor_less_iff)
    then show ?thesis using True by (simp add: nat_less_iff)
  qed
  finally have "nlog2 (nat \<lfloor>x\<rfloor>) < Suc n" by (simp only: power_strict_increasing_iff)
  with True show ?thesis by (simp add: ilog2_def)
qed (simp add: ilog2_def)

lemma fl_close: "0 \<le> x \<Longrightarrow> x < 64 \<Longrightarrow> \<bar>fl x - x\<bar> \<le> 1 / 2 ^ 48"
proof -
  assume x: "0 \<le> x" "x < 64"
  let ?e = "max (ilog2 \<bar>x\<bar> - 52) (- 1074)"
  have "ilog2 \<bar>x\<bar> \<le> int 5" by (rule ilog2_le) (use x in simp)
  then have e: "?e \<le> - 47" by simp
  then have "pow2 ?e = 1 / 2 ^ nat (- ?e)" by (simp add: pow2_def)
  also have "\<dots> \<le> 1 / 2 ^ 47"
  proof -
    have "47 \<le> nat (- ?e)" using e by linarith
    then have "(2::rat) ^ 47 \<le> 2 ^ nat (- ?e)" by (rule power_increasing) simp
    then show ?thesis by (simp add: frac_le)
  qed
  finally show ?thesis using fl_error [of x] by simp
qed

lemma fl_near: "0 \<le> x \<Longrightarrow> x < 64 \<Longrightarrow> x - 1 / 10000 \<le> fl x \<and> fl x \<le> x + 1 / 10000"
proof -
  assume "0 \<le> x" "x < 64"
  then have "\<bar>fl x - x\<bar> \<le> 1 / 2 ^ 48" by (rule fl_close)
  also have "\<dots> \<le> (1 / 10000 :: rat)" by simp
  finally show ?thesis by linarith
qed

lemma fl_safe:
  assumes "safe n"
  shows "fl (of_int n) = of_int n"
proof (cases "n = 0")
  case False
  define l where "l = nlog2 (nat \<bar>n\<bar>)"
  have "l < 53"
    unfolding l_def using assms False by (intro nlog2_less) (auto simp: safe_def nat_less_iff)
  define j where "j = 52 - l"
  have j: "int l - 52 = - int j"
    using \<open>l < 53\<close> by (simp add: j_def of_nat_diff)
  have "1 \<le> \<bar>n\<bar>" using False by simp
  then have ge1: "(1::rat) \<le> of_int \<bar>n\<bar>" by (simp only: of_int_1_le_iff)
  have il: "ilog2 \<bar>of_int n\<bar> = int l"
    using ge1 by (simp only: ilog2_def l_def floor_of_int if_True flip: of_int_abs)
  have j1074: "max (int l - 52) (- 1074) = - int j"
    using j by linarith
  have ex: "of_int n / pow2 (- int j) = (of_int (n * 2 ^ j) :: rat)"
    by (simp add: pow2_neg)
  show ?thesis
    using False by (simp only: fl_def il j1074 ex Let_def of_int_eq_0_iff if_False round_even_int)
      (simp add: pow2_neg)
qed simp

lemma fl_safe_nat: "n < 2 ^ 53 \<Longrightarrow> fl (of_nat n) = of_nat n"
  using fl_safe [of "int n"] by (simp add: safe_def)

lemma dadd_safe: "safe (a + b) \<Longrightarrow> dadd (of_int a) (of_int b) = of_int (a + b)"
  using fl_safe [of "a + b"] by (simp add: dadd_def)

lemma dsub_safe: "safe (a - b) \<Longrightarrow> dsub (of_int a) (of_int b) = of_int (a - b)"
  using fl_safe [of "a - b"] by (simp add: dsub_def)

lemma dmul_safe: "safe (a * b) \<Longrightarrow> dmul (of_int a) (of_int b) = of_int (a * b)"
  using fl_safe [of "a * b"] by (simp add: dmul_def)

lemma ddiv_safe:
  "b \<noteq> 0 \<Longrightarrow> safe a \<Longrightarrow> ddiv (of_int (b * a)) (of_int b) = of_int a"
  using fl_safe [of a] by (simp add: ddiv_def)

section \<open>Conversion to and from text\<close>

definition scale10 :: "rat \<Rightarrow> int \<Rightarrow> rat" where
  "scale10 x e = (if 0 \<le> e then x * 10 ^ nat e else x / 10 ^ nat (- e))"

text \<open>The position of the decimal point of a positive number: \<open>10 ^ (n - 1) \<le> x < 10 ^ n\<close>.\<close>

definition point_pos :: "rat \<Rightarrow> int" where
  "point_pos x = (if 1 \<le> x then int (length (show_nat (nat \<lfloor>x\<rfloor>)))
                  else 1 - int (length (show_nat (nat \<lceil>1 / x\<rceil> - 1))))"

text \<open>
  The shortest digits, as a number, and the point position of a positive double: with \<open>k\<close> digits the two
  neighbours are tried and the closer one that rounds to the double is taken; 17 digits are always enough.
\<close>

definition digits_k :: "rat \<Rightarrow> nat \<Rightarrow> nat option" where
  "digits_k x k =
     (let n = point_pos x; y = scale10 x (int k - n); lo = \<lfloor>y\<rfloor>; hi = lo + 1;
          ok = (\<lambda>s. fl (scale10 (of_int s) (n - int k)) = x);
          first = (if y - of_int lo < of_int hi - y \<or> y - of_int lo = of_int hi - y \<and> even lo
                   then lo else hi);
          other = lo + hi - first
      in if ok first then Some (nat first) else if ok other then Some (nat other) else None)"

fun shortest_from :: "rat \<Rightarrow> nat \<Rightarrow> nat \<Rightarrow> nat" where
  "shortest_from x k 0 =
     (case digits_k x k of Some s \<Rightarrow> s | None \<Rightarrow> nat \<lfloor>scale10 x (int k - point_pos x)\<rfloor>)"
| "shortest_from x k (Suc m) =
     (case digits_k x k of Some s \<Rightarrow> s | None \<Rightarrow> shortest_from x (Suc k) m)"

text \<open>Trailing zeros of the digits do not count; the carry to the next power of ten is such a case.\<close>

definition strip_zeros :: "string \<Rightarrow> string" where
  "strip_zeros ds = rev (dropWhile (\<lambda>c. c = CHR ''0'') (rev ds))"

definition exponent_text :: "int \<Rightarrow> string" where
  "exponent_text e = (if e < 0 then ''e-'' @ show_nat (nat (- e)) else ''e+'' @ show_nat (nat e))"

definition place_point :: "string \<Rightarrow> int \<Rightarrow> string" where
  "place_point ds n =
     (let k = int (length ds) in
      if k \<le> n \<and> n \<le> 21 then ds @ replicate (nat (n - k)) (CHR ''0'')
      else if 0 < n \<and> n \<le> 21 then take (nat n) ds @ ''.'' @ drop (nat n) ds
      else if - 6 < n \<and> n \<le> 0 then ''0.'' @ replicate (nat (- n)) (CHR ''0'') @ ds
      else if k = 1 then ds @ exponent_text (n - 1)
      else take 1 ds @ ''.'' @ drop 1 ds @ exponent_text (n - 1))"

text \<open>\<open>k\<close> is the number of digits that were needed.\<close>

fun digits_needed :: "rat \<Rightarrow> nat \<Rightarrow> nat \<Rightarrow> nat" where
  "digits_needed x k 0 = k"
| "digits_needed x k (Suc m) = (if digits_k x k = None then digits_needed x (Suc k) m else k)"

definition show_pos :: "rat \<Rightarrow> string" where
  "show_pos x =
     (let k = digits_needed x 1 16; ds = show_nat (shortest_from x 1 16)
      in place_point (strip_zeros ds) (point_pos x + int (length ds) - int k))"

text \<open>
  \<^verbatim>\<open>String(x)\<close> for a finite number. For a safe integer the shortest digits are its decimal digits.
\<close>

definition show_num :: "rat \<Rightarrow> string" where
  "show_num x =
     (if of_int \<lfloor>x\<rfloor> = x \<and> safe \<lfloor>x\<rfloor> then show_int \<lfloor>x\<rfloor>
      else if x < 0 then CHR ''-'' # show_pos (- x) else show_pos x)"

lemma show_num_int: "safe i \<Longrightarrow> show_num (of_int i) = show_int i"
  by (simp add: show_num_def)

text \<open>\<^verbatim>\<open>`${v}`\<close>\<close>

fun js_text :: "jv \<Rightarrow> string" where
  "js_text Undefined = ''undefined''"
| "js_text Null = ''null''"
| "js_text (Bool b) = (if b then ''true'' else ''false'')"
| "js_text (Num x) = show_num x"
| "js_text NaN = ''NaN''"
| "js_text (Str s) = s"
| "js_text (Arr xs) = join '','' (map (\<lambda>v. if v = Undefined \<or> v = Null then [] else js_text v) xs)"
| "js_text (Obj ps) = ''[object Object]''"

text \<open>
  \<^verbatim>\<open>parseFloat(s)\<close>: the longest prefix that is a decimal literal; the literal \<^verbatim>\<open>Infinity\<close> is not modelled.
\<close>

definition float_exp :: "string \<Rightarrow> int" where
  "float_exp s =
     (if s \<noteq> [] \<and> (hd s = CHR ''e'' \<or> hd s = CHR ''E'')
      then (let neg = starts_with (tl s) ''-'';
                t = (if neg \<or> starts_with (tl s) ''+'' then tl (tl s) else tl s);
                n = int (digits_val (takeWhile is_digit t))
            in if neg then - n else n)
      else 0)"

definition parse_float :: "string \<Rightarrow> jv" where
  "parse_float s =
     (let t = dropWhile is_ws s; neg = starts_with t ''-'';
          u = (if neg \<or> starts_with t ''+'' then tl t else t);
          ds = takeWhile is_digit u; r = dropWhile is_digit u;
          fs = (if starts_with r ''.'' then takeWhile is_digit (tl r) else []);
          q = (if starts_with r ''.'' then dropWhile is_digit (tl r) else r)
      in if ds = [] \<and> fs = [] then NaN
         else (let x = scale10 (of_nat (digits_val (ds @ fs))) (float_exp q - int (length fs))
               in Num (fl (if neg then - x else x))))"

lemma parse_float_nat: "n < 2 ^ 53 \<Longrightarrow> parse_float (show_nat n) = Num (of_nat n)"
proof -
  assume n: "n < 2 ^ 53"
  obtain c cs where c: "show_nat n = c # cs" by (cases "show_nat n") (use show_nat_ne in blast)+
  have d: "is_digit c" using show_nat_digits [of n] c by simp
  have ds: "takeWhile is_digit (show_nat n) = show_nat n" "dropWhile is_digit (show_nat n) = []"
    using show_nat_digits [of n] by (auto simp: takeWhile_eq_all_conv)
  have "dropWhile is_ws (show_nat n) = show_nat n" "\<not> starts_with (show_nat n) ''-''" "\<not> starts_with (show_nat n) ''+''"
    using digit_sign_free [OF d] is_digit_not_ws [OF d] by (auto simp: c starts_with_def)
  then show ?thesis
    using fl_safe_nat [OF n] by (simp add: parse_float_def ds Let_def float_exp_def scale10_def starts_with_def)
qed

end
