(* ===== verification/Reslens_Toast.thy ===== *)
theory Reslens_Toast
  imports JS_Number
begin

text \<open>
  The notifications of the ResLens dashboard, \<^verbatim>\<open>reslens/src/hooks/use-toast.ts\<close>: a store outside the components with
  a reducer, timers that remove dismissed toasts, and the components that listen to it. A toast is an object of
  properties; the callback \<^verbatim>\<open>onOpenChange\<close>, which calls \<^verbatim>\<open>dismiss\<close> of the same toast, is the event \<open>Dismiss\<close>.
\<close>

section \<open>Operations\<close>

definition TOAST_LIMIT :: nat where
  "TOAST_LIMIT = 1"

definition MAX_SAFE_INTEGER :: nat where
  "MAX_SAFE_INTEGER = 2 ^ 53 - 1"

type_synonym toast = "(string, jv) omap"

datatype action =
    ADD_TOAST toast
  | UPDATE_TOAST toast
  | DISMISS_TOAST "string option"
  | REMOVE_TOAST "string option"

record 'l toaster =
  counter :: nat
  toastTimeouts :: "string list"
  toasts :: "toast list"
  listeners :: "'l list"
  seen :: "'l \<Rightarrow> toast list"

definition has_id :: "string \<Rightarrow> toast \<Rightarrow> bool" where
  "has_id i t = (own t ''id'' = Str i)"

text \<open>\<^verbatim>\<open>{ ...a, ...b }\<close>\<close>

definition spread :: "toast \<Rightarrow> toast \<Rightarrow> toast" where
  "spread a b = foldl (\<lambda>m k. oset k (own b k) m) a (map fst b)"

definition genId :: "'l toaster \<Rightarrow> string \<times> 'l toaster" where
  "genId s = (let c = (counter s + 1) mod MAX_SAFE_INTEGER in (show_nat c, s\<lparr>counter := c\<rparr>))"

definition addToRemoveQueue :: "string \<Rightarrow> string list \<Rightarrow> string list" where
  "addToRemoveQueue i ts = (if i \<in> set ts then ts else ts @ [i])"

definition toast_id :: "toast \<Rightarrow> string" where
  "toast_id t = js_text (own t ''id'')"

text \<open>The reducer returns the new toasts; dismissing also starts timers.\<close>

fun reducer :: "toast list \<Rightarrow> action \<Rightarrow> toast list" where
  "reducer ts (ADD_TOAST t) = take TOAST_LIMIT (t # ts)"
| "reducer ts (UPDATE_TOAST u) = map (\<lambda>t. if own t ''id'' = own u ''id'' then spread t u else t) ts"
| "reducer ts (DISMISS_TOAST i) =
     map (\<lambda>t. if i = None \<or> own t ''id'' = Str (the i) then oset ''open'' (Bool False) t else t) ts"
| "reducer ts (REMOVE_TOAST None) = []"
| "reducer ts (REMOVE_TOAST (Some i)) = filter (\<lambda>t. \<not> has_id i t) ts"

fun queue_removals :: "toast list \<Rightarrow> action \<Rightarrow> string list \<Rightarrow> string list" where
  "queue_removals ts (DISMISS_TOAST i) q =
     (if i \<noteq> None \<and> i \<noteq> Some [] then addToRemoveQueue (the i) q
      else foldl (\<lambda>q t. addToRemoveQueue (toast_id t) q) q ts)"
| "queue_removals ts _ q = q"

definition dispatch :: "action \<Rightarrow> 'l toaster \<Rightarrow> 'l toaster" where
  "dispatch a s =
     (let ts = reducer (toasts s) a
      in s\<lparr>toastTimeouts := queue_removals (toasts s) a (toastTimeouts s), toasts := ts,
           seen := (\<lambda>l. if l \<in> set (listeners s) then ts else seen s l)\<rparr>)"

definition toast :: "toast \<Rightarrow> 'l toaster \<Rightarrow> 'l toaster" where
  "toast props s =
     (case genId s of (i, s') \<Rightarrow>
        dispatch (ADD_TOAST (oset ''open'' (Bool True) (oset ''id'' (Str i) props))) s')"

definition update_toast :: "string \<Rightarrow> toast \<Rightarrow> 'l toaster \<Rightarrow> 'l toaster" where
  "update_toast i props s = dispatch (UPDATE_TOAST (oset ''id'' (Str i) props)) s"

text \<open>The callback of a timer.\<close>

definition on_timeout :: "string \<Rightarrow> 'l toaster \<Rightarrow> 'l toaster" where
  "on_timeout i s =
     (if i \<in> set (toastTimeouts s)
      then dispatch (REMOVE_TOAST (Some i)) (s\<lparr>toastTimeouts := removeAll i (toastTimeouts s)\<rparr>) else s)"

text \<open>\<^verbatim>\<open>useToast\<close>: a component starts with the current toasts and listens until it is unmounted.\<close>

definition mount :: "'l \<Rightarrow> 'l toaster \<Rightarrow> 'l toaster" where
  "mount l s = s\<lparr>listeners := listeners s @ [l], seen := (seen s)(l := toasts s)\<rparr>"

definition unmount :: "'l \<Rightarrow> 'l toaster \<Rightarrow> 'l toaster" where
  "unmount l s = s\<lparr>listeners := remove1 l (listeners s)\<rparr>"

datatype 'l toast_event =
    Toast toast
  | Update string toast
  | Dismiss "string option"
  | Timeout string
  | Mount 'l
  | Unmount 'l

fun toast_step :: "'l toaster \<Rightarrow> 'l toast_event \<Rightarrow> 'l toaster" where
  "toast_step s (Toast props) = toast props s"
| "toast_step s (Update i props) = update_toast i props s"
| "toast_step s (Dismiss i) = dispatch (DISMISS_TOAST i) s"
| "toast_step s (Timeout i) = on_timeout i s"
| "toast_step s (Mount l) = mount l s"
| "toast_step s (Unmount l) = unmount l s"

definition fresh_toaster :: "'l toaster" where
  "fresh_toaster = \<lparr>counter = 0, toastTimeouts = [], toasts = [], listeners = [], seen = (\<lambda>_. [])\<rparr>"

section \<open>Invariant\<close>

text \<open>
  At most one toast is kept, no toast has two timers, and every listening component has the current toasts.
\<close>

definition toaster_ok :: "'l toaster \<Rightarrow> bool" where
  "toaster_ok s \<longleftrightarrow> length (toasts s) \<le> TOAST_LIMIT \<and> distinct (toastTimeouts s)
     \<and> (\<forall>l \<in> set (listeners s). seen s l = toasts s)"

lemma own_oset [simp]: "own (oset k v m) j = (if j = k then v else own m j)"
  by (simp add: own_def)

lemma own_spread: "own (spread a b) j = (if j \<in> fst ` set b then own b j else own a j)"
proof -
  have "own (foldl (\<lambda>m k. oset k (f k) m) a ks) j = (if j \<in> set ks then f j else own a j)" for f ks
    by (induction ks arbitrary: a) auto
  then show ?thesis by (simp add: spread_def)
qed

lemma distinct_queue: "distinct q \<Longrightarrow> distinct (queue_removals ts a q)"
proof (cases a)
  case (DISMISS_TOAST i)
  have "distinct q \<Longrightarrow> distinct (foldl (\<lambda>q t. addToRemoveQueue (toast_id t) q) q ts)" for q
    by (induction ts arbitrary: q) (auto simp: addToRemoveQueue_def)
  then show "distinct q \<Longrightarrow> ?thesis" by (auto simp: DISMISS_TOAST addToRemoveQueue_def)
qed simp_all

lemma queue_mono: "x \<in> set q \<Longrightarrow> x \<in> set (queue_removals ts a q)"
proof (cases a)
  case (DISMISS_TOAST i)
  have "x \<in> set q \<Longrightarrow> x \<in> set (foldl (\<lambda>q t. addToRemoveQueue (toast_id t) q) q ts)" for q
    by (induction ts arbitrary: q) (auto simp: addToRemoveQueue_def)
  then show "x \<in> set q \<Longrightarrow> ?thesis" by (auto simp: DISMISS_TOAST addToRemoveQueue_def)
qed simp_all

lemma reducer_limit: "length ts \<le> TOAST_LIMIT \<Longrightarrow> length (reducer ts a) \<le> TOAST_LIMIT"
  by (cases "(ts, a)" rule: reducer.cases) (auto intro: le_trans [OF length_filter_le])

lemma dispatch_ok: "toaster_ok s \<Longrightarrow> toaster_ok (dispatch a s)"
  using reducer_limit [of "toasts s" a] distinct_queue by (auto simp: toaster_ok_def dispatch_def Let_def)

lemma toaster_ok_step:
  assumes "toaster_ok s"
  shows "toaster_ok (toast_step s e)"
proof (cases e)
  case (Toast props)
  have "toaster_ok (snd (genId s))" using assms by (simp add: toaster_ok_def genId_def Let_def)
  then show ?thesis using Toast by (auto simp: toast_def genId_def Let_def intro: dispatch_ok)
next
  case (Timeout i)
  have "toaster_ok (s\<lparr>toastTimeouts := removeAll i (toastTimeouts s)\<rparr>)"
    using assms by (simp add: toaster_ok_def distinct_removeAll)
  then show ?thesis using Timeout assms by (auto simp: on_timeout_def intro: dispatch_ok)
next
  case (Mount l)
  then show ?thesis using assms by (auto simp: toaster_ok_def mount_def)
next
  case (Unmount l)
  then show ?thesis using assms by (auto simp: toaster_ok_def unmount_def dest: notin_set_remove1)
qed (use assms in \<open>auto simp: update_toast_def intro: dispatch_ok\<close>)

interpretation toasts: stepper toast_step toaster_ok
  by unfold_locales (rule toaster_ok_step)

section \<open>Life of a toast\<close>

definition current :: "string \<Rightarrow> 'l toaster \<Rightarrow> bool" where
  "current i s = (\<exists>t. toasts s = [t] \<and> own t ''id'' = Str i)"

fun spares :: "string \<Rightarrow> 'l toast_event \<Rightarrow> bool" where
  "spares i (Toast _) = False"
| "spares i (Timeout j) = (j \<noteq> i)"
| "spares i _ = True"

lemma current_step: "current i s \<Longrightarrow> spares i e \<Longrightarrow> current i (toast_step s e)"
  by (cases e) (auto simp: current_def dispatch_def Let_def update_toast_def own_spread fst_set_oset on_timeout_def
    has_id_def mount_def unmount_def)

lemma current_run: "current i s \<Longrightarrow> list_all (spares i) es \<Longrightarrow> current i (foldl toast_step s es)"
  by (induction es arbitrary: s) (simp_all add: current_step)

lemma timer_step: "i \<in> set (toastTimeouts s) \<Longrightarrow> spares i e \<Longrightarrow> i \<in> set (toastTimeouts (toast_step s e))"
  by (cases e) (auto simp: dispatch_def Let_def update_toast_def on_timeout_def mount_def unmount_def intro: queue_mono
    simp del: queue_removals.simps)

lemma timer_run:
  "i \<in> set (toastTimeouts s) \<Longrightarrow> list_all (spares i) es \<Longrightarrow> i \<in> set (toastTimeouts (foldl toast_step s es))"
  by (induction es arbitrary: s) (simp_all add: timer_step)

lemma current_toast: "current (fst (genId s)) (toast_step s (Toast props))"
  by (simp add: current_def toast_def genId_def Let_def dispatch_def TOAST_LIMIT_def)

lemma genId_ne: "fst (genId s) \<noteq> []"
  by (simp add: genId_def Let_def)

section \<open>Properties\<close>

text \<open>
  In every run there is at most one toast, every listening component shows the current one, and no two
  timers are pending for the same toast.
\<close>

lemma toaster_invariant:
  "let s = foldl toast_step fresh_toaster es in
     length (toasts s) \<le> TOAST_LIMIT \<and> distinct (toastTimeouts s)
   \<and> (\<forall>l \<in> set (listeners s). seen s l = toasts s)"
  using toasts.run_inv [of fresh_toaster es] by (simp add: toaster_ok_def fresh_toaster_def Let_def)

text \<open>
  A toast is shown from its creation until it is replaced or its timer fires, whatever else happens, and a
  dismissed toast does go away: dismissing it starts its timer, which stays pending until it fires, and then
  no toast is left.
\<close>

lemma toast_lifetime:
  assumes "i = fst (genId s)" "list_all (spares i) es" "list_all (spares i) fs"
  shows "current i (foldl toast_step s (Toast props # es))
    \<and> toasts (foldl toast_step s (Toast props # es @ Dismiss (Some i) # fs @ [Timeout i])) = []"
proof -
  let ?s1 = "foldl toast_step s (Toast props # es)"
  let ?s2 = "toast_step ?s1 (Dismiss (Some i))"
  let ?s3 = "foldl toast_step ?s2 fs"
  have c1: "current i ?s1" using current_run [OF current_toast [of s props]] assms(1,2) by simp
  have "current i ?s2" by (rule current_step [OF c1]) simp
  then have c3: "current i ?s3" using assms(3) by (rule current_run)
  have "i \<in> set (toastTimeouts ?s2)"
    using genId_ne [of s] assms(1) by (simp add: dispatch_def Let_def addToRemoveQueue_def)
  then have "i \<in> set (toastTimeouts ?s3)" using assms(3) by (rule timer_run)
  with c3 have "toasts (toast_step ?s3 (Timeout i)) = []"
    by (auto simp: current_def on_timeout_def dispatch_def Let_def has_id_def)
  with c1 show ?thesis by simp
qed

end
