(* ===== verification/Reslens_Sync.thy ===== *)
theory Reslens_Sync
  imports JS_String
begin

text \<open>
  \<^verbatim>\<open>reslens-middleware/middleware/cron/syncTransactionHistory.js\<close>: the job that copies the block list
  of the explorer into the SQLite table \<^verbatim>\<open>transactions\<close>, in batches, resuming after the largest block
  id already stored. The explorer's two endpoints are parameters of the definitions. The table is
  the list of its rows in insertion order; every \<^verbatim>\<open>INSERT\<close> is committed on its own, so a crash keeps
  the rows inserted so far.
\<close>

section \<open>Data\<close>

record block =
  b_id :: int
  b_createdAt :: string
  b_transactions :: "jv list option"

record row =
  block_id :: int
  volume :: int
  created_at :: string

type_synonym table = "row list"

text \<open>The reply of \<^verbatim>\<open>/populatetable\<close>: \<^term>\<open>None\<close> when it is not an array; the inner option is an
  entry's \<^verbatim>\<open>blockNum\<close>, which may be missing.\<close>

type_synonym stats_reply = "int option list option"
type_synonym blocks_api = "int \<Rightarrow> int \<Rightarrow> block list res"

datatype sync_outcome = Completed | UpToDate | Failed js_error

definition BATCH_SIZE :: int where
  "BATCH_SIZE = 1000"

section \<open>Operations\<close>

text \<open>\<^verbatim>\<open>SELECT MAX(block_id)\<close> is null on an empty table, and \<^verbatim>\<open>null || 0\<close> is 0.\<close>

definition getLastProcessedBlockId :: "table \<Rightarrow> int" where
  "getLastProcessedBlockId t = (case map block_id t of [] \<Rightarrow> 0 | x # xs \<Rightarrow> foldl max x xs)"

definition getTotalBlocks :: "stats_reply res \<Rightarrow> int res" where
  "getTotalBlocks reply = bind_res reply (\<lambda>data.
     Inr (case data of Some (Some n # _) \<Rightarrow> n | _ \<Rightarrow> 0))"

definition fetchBlockRange :: "blocks_api \<Rightarrow> int \<Rightarrow> int \<Rightarrow> block list res" where
  "fetchBlockRange api start end' = api start end'"

definition row_of :: "block \<Rightarrow> row" where
  "row_of b = \<lparr>block_id = b_id b,
     volume = (case b_transactions b of Some ts \<Rightarrow> int (length ts) | None \<Rightarrow> 0),
     created_at = b_createdAt b\<rparr>"

text \<open>The counter that the promise resolves with is never incremented.\<close>

definition storeTransactions :: "block list \<Rightarrow> table \<Rightarrow> int \<times> table" where
  "storeTransactions blocks t = (0, t @ map row_of blocks)"

function sync_loop :: "blocks_api \<Rightarrow> int \<Rightarrow> int \<Rightarrow> table \<Rightarrow> table \<times> js_error option" where
  "sync_loop api totalBlocks currentStart t =
     (if currentStart \<le> totalBlocks then
        (let currentEnd = min (currentStart + BATCH_SIZE - 1) totalBlocks
         in case fetchBlockRange api currentStart currentEnd of
              Inl e \<Rightarrow> (t, Some e)
            | Inr blocks \<Rightarrow>
                sync_loop api totalBlocks (currentEnd + 1) (snd (storeTransactions blocks t)))
      else (t, None))"
  by pat_completeness auto
termination
  by (relation "measure (\<lambda>(api, total, start, t). nat (total + 1 - start))")
    (auto simp: BATCH_SIZE_def)

declare sync_loop.simps [simp del]

definition syncTransactionHistory ::
    "blocks_api \<Rightarrow> stats_reply res \<Rightarrow> table \<Rightarrow> table \<times> sync_outcome" where
  "syncTransactionHistory api reply t =
     (let lastProcessedId = getLastProcessedBlockId t
      in case getTotalBlocks reply of
           Inl e \<Rightarrow> (t, Failed e)
         | Inr totalBlocks \<Rightarrow>
             if lastProcessedId < totalBlocks
             then (case sync_loop api totalBlocks (lastProcessedId + 1) t of
                     (t', None) \<Rightarrow> (t', Completed)
                   | (t', Some e) \<Rightarrow> (t', Failed e))
             else (t, UpToDate))"

text \<open>
  \<^verbatim>\<open>CREATE TABLE IF NOT EXISTS\<close> and the two indexes: an existing table keeps its rows. The fault is the
  error of the first statement that fails, if any.
\<close>

definition initializeDatabase :: "js_error option \<Rightarrow> table option \<Rightarrow> table res" where
  "initializeDatabase fault db =
     (case fault of Some e \<Rightarrow> Inl e | None \<Rightarrow> Inr (case db of None \<Rightarrow> [] | Some t \<Rightarrow> t))"

text \<open>
  One run after the schema exists, and then one run per tick of the schedule if \<^verbatim>\<open>scheduleJob\<close> is set;
  nothing runs when the schema cannot be created. The replies of the explorer are given per run.
\<close>

type_synonym replies = "blocks_api \<times> stats_reply res"

definition initSyncService ::
    "js_error option \<Rightarrow> bool \<Rightarrow> replies \<Rightarrow> replies list \<Rightarrow> table option \<Rightarrow> table option" where
  "initSyncService fault scheduleJob first ticks db =
     (case initializeDatabase fault db of
        Inl e \<Rightarrow> db
      | Inr t \<Rightarrow>
          (let run = (\<lambda>t (api, reply). fst (syncTransactionHistory api reply t))
           in Some (if scheduleJob then foldl run (run t first) ticks else run t first)))"

section \<open>Command line\<close>

datatype sync_command = Start string | RunOnce | Status | Help | Unknown string

text \<open>
  \<^verbatim>\<open>process.argv.slice(2)\<close> decides the command; a later \<^verbatim>\<open>--schedule=\<close> option overrides an earlier one.
\<close>

definition parse_options :: "string list \<Rightarrow> string option" where
  "parse_options args =
     foldl (\<lambda>acc arg. if starts_with arg ''--schedule='' then Some (drop 11 arg) else acc) None args"

definition parse_command :: "string list \<Rightarrow> sync_command" where
  "parse_command args =
     (let command = (case args of a # _ \<Rightarrow> if a = [] then ''start'' else a | [] \<Rightarrow> ''start'');
          schedule = (case parse_options args of None \<Rightarrow> ''0 * * * *'' | Some s \<Rightarrow> s)
      in if command = ''start'' then Start schedule
         else if command = ''run-once'' then RunOnce
         else if command = ''status'' then Status
         else if command = ''help'' then Help
         else Unknown command)"

section \<open>What the job keeps true\<close>

text \<open>
  The explorer's chain: creation time and transactions of every block number. \<open>served\<close> is an explorer
  that answers a range request with the blocks of the range in ascending order, or fails as \<open>fails\<close>
  says; \<open>serves\<close> is the same promise for an arbitrary endpoint.
\<close>

type_synonym content = "int \<Rightarrow> string \<times> jv list option"

definition chain_block :: "content \<Rightarrow> int \<Rightarrow> block" where
  "chain_block c i = \<lparr>b_id = i, b_createdAt = fst (c i), b_transactions = snd (c i)\<rparr>"

definition served :: "content \<Rightarrow> (int \<Rightarrow> int \<Rightarrow> js_error option) \<Rightarrow> blocks_api" where
  "served c fails a b = (case fails a b of Some e \<Rightarrow> Inl e | None \<Rightarrow> Inr (map (chain_block c) [a..b]))"

definition serves :: "content \<Rightarrow> blocks_api \<Rightarrow> bool" where
  "serves c api = (\<forall>a b. case api a b of Inl _ \<Rightarrow> True | Inr bs \<Rightarrow> bs = map (chain_block c) [a..b])"

abbreviation chain_rows :: "content \<Rightarrow> int \<Rightarrow> int \<Rightarrow> table" where
  "chain_rows c a b \<equiv> map (\<lambda>i. row_of (chain_block c i)) [a..b]"

text \<open>The table holds the blocks from 1 on, each once, in order, as the chain has them.\<close>

definition mirrors :: "content \<Rightarrow> table \<Rightarrow> bool" where
  "mirrors c t = (t = chain_rows c 1 (int (length t)))"

text \<open>
  One run of the job, possibly cut short by a crash after the given number of inserts.
\<close>

type_synonym run_event = "(int \<Rightarrow> int \<Rightarrow> js_error option) \<times> stats_reply res \<times> nat option"

fun sync_step :: "content \<Rightarrow> table \<Rightarrow> run_event \<Rightarrow> table" where
  "sync_step c t (fails, reply, crash) =
     (let t' = fst (syncTransactionHistory (served c fails) reply t)
      in case crash of None \<Rightarrow> t' | Some k \<Rightarrow> take (length t + k) t')"

lemma serves_served: "serves c (served c fails)"
  by (simp add: serves_def served_def split: option.splits)

lemma foldl_max_sorted: "sorted (y # ys) \<Longrightarrow> foldl max y ys = last (y # ys)" for y :: int
  by (induction ys arbitrary: y) (auto simp: max_def)

lemma block_id_chain_rows: "map block_id (chain_rows c a b) = [a..b]"
  by (simp add: row_of_def chain_block_def o_def)

lemma last_mirrors:
  assumes "mirrors c t"
  shows "getLastProcessedBlockId t = int (length t)"
proof -
  have ids: "map block_id t = [1..int (length t)]"
    using assms block_id_chain_rows [of c 1 "int (length t)"] by (simp only: mirrors_def)
  show ?thesis
  proof (cases "t = []")
    case False
    obtain y ys where y: "map block_id t = y # ys" using False by (cases t) auto
    then have "sorted (y # ys)" using ids by (metis sorted_upto)
    then have "getLastProcessedBlockId t = last (map block_id t)"
      using y foldl_max_sorted [of y ys] by (simp add: getLastProcessedBlockId_def)
    also have "\<dots> = int (length t)"
    proof -
      have "1 \<le> int (length t)" using False by (cases t) auto
      then show ?thesis by (simp add: ids upto_rec2)
    qed
    finally show ?thesis .
  qed (simp add: getLastProcessedBlockId_def)
qed

lemma upto_append:
  assumes "i \<le> j + 1" and "j \<le> k"
  shows "[i..j] @ [j + 1..k] = [i..k]"
proof (cases "i \<le> j")
  case True
  with assms show ?thesis using upto_split2 [of i j k] by simp
next
  case False
  with assms have "i = j + 1" by simp
  then show ?thesis by simp
qed

lemma chain_rows_append:
  "i \<le> j + 1 \<Longrightarrow> j \<le> k \<Longrightarrow> chain_rows c i j @ chain_rows c (j + 1) k = chain_rows c i k"
  using upto_append [of i j k] by (simp flip: map_append)

lemma mirrors_append:
  assumes "mirrors c t" and "int (length t) \<le> n"
  shows "t @ chain_rows c (int (length t) + 1) n = chain_rows c 1 n"
proof -
  have "t @ chain_rows c (int (length t) + 1) n
      = chain_rows c 1 (int (length t)) @ chain_rows c (int (length t) + 1) n"
    using assms(1) by (simp only: mirrors_def)
  also have "\<dots> = chain_rows c 1 n"
    using assms(2) by (intro chain_rows_append) simp_all
  finally show ?thesis .
qed

lemma mirrors_chain_rows: "mirrors c (chain_rows c 1 n)"
  by (cases "0 \<le> n") (simp_all add: mirrors_def)

lemma mirrors_take: "mirrors c t \<Longrightarrow> mirrors c (take k t)"
proof -
  have tk: "take k [1..n] = [1..min (int k) n]" if "0 \<le> n" for n
  proof (cases "int k \<le> n")
    case True
    have "[1..n] = [1..int k] @ [int k + 1..n]" using True upto_append [of 1 "int k" n] by simp
    then show ?thesis using True by simp
  qed (use that in simp)
  assume "mirrors c t"
  then have "take k t = chain_rows c 1 (min (int k) (int (length t)))"
    unfolding mirrors_def by (metis take_map tk of_nat_0_le_iff)
  then show ?thesis using mirrors_chain_rows by simp
qed

text \<open>A run of the loop stores a prefix of the missing rows, all of them unless a request failed.\<close>

lemma sync_loop_stores:
  assumes "serves c api" and "start \<le> tot + 1"
  shows "\<exists>n. start - 1 \<le> n \<and> n \<le> tot \<and> fst (sync_loop api tot start t) = t @ chain_rows c start n
    \<and> (snd (sync_loop api tot start t) = None \<longrightarrow> n = tot)"
  using assms
proof (induction api tot start t rule: sync_loop.induct)
  case (1 api tot start t)
  show ?case
  proof (cases "start \<le> tot")
    case False
    with "1.prems" show ?thesis by (intro exI [of _ tot]) (subst sync_loop.simps, simp)+
  next
    case True
    define ce where "ce = min (start + BATCH_SIZE - 1) tot"
    have ce: "start \<le> ce" "ce \<le> tot" using True by (auto simp: ce_def BATCH_SIZE_def)
    show ?thesis
    proof (cases "api start ce")
      case (Inl e)
      then have "sync_loop api tot start t = (t, Some e)"
        using True by (subst sync_loop.simps) (simp add: ce_def fetchBlockRange_def)
      then show ?thesis using True by (intro exI [of _ "start - 1"]) simp
    next
      case (Inr bs)
      have bs: "bs = map (chain_block c) [start..ce]"
        using "1.prems"(1) [unfolded serves_def, rule_format, of start ce] Inr by simp
      let ?t = "t @ chain_rows c start ce"
      have step: "sync_loop api tot start t = sync_loop api tot (ce + 1) ?t"
        using True Inr by (subst sync_loop.simps)
          (simp add: ce_def [symmetric] fetchBlockRange_def storeTransactions_def bs o_def)
      have "\<exists>n. ce + 1 - 1 \<le> n \<and> n \<le> tot
          \<and> fst (sync_loop api tot (ce + 1) ?t) = ?t @ chain_rows c (ce + 1) n
          \<and> (snd (sync_loop api tot (ce + 1) ?t) = None \<longrightarrow> n = tot)"
        using "1.IH" [OF True ce_def _ "1.prems"(1), of bs] Inr bs ce
        by (simp add: fetchBlockRange_def storeTransactions_def o_def)
      then obtain n where n: "ce \<le> n" "n \<le> tot"
          "fst (sync_loop api tot (ce + 1) ?t) = ?t @ chain_rows c (ce + 1) n"
          "snd (sync_loop api tot (ce + 1) ?t) = None \<longrightarrow> n = tot"
        by auto
      with ce chain_rows_append [of start ce n c] show ?thesis
        by (intro exI [of _ n]) (simp add: step)
    qed
  qed
qed

lemma sync_loop_no_failure:
  assumes "\<forall>a b. is_ok (api a b)"
  shows "snd (sync_loop api tot start t) = None"
  using assms
proof (induction api tot start t rule: sync_loop.induct)
  case (1 api tot start t)
  have "is_ok (api a b)" for a b using "1.prems" by blast
  then have "api a b \<noteq> Inl e" for a b e by (metis is_ok.simps(2))
  with 1 show ?case
    by (subst sync_loop.simps) (auto simp: fetchBlockRange_def Let_def split: sum.splits)
qed

lemma sync_prefix:
  assumes "serves c api" and "mirrors c t"
  shows "\<exists>n. int (length t) \<le> n \<and> fst (syncTransactionHistory api reply t) = chain_rows c 1 n"
proof (cases "getTotalBlocks reply")
  case (Inr tot)
  show ?thesis
  proof (cases "int (length t) < tot")
    case True
    obtain n where "int (length t) \<le> n"
        "fst (sync_loop api tot (int (length t) + 1) t) = t @ chain_rows c (int (length t) + 1) n"
      using sync_loop_stores [OF assms(1), of "int (length t) + 1" tot t] True by auto
    then show ?thesis
      using True Inr mirrors_append [OF assms(2)] last_mirrors [OF assms(2)]
      by (auto simp: syncTransactionHistory_def Let_def split: prod.splits option.splits
          intro!: exI [of _ n])
  qed (use Inr assms(2) last_mirrors [OF assms(2)] in \<open>auto simp: syncTransactionHistory_def mirrors_def\<close>)
qed (use assms(2) in \<open>auto simp: syncTransactionHistory_def mirrors_def\<close>)

lemma sync_step_mirrors: "mirrors c t \<Longrightarrow> mirrors c (sync_step c t e)"
proof (cases e)
  case (fields fails reply crash)
  assume "mirrors c t"
  from sync_prefix [OF serves_served this] obtain n where
    "fst (syncTransactionHistory (served c fails) reply t) = chain_rows c 1 n" by blast
  then have m: "mirrors c (fst (syncTransactionHistory (served c fails) reply t))"
    using mirrors_chain_rows by metis
  show ?thesis
    using m mirrors_take [OF m] by (simp add: fields Let_def split: option.splits)
qed

interpretation sync: stepper "sync_step c" "mirrors c" for c
  by unfold_locales (rule sync_step_mirrors)

lemma mirrors_Nil: "mirrors c []"
  by (simp add: mirrors_def)

lemma sync_complete:
  assumes "serves c api" and "\<forall>a b. is_ok (api a b)" and "mirrors c t"
  shows "syncTransactionHistory api (Inr (Some (Some n # rest))) t =
    (chain_rows c 1 (max n (int (length t))), if int (length t) < n then Completed else UpToDate)"
proof (cases "int (length t) < n")
  case True
  have ok: "snd (sync_loop api n (int (length t) + 1) t) = None"
    by (rule sync_loop_no_failure [OF assms(2)])
  then have "fst (sync_loop api n (int (length t) + 1) t) = t @ chain_rows c (int (length t) + 1) n"
    using sync_loop_stores [OF assms(1), of "int (length t) + 1" n t] True by auto
  with ok True mirrors_append [OF assms(3), of n] show ?thesis
    by (auto simp: syncTransactionHistory_def getTotalBlocks_def last_mirrors [OF assms(3)]
        split: prod.splits option.splits)
next
  case False
  then show ?thesis
    using assms(3) by (simp add: syncTransactionHistory_def getTotalBlocks_def
        last_mirrors [OF assms(3)] max_def mirrors_def)
qed

section \<open>Properties\<close>


text \<open>
  After any history of failed and crashed runs, one run in which no request fails and the explorer
  reports \<open>n\<close> blocks leaves exactly the rows of blocks 1 to \<open>n\<close>, and reports completion exactly when
  something was missing.
\<close>

lemma sync_recovers:
  assumes "serves c api" and "\<forall>a b. is_ok (api a b)"
    and "int (length (foldl (sync_step c) [] es)) \<le> n"
  shows "syncTransactionHistory api (Inr (Some (Some n # rest))) (foldl (sync_step c) [] es) =
    (chain_rows c 1 n, if int (length (foldl (sync_step c) [] es)) < n then Completed else UpToDate)"
  using sync_complete [OF assms(1,2) sync.run_inv [OF mirrors_Nil], of n rest es] assms(3)
  by (simp add: max_def)

end
