(* ===== verification/JS_Date.thy ===== *)
theory JS_Date
  imports JS_Number
begin

text \<open>
  The part of the language's \<^verbatim>\<open>Date\<close> the sources use: the UTC fields of a time value and
  \<^verbatim>\<open>Date.UTC\<close>, by the day and year arithmetic of the ECMAScript specification. A time value is an
  integer number of milliseconds since 1970-01-01T00:00:00Z.
\<close>

section \<open>Days and years\<close>

definition ms_per_day :: int where
  "ms_per_day = 86400000"

definition leap :: "int \<Rightarrow> bool" where
  "leap y = (y mod 4 = 0 \<and> y mod 100 \<noteq> 0 \<or> y mod 400 = 0)"

definition day_from_year :: "int \<Rightarrow> int" where
  "day_from_year y =
     365 * (y - 1970) + (y - 1969) div 4 - (y - 1901) div 100 + (y - 1601) div 400"

text \<open>
  The year of a day number: an estimate from the mean length of a year, which is off by at most
  one, corrected by comparing with the first days of the neighbouring years.
\<close>

definition year_from_day :: "int \<Rightarrow> int" where
  "year_from_day d =
     (let y = 1970 + (400 * d) div 146097
      in if d < day_from_year y then y - 1
         else if day_from_year (y + 1) \<le> d then y + 1 else y)"

definition month_lengths :: "int \<Rightarrow> int list" where
  "month_lengths y =
     [31, if leap y then 29 else 28, 31, 30, 31, 30, 31, 31, 30, 31, 30, 31]"

text \<open>Month (from 0) and date (from 1) of a day within a year.\<close>

fun month_date :: "int list \<Rightarrow> nat \<Rightarrow> int \<Rightarrow> nat \<times> int" where
  "month_date [] m d = (m, d + 1)"
| "month_date (l # ls) m d = (if d < l then (m, d + 1) else month_date ls (Suc m) (d - l))"

record utc_fields =
  utc_year :: int
  utc_month :: nat
  utc_date :: int
  utc_hours :: int
  utc_minutes :: int
  utc_seconds :: int

definition utc_of :: "int \<Rightarrow> utc_fields" where
  "utc_of t =
     (let d = t div ms_per_day; y = year_from_day d;
          (m, dt) = month_date (month_lengths y) 0 (d - day_from_year y)
      in \<lparr>utc_year = y, utc_month = m, utc_date = dt,
          utc_hours = (t div 3600000) mod 24,
          utc_minutes = (t div 60000) mod 60,
          utc_seconds = (t div 1000) mod 60\<rparr>)"

definition make_day :: "int \<Rightarrow> int \<Rightarrow> int \<Rightarrow> int" where
  "make_day y m dt =
     (let ym = y + m div 12
      in day_from_year ym + sum_list (take (nat (m mod 12)) (month_lengths ym)) + dt - 1)"

text \<open>\<^verbatim>\<open>TimeClip\<close>: time values more than \<open>8.64e15\<close> milliseconds away from the epoch are NaN.\<close>

definition time_clip :: "int \<Rightarrow> int option" where
  "time_clip t = (if \<bar>t\<bar> \<le> 8640000000000000 then Some t else None)"

definition date_UTC :: "int \<Rightarrow> int \<Rightarrow> int \<Rightarrow> int \<Rightarrow> int \<Rightarrow> int \<Rightarrow> int option" where
  "date_UTC y m dt h mi s =
     (let yr = (if 0 \<le> y \<and> y \<le> 99 then 1900 + y else y)
      in time_clip (make_day yr m dt * ms_per_day + h * 3600000 + mi * 60000 + s * 1000))"

section \<open>Correctness\<close>

lemma div_bounds:
  fixes a n :: int
  assumes "0 < n"
  shows "n * (a div n) \<le> a" and "a < n * (a div n) + n"
  using pos_mod_sign [OF assms, of a] pos_mod_bound [OF assms, of a] mult_div_mod_eq [of n a]
  by linarith+

lemma day_from_year_approx:
  shows "146097 * k - 506 \<le> 400 * day_from_year (1970 + k)"
    and "400 * day_from_year (1970 + k) \<le> 146097 * k + 589"
proof -
  define a b c where abc: "a = (1970 + k - 1969) div 4" "b = (1970 + k - 1901) div 100"
    "c = (1970 + k - 1601) div 400"
  have "4 * a \<le> k + 1" "k + 1 < 4 * a + 4" "100 * b \<le> k + 69" "k + 69 < 100 * b + 100"
    "400 * c \<le> k + 369" "k + 369 < 400 * c + 400"
    unfolding abc using div_bounds [of 4 "k + 1"] div_bounds [of 100 "k + 69"] div_bounds [of 400 "k + 369"]
    by (simp_all add: add.commute)
  moreover have "day_from_year (1970 + k) = 365 * k + a - b + c"
    by (simp add: day_from_year_def abc)
  ultimately show "146097 * k - 506 \<le> 400 * day_from_year (1970 + k)"
    and "400 * day_from_year (1970 + k) \<le> 146097 * k + 589"
    by linarith+
qed

lemma year_from_day_bounds:
  "day_from_year (year_from_day d) \<le> d \<and> d < day_from_year (year_from_day d + 1)"
proof -
  define k where "k = (400 * d) div 146097"
  have k: "146097 * k \<le> 400 * d" "400 * d < 146097 * k + 146097"
    unfolding k_def using div_bounds [of 146097 "400 * d"] by simp_all
  have "day_from_year (1970 + (k - 1)) \<le> d"
    using k(1) day_from_year_approx(2) [of "k - 1"] unfolding right_diff_distrib by linarith
  moreover have "d < day_from_year (1970 + (k + 2))"
    using k(2) day_from_year_approx(1) [of "k + 2"] unfolding distrib_left by linarith
  ultimately show ?thesis
    unfolding year_from_day_def Let_def k_def [symmetric] by (auto simp: algebra_simps)
qed

lemma div_step:
  fixes a n :: int
  assumes "0 < n"
  shows "(a + 1) div n = a div n + (if (a + 1) mod n = 0 then 1 else 0)"
proof (cases "(a + 1) mod n = 0")
  case True
  then obtain q where q: "a + 1 = n * q" by auto
  have "a = n * (q - 1) + (n - 1)" using q by (simp add: algebra_simps)
  then have "a div n = q - 1"
    using assms by (intro int_div_pos_eq [of _ _ _ "n - 1"]) auto
  with q True assms show ?thesis by simp
next
  case False
  have "a + 1 = n * ((a + 1) div n) + (a + 1) mod n" by simp
  then have "a = n * ((a + 1) div n) + ((a + 1) mod n - 1)" by linarith
  moreover have "0 \<le> (a + 1) mod n - 1" "(a + 1) mod n - 1 < n"
    using False pos_mod_sign [OF assms, of "a + 1"] pos_mod_bound [OF assms, of "a + 1"] by linarith+
  ultimately have "a div n = (a + 1) div n"
    by (rule int_div_pos_eq)
  with False show ?thesis by simp
qed

lemma year_mods:
  fixes y :: int
  shows "(y - 1968) mod 4 = y mod 4" "(y - 1900) mod 100 = y mod 100" "(y - 1600) mod 400 = y mod 400"
  using mod_mult_self1 [of y "-492" 4] mod_mult_self1 [of y "-19" 100] mod_mult_self1 [of y "-4" 400]
  by simp_all

lemma year_length: "day_from_year (y + 1) - day_from_year y = (if leap y then 366 else 365)"
proof -
  define A B C where ABC: "A = (y - 1969) div 4" "B = (y - 1901) div 100" "C = (y - 1601) div 400"
  have s: "y + 1 - 1969 = y - 1969 + 1" "y + 1 - 1901 = y - 1901 + 1" "y + 1 - 1601 = y - 1601 + 1"
    by simp_all
  have m: "(y - 1969 + 1) mod 4 = y mod 4" "(y - 1901 + 1) mod 100 = y mod 100"
    "(y - 1601 + 1) mod 400 = y mod 400"
    using year_mods [of y] by simp_all
  have n: "(0::int) < 4" "(0::int) < 100" "(0::int) < 400" by simp_all
  have y1: "365 * (y + 1 - 1970) = 365 * (y - 1970) + 365" by simp
  have "day_from_year (y + 1) = 365 * (y - 1970) + 365
      + (A + (if y mod 4 = 0 then 1 else 0)) - (B + (if y mod 100 = 0 then 1 else 0))
      + (C + (if y mod 400 = 0 then 1 else 0))"
    unfolding day_from_year_def y1 s div_step [OF n(1)] div_step [OF n(2)] div_step [OF n(3)] m ABC
    by (rule refl)
  moreover have "day_from_year y = 365 * (y - 1970) + A - B + C"
    by (simp only: day_from_year_def ABC)
  moreover have "y mod 400 = 0 \<Longrightarrow> y mod 100 = 0" "y mod 100 = 0 \<Longrightarrow> y mod 4 = 0"
    using mod_mod_cancel [of 100 400 y] mod_mod_cancel [of 4 100 y] by simp_all
  ultimately show ?thesis
    unfolding leap_def
    by (cases "y mod 4 = 0"; cases "y mod 100 = 0"; cases "y mod 400 = 0") simp_all
qed

lemma day_from_year_mono: "0 \<le> k \<Longrightarrow> day_from_year y \<le> day_from_year (y + k)"
proof (induction k rule: int_ge_induct)
  case (step k)
  then show ?case
    using year_length [of "y + k"] by (simp add: add.assoc split: if_splits)
qed simp

lemma year_from_day_unique:
  assumes "day_from_year y \<le> d" and "d < day_from_year (y + 1)"
  shows "year_from_day d = y"
proof (rule ccontr)
  assume "year_from_day d \<noteq> y"
  then consider "year_from_day d + 1 \<le> y" | "y + 1 \<le> year_from_day d" by linarith
  then show False
    using year_from_day_bounds [of d] assms
      day_from_year_mono [of "y - (year_from_day d + 1)" "year_from_day d + 1"]
      day_from_year_mono [of "year_from_day d - (y + 1)" "y + 1"]
    by cases auto
qed

lemma sum_month_lengths: "sum_list (month_lengths y) = (if leap y then 366 else 365)"
  by (simp add: month_lengths_def)

lemma month_date_inverse:
  "month_date ls k d = (m, dt) \<Longrightarrow>
   k \<le> m \<and> m \<le> k + length ls \<and> sum_list (take (m - k) ls) + dt - 1 = d"
proof (induction ls k d rule: month_date.induct)
  case (2 l ls k d)
  show ?case
  proof (cases "d < l")
    case False
    with 2 have "Suc k \<le> m \<and> m \<le> Suc k + length ls \<and> sum_list (take (m - Suc k) ls) + dt - 1 = d - l"
      by simp
    moreover from this have "m - k = Suc (m - Suc k)" by linarith
    ultimately show ?thesis by simp
  qed (use 2 in auto)
qed auto

lemma month_date_range:
  "month_date ls k d = (m, dt) \<Longrightarrow> 0 \<le> d \<Longrightarrow> d < sum_list ls \<Longrightarrow> m < k + length ls \<and> 1 \<le> dt"
  by (induction ls k d rule: month_date.induct) (auto split: if_splits)

lemma utc_day_inverse:
  assumes "month_date (month_lengths (year_from_day d)) 0 (d - day_from_year (year_from_day d)) = (m, dt)"
  shows "m < 12" and "1 \<le> dt" and "make_day (year_from_day d) (int m) dt = d"
proof -
  let ?y = "year_from_day d"
  have rng: "0 \<le> d - day_from_year ?y" "d - day_from_year ?y < sum_list (month_lengths ?y)"
    using year_from_day_bounds [of d] year_length [of ?y] sum_month_lengths [of ?y] by linarith+
  have len: "length (month_lengths ?y) = 12" by (simp add: month_lengths_def)
  show m: "m < 12" and "1 \<le> dt"
    using month_date_range [OF assms rng] len by auto
  show "make_day ?y (int m) dt = d"
    using month_date_inverse [OF assms] m by (simp add: make_day_def Let_def)
qed

lemma utc_time_inverse:
  fixes t :: int
  shows "t div 86400000 * 86400000 + t div 3600000 mod 24 * 3600000
    + t div 60000 mod 60 * 60000 + t div 1000 mod 60 * 1000 = t - t mod 1000"
proof -
  have e: "t div 60000 = t div 1000 div 60" "t div 3600000 = t div 1000 div 60 div 60"
    "t div 86400000 = t div 1000 div 60 div 60 div 24"
    by (simp_all flip: zdiv_zmult2_eq)
  have "t = 1000 * (t div 1000) + t mod 1000"
    "t div 1000 = 60 * (t div 1000 div 60) + t div 1000 mod 60"
    "t div 1000 div 60 = 60 * (t div 1000 div 60 div 60) + t div 1000 div 60 mod 60"
    "t div 1000 div 60 div 60
      = 24 * (t div 1000 div 60 div 60 div 24) + t div 1000 div 60 div 60 mod 24"
    by simp_all
  then show ?thesis unfolding e by linarith
qed

lemma utc_year_ge_1970: "0 \<le> t \<Longrightarrow> 1970 \<le> utc_year (utc_of t)"
proof -
  assume "0 \<le> t"
  then have d: "0 \<le> t div ms_per_day" by (simp add: ms_per_day_def pos_imp_zdiv_nonneg_iff)
  let ?y = "year_from_day (t div ms_per_day)"
  have "1970 \<le> ?y"
  proof (rule ccontr)
    assume "\<not> 1970 \<le> ?y"
    then have "day_from_year (?y + 1) \<le> day_from_year 1970"
      using day_from_year_mono [of "1970 - (?y + 1)" "?y + 1"] by simp
    moreover have "day_from_year 1970 = 0" by (simp add: day_from_year_def)
    ultimately show False using year_from_day_bounds [of "t div ms_per_day"] d by linarith
  qed
  then show ?thesis by (simp add: utc_of_def Let_def split: prod.splits)
qed

text \<open>\<^verbatim>\<open>Date.UTC\<close> of the UTC fields of a time value gives it back, to the second.\<close>

lemma date_UTC_utc_of:
  assumes "0 \<le> t" and "t \<le> 8640000000000000"
  shows "date_UTC (utc_year (utc_of t)) (int (utc_month (utc_of t))) (utc_date (utc_of t))
    (utc_hours (utc_of t)) (utc_minutes (utc_of t)) (utc_seconds (utc_of t)) = Some (t - t mod 1000)"
proof -
  let ?d = "t div ms_per_day"
  obtain m dt where md:
    "month_date (month_lengths (year_from_day ?d)) 0 (?d - day_from_year (year_from_day ?d)) = (m, dt)"
    by fastforce
  have y: "\<not> (0 \<le> year_from_day ?d \<and> year_from_day ?d \<le> 99)"
    using utc_year_ge_1970 [OF assms(1)] by (simp only: utc_of_def Let_def md prod.case utc_fields.simps) simp
  have "?d * ms_per_day + t div 3600000 mod 24 * 3600000 + t div 60000 mod 60 * 60000
      + t div 1000 mod 60 * 1000 = t - t mod 1000"
    unfolding ms_per_day_def by (rule utc_time_inverse)
  moreover have "\<bar>t - t mod 1000\<bar> \<le> 8640000000000000"
    using assms zmod_le_nonneg_dividend [OF assms(1), of 1000] pos_mod_sign [of 1000 t] by simp
  ultimately show ?thesis
    using y
    by (simp only: date_UTC_def utc_of_def md time_clip_def Let_def prod.case utc_fields.simps
        if_False utc_day_inverse(3) [OF md] if_True)
qed

lemma utc_fields_range:
  assumes "f = utc_of t"
  shows "utc_month f < 12 \<and> 1 \<le> utc_date f \<and> 0 \<le> utc_hours f \<and> utc_hours f < 24
    \<and> 0 \<le> utc_minutes f \<and> utc_minutes f < 60 \<and> 0 \<le> utc_seconds f \<and> utc_seconds f < 60"
proof -
  let ?d = "t div ms_per_day"
  obtain m dt where md:
    "month_date (month_lengths (year_from_day ?d)) 0 (?d - day_from_year (year_from_day ?d)) = (m, dt)"
    by fastforce
  have "0 \<le> a mod 24" "a mod 24 < 24" "0 \<le> a mod 60" "a mod 60 < 60" for a :: int
    by simp_all
  then show ?thesis
    using utc_day_inverse(1,2) [OF md]
    by (simp only: assms utc_of_def md Let_def prod.case utc_fields.simps simp_thms)
qed

end
