(* ===== verification/Reslens_Time.thy ===== *)
theory Reslens_Time
  imports JS_Date
begin

text \<open>
  \<^verbatim>\<open>reslens-middleware/middleware/utils/time.js\<close>: printing a microsecond timestamp as
  \<^verbatim>\<open>DD MMM YYYY HH:MM:SS GMT\<close> and reading it back.
\<close>

section \<open>Numbers that may be NaN\<close>

text \<open>A number of the time-series code: \<^term>\<open>None\<close> is NaN, which every operation propagates.\<close>

type_synonym jnum = "rat option"

fun nlift :: "(rat \<Rightarrow> rat \<Rightarrow> rat) \<Rightarrow> jnum \<Rightarrow> jnum \<Rightarrow> jnum" where
  "nlift f (Some x) (Some y) = Some (f x y)"
| "nlift f _ _ = None"

abbreviation nadd :: "jnum \<Rightarrow> jnum \<Rightarrow> jnum" where "nadd \<equiv> nlift dadd"
abbreviation nsub :: "jnum \<Rightarrow> jnum \<Rightarrow> jnum" where "nsub \<equiv> nlift dsub"
abbreviation nmul :: "jnum \<Rightarrow> jnum \<Rightarrow> jnum" where "nmul \<equiv> nlift dmul"
abbreviation ndiv :: "jnum \<Rightarrow> jnum \<Rightarrow> jnum" where "ndiv \<equiv> nlift ddiv"

section \<open>Printing\<close>

definition months :: "string list" where
  "months = [''Jan'', ''Feb'', ''Mar'', ''Apr'', ''May'', ''Jun'',
             ''Jul'', ''Aug'', ''Sep'', ''Oct'', ''Nov'', ''Dec'']"

definition pad2 :: "int \<Rightarrow> string" where
  "pad2 n = (if n < 10 then ''0'' @ show_int n else show_int n)"

text \<open>
  A timestamp whose \<^verbatim>\<open>Date\<close> is invalid has NaN fields, which the template literal prints as such,
  and \<^verbatim>\<open>months[NaN]\<close> is undefined.
\<close>

definition parseCreateTime :: "jnum \<Rightarrow> string" where
  "parseCreateTime createtime =
     (case (case createtime of None \<Rightarrow> None | Some x \<Rightarrow> time_clip \<lfloor>ddiv x 1000\<rfloor>) of
        None \<Rightarrow> ''NaN undefined NaN NaN:NaN:NaN GMT''
      | Some t \<Rightarrow>
          (let date = utc_of t
           in pad2 (utc_date date) @ '' '' @ months ! utc_month date @ '' '' @
              show_int (utc_year date) @ '' '' @
              pad2 (utc_hours date) @ '':'' @ pad2 (utc_minutes date) @ '':'' @
              pad2 (utc_seconds date) @ '' GMT''))"

section \<open>Reading\<close>

definition month_index :: "string \<Rightarrow> int option" where
  "month_index s = map_of (zip months (map int [0..<12])) s"

text \<open>Element \<open>i\<close> of an array, undefined out of range; \<^verbatim>\<open>parseInt(undefined)\<close> is NaN.\<close>

definition elem :: "'a list \<Rightarrow> nat \<Rightarrow> 'a option" where
  "elem xs i = (if i < length xs then Some (xs ! i) else None)"

definition parse_elem :: "string list \<Rightarrow> nat \<Rightarrow> int option" where
  "parse_elem xs i = Option.bind (elem xs i) parse_int"

definition parseTimeToUnixEpoch :: "string \<Rightarrow> jnum res" where
  "parseTimeToUnixEpoch timeString =
     (let parts = split_on CHR '' '' timeString;
          day = parse_elem parts 0;
          month = Option.bind (elem parts 1) month_index;
          year = parse_elem parts 2
      in case elem parts 3 of
           None \<Rightarrow> Inl (TypeError ''Cannot read properties of undefined (reading split)'')
         | Some time \<Rightarrow>
             (let timeParts = split_on CHR '':'' time;
                  hour = parse_elem timeParts 0;
                  minute = parse_elem timeParts 1;
                  second = parse_elem timeParts 2
              in Inr (Option.bind day (\<lambda>d. Option.bind month (\<lambda>mo. Option.bind year (\<lambda>y.
                   Option.bind hour (\<lambda>h. Option.bind minute (\<lambda>mi. Option.bind second (\<lambda>s.
                     map_option (\<lambda>t. dmul (of_int t) 1000) (date_UTC y mo d h mi s)))))))))) "

section \<open>Round trip\<close>

lemma month_index_months: "m < 12 \<Longrightarrow> month_index (months ! m) = Some (int m)"
  by (auto simp: less_Suc_eq numeral_eq_Suc month_index_def months_def)

lemma months_no_sep: "m < 12 \<Longrightarrow> CHR '' '' \<notin> set (months ! m)"
  by (auto simp: less_Suc_eq numeral_eq_Suc months_def)

lemma digits_no_sep:
  "set ds \<subseteq> {c. is_digit c} \<Longrightarrow> CHR '' '' \<notin> set ds \<and> CHR '':'' \<notin> set ds"
  by (auto simp: is_digit_def)

lemma pad2_digits: "0 \<le> n \<Longrightarrow> set (pad2 n) \<subseteq> {c. is_digit c}"
  using show_nat_digits [of "nat n"] by (auto simp: pad2_def show_int_def is_digit_def)

lemma parse_pad2: "0 \<le> n \<Longrightarrow> parse_int (pad2 n) = Some n"
  using parse_int_digits [of "pad2 n" "[]"] pad2_digits [of n]
  by (simp add: pad2_def show_int_def digits_val_zero)

lemma show_int_digits: "0 \<le> n \<Longrightarrow> set (show_int n) \<subseteq> {c. is_digit c}"
  using show_nat_digits [of "nat n"] by (auto simp: show_int_def)

lemmas no_sep = digits_no_sep [OF pad2_digits] digits_no_sep [OF show_int_digits]

lemma split_time:
  assumes "0 \<le> h" "0 \<le> mi" "0 \<le> s"
  shows "split_on CHR '':'' (pad2 h @ '':'' @ pad2 mi @ '':'' @ pad2 s) = [pad2 h, pad2 mi, pad2 s]"
  using assms by (simp add: no_sep)

lemma split_date:
  assumes "0 \<le> d" "0 \<le> y" "m < 12" "0 \<le> h" "0 \<le> mi" "0 \<le> s"
  shows "split_on CHR '' ''
      (pad2 d @ '' '' @ months ! m @ '' '' @ show_int y @ '' '' @
       (pad2 h @ '':'' @ pad2 mi @ '':'' @ pad2 s) @ '' GMT'') =
    [pad2 d, months ! m, show_int y, pad2 h @ '':'' @ pad2 mi @ '':'' @ pad2 s, ''GMT'']"
proof -
  have "CHR '' '' \<notin> set (pad2 h @ '':'' @ pad2 mi @ '':'' @ pad2 s)"
    using assms by (simp add: no_sep)
  note split_on_append [OF this, of "''GMT''"]
  with assms show ?thesis
    by (simp add: no_sep months_no_sep)
qed

lemma parse_printed:
  assumes "0 \<le> d" "0 \<le> y" "m < 12" "0 \<le> h" "0 \<le> mi" "0 \<le> s"
  shows "parseTimeToUnixEpoch
      (pad2 d @ '' '' @ months ! m @ '' '' @ show_int y @ '' '' @
       (pad2 h @ '':'' @ pad2 mi @ '':'' @ pad2 s) @ '' GMT'') =
    Inr (map_option (\<lambda>t. dmul (of_int t) 1000) (date_UTC y (int m) d h mi s))"
  using assms
  by (simp only: parseTimeToUnixEpoch_def split_date)
    (simp add: Let_def elem_def parse_elem_def split_time [simplified] month_index_months parse_pad2 parse_int_show_int)

text \<open>Dividing a microsecond count by 1000 in doubles and flooring is exact up to the year 2248.\<close>

lemma round_even_bounds: "\<lfloor>x\<rfloor> \<le> round_even x" "round_even x \<le> \<lfloor>x\<rfloor> + 1"
  by (simp_all add: round_even_def Let_def)

lemma div_1000_grid:
  fixes c :: int
  assumes "10 \<le> j"
  shows "c div 1000 * 2 ^ j \<le> \<lfloor>of_int c / 1000 * 2 ^ j :: rat\<rfloor>"
    and "\<lfloor>of_int c / 1000 * 2 ^ j :: rat\<rfloor> + 1 < (c div 1000 + 1) * 2 ^ j"
proof -
  define K r where Kr: "K = c div 1000" "r = c mod 1000"
  have c: "c = 1000 * K + r" and r: "0 \<le> r" "r \<le> 999"
    by (simp_all add: Kr zmod_le_nonneg_dividend)
  have fr: "\<lfloor>of_int c / 1000 * 2 ^ j :: rat\<rfloor> = (c * 2 ^ j) div 1000"
    using floor_divide_of_int_eq [of "c * 2 ^ j" 1000, where 'a = rat] by simp
  have cj: "c * 2 ^ j = r * 2 ^ j + 1000 * (K * 2 ^ j)"
    by (simp add: c algebra_simps)
  have "(c * 2 ^ j) div 1000 = K * 2 ^ j + r * 2 ^ j div 1000"
    unfolding cj by simp
  moreover have "0 \<le> r * 2 ^ j div 1000"
    using r(1) by (simp add: pos_imp_zdiv_nonneg_iff)
  moreover have "r * 2 ^ j div 1000 + 1 < 2 ^ j"
  proof -
    have p: "(1024::int) \<le> 2 ^ j" using power_increasing [OF assms, of "2::int"] by simp
    have "r * 2 ^ j \<le> 999 * 2 ^ j" using r(2) by simp
    then have "r * 2 ^ j + 1000 < 1000 * 2 ^ j" using p by linarith
    then have "1000 * (r * 2 ^ j div 1000) + 1000 < 1000 * 2 ^ j"
      using div_bounds(1) [of 1000 "r * 2 ^ j"] by linarith
    then show ?thesis by linarith
  qed
  ultimately show "c div 1000 * 2 ^ j \<le> \<lfloor>of_int c / 1000 * 2 ^ j :: rat\<rfloor>"
    and "\<lfloor>of_int c / 1000 * 2 ^ j :: rat\<rfloor> + 1 < (c div 1000 + 1) * 2 ^ j"
    unfolding fr Kr(1) [symmetric] distrib_right by simp_all
qed

lemma floor_fl_div_1000:
  assumes "0 \<le> c" and "c < 1000 * 2 ^ 43"
  shows "\<lfloor>fl (of_int c / 1000)\<rfloor> = c div 1000"
proof (cases "c = 0")
  case False
  define x :: rat where "x = of_int c / 1000"
  have "(of_int c :: rat) < of_int (1000 * 2 ^ 43)" using assms(2) by (simp only: of_int_less_iff)
  then have x: "0 < x" "x < 2 ^ Suc 42"
    using assms(1) False by (simp_all add: x_def field_simps)
  define e where "e = max (ilog2 \<bar>x\<bar> - 52) (- 1074)"
  define j where "j = nat (- e)"
  have "e \<le> - 10" using ilog2_le [OF x(2)] x by (simp add: e_def)
  then have j: "e = - int j" "10 \<le> j" by (simp_all add: j_def)
  define R where "R = round_even (x * 2 ^ j)"
  have "fl x = of_int R / of_int (2 ^ j)"
    unfolding fl_def Let_def e_def [symmetric] j(1) pow2_neg R_def using x(1) by simp
  then have "\<lfloor>fl x\<rfloor> = R div 2 ^ j"
    by (simp only: floor_divide_of_int_eq)
  moreover have "R = 2 ^ j * (c div 1000) + (R - 2 ^ j * (c div 1000))" by simp
  moreover have "0 \<le> R - 2 ^ j * (c div 1000)" "R - 2 ^ j * (c div 1000) < 2 ^ j"
    using div_1000_grid [OF j(2), of c] round_even_bounds [of "x * 2 ^ j"]
    by (simp_all add: R_def x_def algebra_simps)
  ultimately show ?thesis
    unfolding x_def [symmetric] using int_div_pos_eq by metis
qed simp

lemma print_fields:
  assumes "0 \<le> t" and "t < 1000 * 2 ^ 43"
  shows "parseCreateTime (Some (of_int t)) =
    (let f = utc_of (t div 1000)
     in pad2 (utc_date f) @ '' '' @ months ! utc_month f @ '' '' @ show_int (utc_year f) @ '' '' @
        (pad2 (utc_hours f) @ '':'' @ pad2 (utc_minutes f) @ '':'' @ pad2 (utc_seconds f)) @ '' GMT'')"
proof -
  have "t div 1000 < 2 ^ 43" using assms(2) div_bounds(1) [of 1000 t] by linarith
  moreover have "0 \<le> t div 1000" using assms(1) by (simp add: pos_imp_zdiv_nonneg_iff)
  ultimately have "time_clip (t div 1000) = Some (t div 1000)" by (simp add: time_clip_def)
  then show ?thesis
    by (simp add: parseCreateTime_def ddiv_def floor_fl_div_1000 [OF assms] Let_def)
qed

lemma parse_print_time:
  assumes "0 \<le> t" and "t < 1000 * 2 ^ 43"
  shows "parseTimeToUnixEpoch (parseCreateTime (Some (of_int t))) =
    Inr (Some (of_int (t - t mod 1000000)))"
proof -
  let ?ms = "t div 1000" let ?f = "utc_of ?ms"
  have ms: "0 \<le> ?ms" "?ms < 2 ^ 43"
    using assms div_bounds(1) [of 1000 t] by (simp add: pos_imp_zdiv_nonneg_iff, linarith)
  then have "?ms \<le> 8640000000000000" by simp
  have rng: "0 \<le> utc_date ?f" "0 \<le> utc_year ?f" "utc_month ?f < 12" "0 \<le> utc_hours ?f"
    "0 \<le> utc_minutes ?f" "0 \<le> utc_seconds ?f"
    using utc_fields_range [of ?f ?ms] utc_year_ge_1970 [OF ms(1)] by simp_all
  have sec: "?ms - ?ms mod 1000 = 1000 * (t div 1000000)"
  proof -
    have "t div 1000000 = ?ms div 1000" by (simp flip: zdiv_zmult2_eq)
    then show ?thesis using mult_div_mod_eq [of 1000 ?ms] by linarith
  qed
  have mic: "1000 * (t div 1000000) * 1000 = t - t mod 1000000"
    using mult_div_mod_eq [of 1000000 t] by linarith
  have "safe (1000 * (t div 1000000) * 1000)"
    unfolding mic safe_def using assms zmod_le_nonneg_dividend [OF assms(1), of 1000000]
      pos_mod_sign [of 1000000 t] by simp
  note dm = dmul_safe [OF this, unfolded mic]
  show ?thesis
    unfolding print_fields [OF assms] Let_def parse_printed [OF rng]
      date_UTC_utc_of [OF ms(1) \<open>?ms \<le> 8640000000000000\<close>] sec
    using dm by simp
qed

end
