(* ===== verification/Reslens_Encoding.thy ===== *)
theory Reslens_Encoding
  imports Reslens_Time
begin

text \<open>
  \<^verbatim>\<open>reslens-middleware/middleware/utils/encoding.js\<close> and the copy of its decoder that the dashboard
  runs, \<^verbatim>\<open>reslens/src/static/encoding.ts\<close>: a time series of (epoch, volume) points is sent as a first
  point and the differences between neighbours, epochs divided by \<open>TIME_MULTIPLIER\<close>. Arithmetic is
  that of doubles.
\<close>

record point =
  epoch :: jnum
  volume :: jnum

record decoded_point = point +
  createdAt :: string

record encoded =
  startEpoch :: jnum
  startVolume :: jnum
  timeMultiplier :: "jnum option"
  epochs :: "jnum list"
  volumes :: "jnum list"

definition TIME_MULTIPLIER :: jnum where
  "TIME_MULTIPLIER = Some 1000000"

section \<open>Encoder\<close>

fun epoch_deltas :: "point list \<Rightarrow> jnum list" where
  "epoch_deltas (p # q # ps) =
     ndiv (nsub (epoch q) (epoch p)) TIME_MULTIPLIER # epoch_deltas (q # ps)"
| "epoch_deltas _ = []"

fun volume_deltas :: "point list \<Rightarrow> jnum list" where
  "volume_deltas (p # q # ps) = nsub (volume q) (volume p) # volume_deltas (q # ps)"
| "volume_deltas _ = []"

text \<open>The argument is \<^term>\<open>None\<close> when it is not an array.\<close>

definition applyDeltaEncoding :: "point list option \<Rightarrow> encoded" where
  "applyDeltaEncoding data =
     (case data of
        Some (p # ps) \<Rightarrow>
          \<lparr>startEpoch = ndiv (epoch p) TIME_MULTIPLIER, startVolume = volume p,
           timeMultiplier = Some TIME_MULTIPLIER,
           epochs = epoch_deltas (p # ps), volumes = volume_deltas (p # ps)\<rparr>
      | _ \<Rightarrow>
          \<lparr>startEpoch = Some 0, startVolume = Some 0, timeMultiplier = Some TIME_MULTIPLIER,
           epochs = [], volumes = []\<rparr>)"

section \<open>Decoder\<close>

text \<open>One turn of the loop per epoch delta; a missing volume delta is undefined, and the sum is NaN.\<close>

fun decode_loop :: "jnum \<Rightarrow> decoded_point \<Rightarrow> jnum list \<Rightarrow> jnum list \<Rightarrow> decoded_point list" where
  "decode_loop tm prev [] vs = []"
| "decode_loop tm prev (e # es) vs =
     (let cur = nadd (ndiv (epoch prev) tm) e;
          q = \<lparr>epoch = nmul cur tm,
               volume = nadd (volume prev) (case vs of [] \<Rightarrow> None | v # _ \<Rightarrow> v),
               createdAt = parseCreateTime (nmul cur tm)\<rparr>
      in q # decode_loop tm q es (tl vs))"

definition decodeDeltaEncoding :: "encoded \<Rightarrow> decoded_point list" where
  "decodeDeltaEncoding d =
     (let tm = (case timeMultiplier d of None \<Rightarrow> TIME_MULTIPLIER | Some m \<Rightarrow> m);
          p0 = \<lparr>epoch = nmul (startEpoch d) tm, volume = startVolume d,
                createdAt = parseCreateTime (nmul (startEpoch d) tm)\<rparr>
      in p0 # decode_loop tm p0 (epochs d) (volumes d))"

text \<open>
  The dashboard's copy of the decoder and of the time functions (\<^verbatim>\<open>reslens/src/static/encoding.ts\<close>),
  line for line the same code as the middleware's.
\<close>

definition ui_parseCreateTime :: "jnum \<Rightarrow> string" where
  "ui_parseCreateTime createtime = parseCreateTime createtime"

definition ui_parseTimeToUnixEpoch :: "string \<Rightarrow> jnum res" where
  "ui_parseTimeToUnixEpoch timeString = parseTimeToUnixEpoch timeString"

fun ui_decode_loop :: "jnum \<Rightarrow> decoded_point \<Rightarrow> jnum list \<Rightarrow> jnum list \<Rightarrow> decoded_point list" where
  "ui_decode_loop tm prev [] vs = []"
| "ui_decode_loop tm prev (e # es) vs =
     (let cur = nadd (ndiv (epoch prev) tm) e;
          q = \<lparr>epoch = nmul cur tm,
               volume = nadd (volume prev) (case vs of [] \<Rightarrow> None | v # _ \<Rightarrow> v),
               createdAt = ui_parseCreateTime (nmul cur tm)\<rparr>
      in q # ui_decode_loop tm q es (tl vs))"

definition ui_decodeDeltaEncoding :: "encoded \<Rightarrow> decoded_point list" where
  "ui_decodeDeltaEncoding d =
     (let tm = (case timeMultiplier d of None \<Rightarrow> TIME_MULTIPLIER | Some m \<Rightarrow> m);
          p0 = \<lparr>epoch = nmul (startEpoch d) tm, volume = startVolume d,
                createdAt = ui_parseCreateTime (nmul (startEpoch d) tm)\<rparr>
      in p0 # ui_decode_loop tm p0 (epochs d) (volumes d))"

lemma ui_decode_loop_eq: "ui_decode_loop tm p es vs = decode_loop tm p es vs"
  by (induction es arbitrary: p vs) (simp_all add: Let_def ui_parseCreateTime_def)

lemma ui_decode_eq: "ui_decodeDeltaEncoding d = decodeDeltaEncoding d"
  by (simp add: ui_decodeDeltaEncoding_def decodeDeltaEncoding_def ui_decode_loop_eq ui_parseCreateTime_def)

section \<open>Round trip\<close>

text \<open>
  A point on the one-second grid: the epoch is a whole number of seconds in microseconds, as
  \<^verbatim>\<open>parseTimeToUnixEpoch\<close> produces, the volume an integer, both small enough that differences of two
  points are safe integers.
\<close>

definition on_grid :: "point \<Rightarrow> bool" where
  "on_grid p =
     (case (epoch p, volume p) of
        (Some x, Some v) \<Rightarrow>
          (let e = \<lfloor>x / 1000000\<rfloor> in x = of_int (1000000 * e) \<and> \<bar>1000000 * e\<bar> < 2 ^ 52) \<and>
          v = of_int \<lfloor>v\<rfloor> \<and> \<bar>\<lfloor>v\<rfloor>\<bar> < 2 ^ 52
      | _ \<Rightarrow> False)"

lemma on_gridE:
  assumes "on_grid p"
  obtains e v where "epoch p = Some (of_int (1000000 * e))" "volume p = Some (of_int v)"
    "\<bar>1000000 * e\<bar> < 2 ^ 52" "\<bar>v\<bar> < 2 ^ 52"
  using assms by (auto simp: on_grid_def Let_def split: option.splits)

lemma ndiv_grid:
  "\<bar>1000000 * e\<bar> < 2 ^ 53 \<Longrightarrow> ndiv (Some (of_int (1000000 * e))) TIME_MULTIPLIER = Some (of_int e)"
  using ddiv_safe [of 1000000 e] by (simp add: TIME_MULTIPLIER_def safe_def)

lemma nmul_grid:
  "\<bar>1000000 * e\<bar> < 2 ^ 53 \<Longrightarrow> nmul (Some (of_int e)) TIME_MULTIPLIER = Some (of_int (1000000 * e))"
  using dmul_safe [of e 1000000] by (simp add: TIME_MULTIPLIER_def safe_def mult.commute)

lemma nsub_int: "\<bar>a - b\<bar> < 2 ^ 53 \<Longrightarrow> nsub (Some (of_int a)) (Some (of_int b)) = Some (of_int (a - b))"
  by (simp add: dsub_safe safe_def)

lemma nadd_int: "\<bar>a + b\<bar> < 2 ^ 53 \<Longrightarrow> nadd (Some (of_int a)) (Some (of_int b)) = Some (of_int (a + b))"
  by (simp add: dadd_safe safe_def)

lemma grid_step:
  assumes "\<bar>1000000 * a\<bar> < 2 ^ 52" and "\<bar>1000000 * b\<bar> < 2 ^ 52"
  shows "nmul (nadd (ndiv (Some (of_int (1000000 * a))) TIME_MULTIPLIER)
      (ndiv (nsub (Some (of_int (1000000 * b))) (Some (of_int (1000000 * a)))) TIME_MULTIPLIER))
      TIME_MULTIPLIER = Some (of_int (1000000 * b))"
proof -
  have "\<bar>1000000 * b - 1000000 * a\<bar> < (2::int) ^ 53" using assms by simp
  note nsub_int [OF this]
  moreover have "1000000 * b - 1000000 * a = 1000000 * (b - a)" by simp
  moreover have "\<bar>1000000 * (b - a)\<bar> < (2::int) ^ 53" using assms by simp
  note ndiv_grid [OF this]
  moreover have "\<bar>1000000 * a\<bar> < (2::int) ^ 53" "\<bar>1000000 * b\<bar> < (2::int) ^ 53" using assms by simp_all
  note ndiv_grid [OF this(1)] nmul_grid [OF this(2)]
  moreover have "\<bar>a + (b - a)\<bar> < (2::int) ^ 53" using assms by simp
  note nadd_int [OF this]
  ultimately show ?thesis by (simp only: add_diff_cancel_left' diff_add_cancel add_diff_eq add.commute)
qed

abbreviation ev :: "'a point_scheme \<Rightarrow> jnum \<times> jnum" where
  "ev p \<equiv> (epoch p, volume p)"

lemma decode_loop_deltas:
  assumes "\<forall>p \<in> set (p # ps). on_grid p" and "ev prev = ev p"
  shows "map ev (decode_loop TIME_MULTIPLIER prev (epoch_deltas (p # ps)) (volume_deltas (p # ps)))
    = map ev ps"
  using assms
proof (induction ps arbitrary: p prev)
  case (Cons q qs)
  obtain a v where p: "epoch p = Some (of_int (1000000 * a))" "volume p = Some (of_int v)"
    "\<bar>1000000 * a\<bar> < 2 ^ 52" "\<bar>v\<bar> < 2 ^ 52"
    using Cons.prems(1) on_gridE [of p] by auto
  obtain b w where q: "epoch q = Some (of_int (1000000 * b))" "volume q = Some (of_int w)"
    "\<bar>1000000 * b\<bar> < 2 ^ 52" "\<bar>w\<bar> < 2 ^ 52"
    using Cons.prems(1) on_gridE [of q] by auto
  have e: "nmul (nadd (ndiv (epoch prev) TIME_MULTIPLIER)
      (ndiv (nsub (epoch q) (epoch p)) TIME_MULTIPLIER)) TIME_MULTIPLIER = epoch q"
    using grid_step [OF p(3) q(3)] Cons.prems(2) p(1) q(1) by (simp only: prod.inject)
  have "nsub (volume q) (volume p) = Some (of_int (w - v))"
    using nsub_int [of w v] p(4) q(4) by (simp only: p(2) q(2)) simp
  then have v: "nadd (volume prev) (nsub (volume q) (volume p)) = volume q"
    using nadd_int [of v "w - v"] q(2,4) Cons.prems(2) p(2) by (simp only: prod.inject) simp
  show ?case
    using Cons.IH [of q] Cons.prems(1) e v by (simp add: Let_def)
qed simp

lemma decode_encode:
  assumes "data \<noteq> []" and "\<forall>p \<in> set data. on_grid p"
  shows "map ev (decodeDeltaEncoding (applyDeltaEncoding (Some data))) = map ev data"
proof -
  obtain p ps where d: "data = p # ps" using assms(1) by (cases data) auto
  obtain a v where p: "epoch p = Some (of_int (1000000 * a))" "volume p = Some (of_int v)"
    "\<bar>1000000 * a\<bar> < 2 ^ 52"
    using assms(2) d on_gridE [of p] by (metis list.set_intros(1))
  have "\<bar>1000000 * a\<bar> < (2::int) ^ 53" using p(3) by simp
  then have e: "nmul (ndiv (epoch p) TIME_MULTIPLIER) TIME_MULTIPLIER = epoch p"
    unfolding p(1) by (simp only: ndiv_grid nmul_grid)
  let ?p0 = "\<lparr>epoch = nmul (ndiv (epoch p) TIME_MULTIPLIER) TIME_MULTIPLIER, volume = volume p,
    createdAt = parseCreateTime (nmul (ndiv (epoch p) TIME_MULTIPLIER) TIME_MULTIPLIER)\<rparr>"
  have "ev ?p0 = ev p" using e by simp
  from decode_loop_deltas [OF assms(2) [unfolded d] this] this show ?thesis
    by (simp add: d applyDeltaEncoding_def decodeDeltaEncoding_def Let_def)
qed

lemma decode_loop_created:
  "\<forall>q \<in> set (decode_loop tm prev es vs). createdAt q = parseCreateTime (epoch q)"
  by (induction es arbitrary: prev vs) (simp_all add: Let_def)

lemma decode_created:
  "\<forall>q \<in> set (decodeDeltaEncoding d). createdAt q = parseCreateTime (epoch q)"
  using decode_loop_created by (simp add: decodeDeltaEncoding_def Let_def)

text \<open>
  C10: For a non-empty series of points on the one-second grid, what the dashboard decodes from what
  the middleware encoded is the series itself, although both sides compute with doubles; each decoded
  point carries the printed form of its own epoch.
\<close>

theorem delta_roundtrip:
  assumes "data \<noteq> []" and "\<forall>p \<in> set data. on_grid p"
  shows "map ev (ui_decodeDeltaEncoding (applyDeltaEncoding (Some data))) = map ev data
    \<and> (\<forall>q \<in> set (ui_decodeDeltaEncoding (applyDeltaEncoding (Some data))).
         createdAt q = ui_parseCreateTime (epoch q))"
  using decode_encode [OF assms] decode_created by (simp add: ui_decode_eq ui_parseCreateTime_def)

theorem delta_roundtrip_witness:
  "map ev (ui_decodeDeltaEncoding (applyDeltaEncoding (Some
      [\<lparr>epoch = Some 1700000000000000, volume = Some 3\<rparr>, \<lparr>epoch = Some 1700000005000000, volume = Some 1\<rparr>])))
   = [(Some 1700000000000000, Some 3), (Some 1700000005000000, Some 1)]"
proof -
  let ?d = "[\<lparr>epoch = Some 1700000000000000, volume = Some 3\<rparr>,
    \<lparr>epoch = Some 1700000005000000, volume = Some 1\<rparr>] :: point list"
  have "?d \<noteq> []" "\<forall>p \<in> set ?d. on_grid p"
    by (simp_all add: on_grid_def)
  from delta_roundtrip [OF this] show ?thesis by simp
qed

text \<open>
  Printing a microsecond timestamp between 1970 and 2248 and reading the text back gives the
  timestamp rounded down to a whole second.
\<close>

lemma time_roundtrip:
  assumes "0 \<le> t" and "t < 1000 * 2 ^ 43"
  shows "parseTimeToUnixEpoch (parseCreateTime (Some (of_int t))) =
    Inr (Some (of_int (t - t mod 1000000)))"
  by (rule parse_print_time [OF assms])

text \<open>
  An empty series does not survive the trip: it is encoded as an offset of zero with no deltas,
  which decodes to one point at the epoch.
\<close>

lemma delta_empty_decodes_to_origin:
  "ui_decodeDeltaEncoding (applyDeltaEncoding (Some [])) =
     [\<lparr>epoch = Some 0, volume = Some 0, createdAt = ''01 Jan 1970 00:00:00 GMT''\<rparr>]"
proof -
  have "parseCreateTime (Some (of_int 0)) = ''01 Jan 1970 00:00:00 GMT''"
    by (subst print_fields) (simp, simp, code_simp)
  then show ?thesis
    by (simp add: ui_decodeDeltaEncoding_def applyDeltaEncoding_def TIME_MULTIPLIER_def dmul_def
        ui_parseCreateTime_def)
qed

end
