(* ===== verification/Reslens_Explorer.thy ===== *)
theory Reslens_Explorer
  imports Reslens_Sync Reslens_Encoding "HOL-Library.Multiset"
begin

text \<open>
  \<^verbatim>\<open>reslens-middleware/middleware/controllers/explorer.js\<close> and \<^verbatim>\<open>utils/envParser.js\<close>: the handlers behind
  \<^verbatim>\<open>/api/v1/explorer\<close>. A handler returns what it sends; the outer result type is an exception that
  leaves the handler. The HTTP client is a parameter: the reply of a GET to a URL.
\<close>

section \<open>Requests, replies and the environment\<close>

datatype 'a reply = Send 'a | Status nat string "string option"

type_synonym 'a http = "string \<Rightarrow> 'a res"
type_synonym env = "string \<rightharpoonup> string"

definition getEnv :: "env \<Rightarrow> string \<Rightarrow> string option \<Rightarrow> string res" where
  "getEnv e name optional =
     (let value = (case e name of Some v \<Rightarrow> if v = [] then optional else Some v | None \<Rightarrow> optional)
      in case value of
           None \<Rightarrow> Inl (Error (''Environment variable '' @ dquote # name @ dquote #
                     '' is required but not defined.''))
         | Some v \<Rightarrow>
             if v = [] then Inl (Error (''Environment variable '' @ dquote # name @ dquote #
                     '' is required but not defined.''))
             else Inr v)"

section \<open>Handlers\<close>

definition getExplorerData :: "env \<Rightarrow> 'a http \<Rightarrow> 'a reply res" where
  "getExplorerData e get =
     bind_res (getEnv e ''EXPLORER_BASE_URL'' None) (\<lambda>base.
       Inr (case get (base @ ''/populatetable'') of
              Inr data \<Rightarrow> Send data
            | Inl err \<Rightarrow> Status 500 ''Failed to fetch explorer data'' (Some (err_message err))))"

definition blocks_url :: "string \<Rightarrow> int \<Rightarrow> int \<Rightarrow> string" where
  "blocks_url base start end' = base @ ''/v1/blocks/'' @ show_int start @ ''/'' @ show_int end'"

definition getBlocks :: "env \<Rightarrow> 'a http \<Rightarrow> string option \<Rightarrow> string option \<Rightarrow> 'a reply res" where
  "getBlocks e get qstart qend =
     (case (Option.bind qstart parse_int, Option.bind qend parse_int) of
        (Some start, Some end') \<Rightarrow>
          bind_res (getEnv e ''EXPLORER_BASE_URL'' None) (\<lambda>base.
            Inr (case get (blocks_url base start end') of
                   Inr data \<Rightarrow> Send data
                 | Inl err \<Rightarrow> Status 500 ''Failed to fetch block data'' (Some (err_message err))))
      | _ \<Rightarrow> Inr (Status 400 ''Pass valid start and end query params as part of the request'' None))"

text \<open>
  The three queries of \<^verbatim>\<open>getDataFromCache\<close>: a range, everything, and the first 100 rows when the bounds
  are missing or not numbers; all ordered by block id.
\<close>

definition getDataFromCache :: "jv \<Rightarrow> jv \<Rightarrow> table \<Rightarrow> table" where
  "getDataFromCache start end' t =
     (case (start, end') of
        (Num a, Num b) \<Rightarrow>
          sort_key block_id (filter (\<lambda>r. a \<le> of_int (block_id r) \<and> of_int (block_id r) \<le> b) t)
      | (Null, Null) \<Rightarrow> sort_key block_id t
      | _ \<Rightarrow> take 100 (sort_key block_id t))"

fun row_points :: "table \<Rightarrow> point list res" where
  "row_points [] = Inr []"
| "row_points (r # rs) =
     bind_res (parseTimeToUnixEpoch (created_at r)) (\<lambda>e.
       bind_res (row_points rs) (\<lambda>ps. Inr (\<lparr>epoch = e, volume = Some (of_int (row.volume r))\<rparr> # ps)))"

text \<open>The argument is the outcome of opening and querying the SQLite file.\<close>

definition getAllEncodedBlocks :: "table res \<Rightarrow> encoded reply" where
  "getAllEncodedBlocks db =
     (case bind_res db (\<lambda>t.
        let cacheData = getDataFromCache Null Null t
        in if cacheData = [] then Inr (Status 404 ''No cached block data available'' None)
           else bind_res (row_points cacheData) (\<lambda>modifiedData.
                  Inr (Send (applyDeltaEncoding (Some modifiedData))))) of
        Inr r \<Rightarrow> r
      | Inl err \<Rightarrow> Status 500 ''Failed to fetch full block data'' (Some (err_message err)))"

section \<open>Facts about the cache query\<close>

lemma getDataFromCache_range:
  "set (getDataFromCache (Num a) (Num b) t) =
     {r \<in> set t. a \<le> of_int (block_id r) \<and> of_int (block_id r) \<le> b}"
  by (simp add: getDataFromCache_def)

lemma getDataFromCache_sorted: "sorted (map block_id (getDataFromCache start end' t))"
  by (auto simp: getDataFromCache_def sorted_wrt_take simp flip: take_map split: jv.splits)

lemma getDataFromCache_limit:
  "\<not> (\<exists>a b. start = Num a \<and> end' = Num b) \<Longrightarrow> \<not> (start = Null \<and> end' = Null) \<Longrightarrow>
   length (getDataFromCache start end' t) \<le> 100"
  by (auto simp: getDataFromCache_def split: jv.splits)

lemma sort_mirrored: "sort_key block_id (chain_rows c 1 n) = chain_rows c 1 n"
  by (rule sort_key_id_if_sorted) (simp only: block_id_chain_rows sorted_upto)

text \<open>A chain whose creation times are printed microsecond timestamps.\<close>

definition printed_times :: "content \<Rightarrow> (int \<Rightarrow> int) \<Rightarrow> int list \<Rightarrow> bool" where
  "printed_times c tm is =
     list_all (\<lambda>i. 0 \<le> tm i \<and> tm i < 2 ^ 52 \<and> fst (c i) = parseCreateTime (Some (of_int (tm i)))) is"

definition block_volume :: "content \<Rightarrow> int \<Rightarrow> int" where
  "block_volume c i = (case snd (c i) of Some ts \<Rightarrow> int (length ts) | None \<Rightarrow> 0)"

definition chart_point :: "content \<Rightarrow> (int \<Rightarrow> int) \<Rightarrow> int \<Rightarrow> point" where
  "chart_point c tm i = \<lparr>epoch = Some (of_int (tm i - tm i mod 1000000)),
     volume = Some (of_int (block_volume c i))\<rparr>"

lemma row_points_chain:
  "printed_times c tm is \<Longrightarrow>
   row_points (map (\<lambda>i. row_of (chain_block c i)) is) = Inr (map (chart_point c tm) is)"
  by (induction "is")
    (simp_all add: printed_times_def row_of_def chain_block_def chart_point_def block_volume_def
      parse_print_time)

lemma on_grid_chart_point:
  assumes "0 \<le> tm i" and "tm i < 2 ^ 52" and "block_volume c i < 2 ^ 52"
  shows "on_grid (chart_point c tm i)"
proof -
  define e where "e = tm i div 1000000"
  have t: "tm i - tm i mod 1000000 = 1000000 * e"
    unfolding e_def using mult_div_mod_eq [of 1000000 "tm i"] by linarith
  have "0 \<le> e" using assms(1) by (simp add: e_def pos_imp_zdiv_nonneg_iff)
  moreover have "1000000 * e < 2 ^ 52"
    using assms(2) div_bounds(1) [of 1000000 "tm i"] by (simp add: e_def)
  moreover have "0 \<le> block_volume c i"
    by (simp add: block_volume_def split: option.splits)
  ultimately show ?thesis
    using assms(3) by (simp add: on_grid_def chart_point_def t Let_def)
qed

lemma getAllEncodedBlocks_chain:
  assumes "1 \<le> n" and "printed_times c tm [1..n]"
  shows "getAllEncodedBlocks (Inr (chain_rows c 1 n)) =
    Send (applyDeltaEncoding (Some (map (chart_point c tm) [1..n])))"
proof -
  have "chain_rows c 1 n \<noteq> []" using assms(1) by simp
  then show ?thesis
    by (simp add: getAllEncodedBlocks_def getDataFromCache_def sort_mirrored
        row_points_chain [OF assms(2)])
qed

section \<open>Properties\<close>

text \<open>
  The cache query returns rows of the table ordered by block id; with two numeric bounds exactly the
  rows between them, with two nulls every row, and otherwise at most 100.
\<close>

lemma cache_query_spec:
  "sorted (map block_id (getDataFromCache start end' t))
   \<and> set (getDataFromCache start end' t) \<subseteq> set t
   \<and> set (getDataFromCache (Num a) (Num b) t) =
       {r \<in> set t. a \<le> of_int (block_id r) \<and> of_int (block_id r) \<le> b}
   \<and> mset (getDataFromCache Null Null t) = mset t
   \<and> length (getDataFromCache Undefined end' t) \<le> 100"
proof -
  have "set (getDataFromCache start end' t) \<subseteq> set t"
    by (auto simp: getDataFromCache_def split: jv.splits dest: in_set_takeD)
  then show ?thesis
    using getDataFromCache_sorted getDataFromCache_range getDataFromCache_limit [of Undefined end' t]
    by (simp add: getDataFromCache_def)
qed

text \<open>
  A block request whose bounds are not both integers is answered with status 400 and never reaches
  the explorer; otherwise the explorer's answer for exactly these bounds is relayed, and a failed
  request is status 500 with its message.
\<close>

lemma getBlocks_spec:
  assumes "getEnv e ''EXPLORER_BASE_URL'' None = Inr base"
  shows "getBlocks e get (Some (show_int a)) (Some (show_int b)) =
      Inr (case get (base @ ''/v1/blocks/'' @ show_int a @ ''/'' @ show_int b) of
             Inr d \<Rightarrow> Send d
           | Inl err \<Rightarrow> Status 500 ''Failed to fetch block data'' (Some (err_message err)))
    \<and> (Option.bind qs parse_int = None \<or> Option.bind qe parse_int = None \<longrightarrow>
        getBlocks e get qs qe =
          Inr (Status 400 ''Pass valid start and end query params as part of the request'' None))"
  using assms by (auto simp: getBlocks_def parse_int_show_int blocks_url_def split: option.splits)

end
