(* ===== verification/JS_URL.thy ===== *)
theory JS_URL
  imports JS_String
begin

text \<open>
  UTF-8 and percent escapes: the encoder of \<^verbatim>\<open>encodeURIComponent\<close> with the decoder of data URLs. The strings of
  the development have 8-bit code units, so a character takes one or two bytes.
\<close>

section \<open>UTF-8\<close>

definition utf8 :: "char \<Rightarrow> nat list" where
  "utf8 c = (if code c < 128 then [code c] else [192 + code c div 64, 128 + code c mod 64])"

fun utf8_decode :: "nat list \<Rightarrow> string" where
  "utf8_decode (a # b # bs) =
     (if a < 128 then char_of a # utf8_decode (b # bs) else char_of (64 * (a - 192) + (b - 128)) # utf8_decode bs)"
| "utf8_decode [a] = [char_of a]"
| "utf8_decode [] = []"

lemma utf8_byte: "b \<in> set (utf8 c) \<Longrightarrow> b < 256"
proof -
  assume b: "b \<in> set (utf8 c)"
  have "code c div 64 < 4" using code_less [of c] by (simp add: less_mult_imp_div_less)
  then show "b < 256" using b by (auto simp: utf8_def split: if_splits)
qed

lemma utf8_decode_ascii: "a < 128 \<Longrightarrow> utf8_decode (a # bs) = char_of a # utf8_decode bs"
  by (cases bs) simp_all

lemma utf8_decode_encode: "utf8_decode (concat (map utf8 s)) = s"
proof (induction s)
  case (Cons c s)
  have "utf8_decode (utf8 c @ bs) = c # utf8_decode bs" for bs
  proof (cases "code c < 128")
    case True
    then show ?thesis by (simp add: utf8_def utf8_decode_ascii)
  next
    case False
    have "64 * (code c div 64) + code c mod 64 = code c" by (rule mult_div_mod_eq)
    then show ?thesis using False by (simp add: utf8_def)
  qed
  with Cons show ?case by simp
qed simp

section \<open>Percent escapes\<close>

definition hex_up :: "nat \<Rightarrow> char" where
  "hex_up d = (if d < 10 then char_of (48 + d) else char_of (55 + d))"

lemma code_hex_up: "d < 16 \<Longrightarrow> code (hex_up d) = (if d < 10 then 48 + d else 55 + d)"
  by (simp add: hex_up_def)

lemma hex_val_up: "d < 16 \<Longrightarrow> hex_val (hex_up d) = d"
  by (simp add: hex_val_def is_digit_def code_hex_up)

text \<open>The characters \<^verbatim>\<open>encodeURIComponent\<close> keeps: letters, digits and \<^verbatim>\<open>- _ . ! ~ * ' ( )\<close>.\<close>

definition uri_plain :: "nat \<Rightarrow> bool" where
  "uri_plain b = (48 \<le> b \<and> b \<le> 57 \<or> 65 \<le> b \<and> b \<le> 90 \<or> 97 \<le> b \<and> b \<le> 122
     \<or> b \<in> {33, 39, 40, 41, 42, 45, 46, 95, 126})"

definition percent_byte :: "nat \<Rightarrow> string" where
  "percent_byte b = (if uri_plain b then [char_of b] else CHR ''%'' # [hex_up (b div 16), hex_up (b mod 16)])"

definition encodeURIComponent :: "string \<Rightarrow> string" where
  "encodeURIComponent s = concat (map percent_byte (concat (map utf8 s)))"

fun percent_decode :: "string \<Rightarrow> nat list" where
  "percent_decode [] = []"
| "percent_decode (c # s) =
     (if c = CHR ''%''
      then (case s of a # b # r \<Rightarrow> (16 * hex_val a + hex_val b) # percent_decode r | _ \<Rightarrow> code c # percent_decode s)
      else code c # percent_decode s)"

definition decodeURIComponent :: "string \<Rightarrow> string" where
  "decodeURIComponent s = utf8_decode (percent_decode s)"

lemma percent_decode_plain: "uri_plain b \<Longrightarrow> percent_decode (char_of b # s) = b # percent_decode s"
proof -
  assume "uri_plain b"
  then have b: "b < 256" "b \<noteq> code (CHR ''%'')" by (auto simp: uri_plain_def)
  then show ?thesis using char_of_neq [OF b] by simp
qed

lemma percent_decode_escape:
  "b < 256 \<Longrightarrow> percent_decode (CHR ''%'' # hex_up (b div 16) # hex_up (b mod 16) # s) = b # percent_decode s"
proof -
  assume "b < 256"
  then have d: "b div 16 < 16" "b mod 16 < 16" by auto
  have "16 * (b div 16) + b mod 16 = b" by (rule mult_div_mod_eq)
  then show ?thesis by (simp add: hex_val_up [OF d(1)] hex_val_up [OF d(2)])
qed

lemma percent_decode_bytes: "\<forall>b \<in> set bs. b < 256 \<Longrightarrow> percent_decode (concat (map percent_byte bs)) = bs"
  by (induction bs) (simp_all add: percent_byte_def percent_decode_plain percent_decode_escape
      del: percent_decode.simps(2))

lemma decode_encodeURIComponent: "decodeURIComponent (encodeURIComponent s) = s"
  unfolding encodeURIComponent_def decodeURIComponent_def
  using utf8_byte by (subst percent_decode_bytes) (auto simp: utf8_decode_encode)

interpretation uri: codec encodeURIComponent "\<lambda>s. Some (decodeURIComponent s)" "\<lambda>_. True"
  by unfold_locales (simp add: decode_encodeURIComponent)

end
