(* ===== verification/Reslens_Metrics.thy ===== *)
theory Reslens_Metrics
  imports Reslens_Explorer JS_URL
begin

text \<open>
  The small controllers of the ResLens middleware: \<^verbatim>\<open>controllers/transactions.js\<close> (writing and reading a key, and the
  latency probe), \<^verbatim>\<open>controllers/statsExporter.js\<close> (the LevelDB table), \<^verbatim>\<open>controllers/processExporter.js\<close>, and the URLs of
  \<^verbatim>\<open>utils/urlHelper.js\<close>. As in the explorer, a handler returns what it sends and the HTTP client is a parameter.
\<close>

section \<open>URLs\<close>

text \<open>The serializer of \<^verbatim>\<open>application/x-www-form-urlencoded\<close>.\<close>

definition form_plain :: "nat \<Rightarrow> bool" where
  "form_plain b = (48 \<le> b \<and> b \<le> 57 \<or> 65 \<le> b \<and> b \<le> 90 \<or> 97 \<le> b \<and> b \<le> 122 \<or> b \<in> {42, 45, 46, 95})"

definition form_byte :: "nat \<Rightarrow> string" where
  "form_byte b = (if b = 32 then ''+'' else if form_plain b then [char_of b]
     else CHR ''%'' # [hex_up (b div 16), hex_up (b mod 16)])"

definition form_encode :: "string \<Rightarrow> string" where
  "form_encode s = concat (map form_byte (concat (map utf8 s)))"

definition form_pair :: "string \<times> string \<Rightarrow> string" where
  "form_pair p = form_encode (fst p) @ ''='' @ form_encode (snd p)"

text \<open>
  The URL parser of the platform is a parameter: the part before the query, the query, and the fragment with
  its mark, or an error. Appending parameters reserializes the query; here the base has none.
\<close>

type_synonym url_parser = "string \<Rightarrow> (string \<times> (string \<times> string) list \<times> string) res"

definition buildUrl :: "url_parser \<Rightarrow> string \<Rightarrow> (string \<times> string) list \<Rightarrow> string res" where
  "buildUrl parse base params =
     bind_res (parse base) (\<lambda>(front, query, fragment).
       let ps = query @ params
       in Inr (front @ (if ps = [] then [] else ''?'' @ join ''&'' (map form_pair ps)) @ fragment))"

section \<open>Key-value service\<close>

text \<open>What the handlers send: a value, or a status with an error.\<close>

datatype 'a sent_reply = Sent 'a | Failed nat jv

type_synonym 'a client = "string \<Rightarrow> jv \<Rightarrow> 'a res"

definition thrown_json :: "js_error \<Rightarrow> jv" where
  "thrown_json e = Obj [(''message'', Str (err_message e))]"

text \<open>The reply of the service is a text such as \<^verbatim>\<open>id: key\<close>; the identifier is what follows the first colon and blank.\<close>

definition setValue :: "env \<Rightarrow> jv client \<Rightarrow> jv \<Rightarrow> jv sent_reply res" where
  "setValue e post body =
     bind_res (getEnv e ''CPP_TRANSACTIONS_API_BASE_URL'' None) (\<lambda>base.
       Inr (case bind_res (post (base @ ''/commit'') body) (\<lambda>d. case d of
                Str s \<Rightarrow> Inr (Obj [(''id'', case split_str '': '' [] s of _ # x # _ \<Rightarrow> Str x | _ \<Rightarrow> Undefined)])
              | _ \<Rightarrow> bind_res (jget d ''split'') (\<lambda>_. Inl (TypeError ''response?.data.split is not a function''))) of
              Inr v \<Rightarrow> Sent v
            | Inl err \<Rightarrow> Failed 500 (Obj [(''error'', thrown_json err)])))"

definition getValue :: "env \<Rightarrow> jv http \<Rightarrow> string \<Rightarrow> jv sent_reply res" where
  "getValue e get key =
     bind_res (getEnv e ''CPP_TRANSACTIONS_API_BASE_URL'' None) (\<lambda>base.
       Inr (case get (base @ ''/'' @ key) of
              Inr v \<Rightarrow> Sent v
            | Inl err \<Rightarrow> Failed 500 (Obj [(''error'', thrown_json err)])))"

section \<open>Latency probe\<close>

text \<open>
  \<open>rnd\<close> gives the values of \<^verbatim>\<open>Math.random()\<close> and \<open>post i\<close> the outcome of request \<open>i\<close>: its response time in
  milliseconds, or an error. The times arrive in the order in which the requests finish, \<open>arrival\<close>, a
  rearrangement of the requests.
\<close>

definition getRandomInt :: "rat \<Rightarrow> rat \<Rightarrow> int" where
  "getRandomInt r limit = \<lfloor>dmul r limit\<rfloor>"

definition probe_count :: "rat \<Rightarrow> nat" where
  "probe_count samples = nat \<lceil>min 50 samples\<rceil>"

definition probe_request :: "int \<Rightarrow> jv" where
  "probe_request v = Obj [(''id'', Str (''key_'' @ show_int v)), (''value'', Str (''value_'' @ show_int v))]"

definition probe_requests :: "(nat \<Rightarrow> rat) \<Rightarrow> rat \<Rightarrow> jv list" where
  "probe_requests rnd samples =
     map (\<lambda>i. probe_request (getRandomInt (rnd i) samples)) [0..<probe_count samples]"

text \<open>\<^verbatim>\<open>responseTimes[Math.ceil(0.99 * responseTimes.length) - 1]\<close> after sorting; out of range it is undefined.\<close>

definition p99_index :: "nat \<Rightarrow> int" where
  "p99_index n = \<lceil>dmul (fl (99 / 100)) (of_nat n)\<rceil> - 1"

definition p99_of :: "rat list \<Rightarrow> jv" where
  "p99_of rts =
     (let ts = sort rts; i = p99_index (length ts)
      in if 0 \<le> i \<and> i < int (length ts) then Num (ts ! nat i) else Undefined)"

fun all_times :: "rat res list \<Rightarrow> rat list res" where
  "all_times [] = Inr []"
| "all_times (r # rs) = bind_res r (\<lambda>t. bind_res (all_times rs) (\<lambda>ts. Inr (t # ts)))"

definition calculateP99 :: "env \<Rightarrow> (nat \<Rightarrow> rat res) \<Rightarrow> nat list \<Rightarrow> rat option \<Rightarrow> jv sent_reply res" where
  "calculateP99 e post arrival samples =
     (let n = (case samples of None \<Rightarrow> 50 | Some x \<Rightarrow> x) in
      bind_res (getEnv e ''CPP_TRANSACTIONS_API_BASE_URL'' None) (\<lambda>_.
        Inr (case all_times (map post arrival) of
               Inl _ \<Rightarrow> Failed 500 (Obj [(''error'', Str ''Failed to warm cache.'')])
             | Inr rts \<Rightarrow>
                 Sent (Obj [(''message'', Str (''Cache warmed with '' @ show_num n @ '' random values successfully.'')),
                            (''p99'', p99_of rts)]))))"

section \<open>LevelDB statistics\<close>

text \<open>\<^verbatim>\<open>split(/\s+/)\<close>\<close>

function split_ws :: "string \<Rightarrow> string list" where
  "split_ws s =
     (let w = takeWhile (\<lambda>c. \<not> is_ws c) s; r = dropWhile (\<lambda>c. \<not> is_ws c) s
      in if r = [] then [w] else w # split_ws (dropWhile is_ws r))"
  by pat_completeness auto
termination
proof (relation "measure length")
  fix s w r :: string
  assume "r = dropWhile (\<lambda>c. \<not> is_ws c) s" "r \<noteq> []"
  then have "is_ws (hd r)" using hd_dropWhile [of "\<lambda>c. \<not> is_ws c" s] by simp
  then obtain c t where r: "r = c # t" "is_ws c" using \<open>r \<noteq> []\<close> by (metis list.collapse)
  have "length (dropWhile is_ws r) \<le> length t" using r by (simp add: length_dropWhile_le)
  also have "length t < length r" using r by simp
  also have "length r \<le> length s" using \<open>r = dropWhile (\<lambda>c. \<not> is_ws c) s\<close> by (simp add: length_dropWhile_le)
  finally show "(dropWhile is_ws r, s) \<in> measure length" by simp
qed simp

declare split_ws.simps [simp del]

text \<open>\<^verbatim>\<open>headers.reduce(...)\<close>: a missing value is undefined, a repeated header keeps its last value.\<close>

definition row_object :: "string list \<Rightarrow> string list \<Rightarrow> jv" where
  "row_object headers values =
     Obj (foldl (\<lambda>m i. oset (headers ! i) (if i < length values then Str (values ! i) else Undefined) m) []
       [0..<length headers])"

definition processStatsData :: "jv \<Rightarrow> jv res" where
  "processStatsData statsData =
     (if \<not> truthy statsData then Inr (Arr [])
      else case statsData of
        Str s \<Rightarrow>
          (case split_on newline (trim s) of
             _ # h # rest \<Rightarrow>
               Inr (Arr (map (\<lambda>row. row_object (split_ws (trim h)) (split_ws (trim row))) (drop 1 rest)))
           | _ \<Rightarrow> Inl (TypeError ''Cannot read properties of undefined (reading trim)''))
      | _ \<Rightarrow> Inl (TypeError ''statsData.trim is not a function''))"

definition getTransactionData :: "env \<Rightarrow> jv http \<Rightarrow> jv sent_reply res" where
  "getTransactionData e get =
     bind_res (getEnv e ''CPP_STATS_API_BASE_URL'' None) (\<lambda>base.
       Inr (case bind_res (get (base @ ''/transaction_data'')) (\<lambda>d.
              bind_res (processStatsData (oprop d ''level_db_stats'')) (\<lambda>stats.
                case d of
                  Obj ps \<Rightarrow> Inr (Obj (oset ''level_db_stats'' stats ps))
                | Undefined \<Rightarrow> Inl (TypeError ''Cannot set properties of undefined'')
                | Null \<Rightarrow> Inl (TypeError ''Cannot set properties of null'')
                | _ \<Rightarrow> Inr d)) of
              Inr v \<Rightarrow> Sent v
            | Inl err \<Rightarrow> Failed 500 (Obj [(''error'', thrown_json err)])))"

section \<open>CPU profile\<close>

definition default_text :: "string \<Rightarrow> string option \<Rightarrow> string" where
  "default_text d v = (case v of None \<Rightarrow> d | Some s \<Rightarrow> s)"

definition profile_url :: "url_parser \<Rightarrow> env \<Rightarrow> string option \<Rightarrow> string option \<Rightarrow> string option \<Rightarrow> string \<Rightarrow> string res" where
  "profile_url parse e qry from until format =
     bind_res (getEnv e ''PYROSCOPE_BASE_URL'' None) (\<lambda>base.
       buildUrl parse base
         [(''query'', default_text ''undefined'' qry @ ''.cpu''), (''from'', default_text ''now-5m'' from),
          (''until'', default_text ''now'' until), (''format'', format)])"

definition cpuUsage :: "url_parser \<Rightarrow> env \<Rightarrow> jv http \<Rightarrow> string option \<Rightarrow> string option \<Rightarrow> string option \<Rightarrow> string option \<Rightarrow>
    jv sent_reply res" where
  "cpuUsage parse e get qry from until format =
     bind_res (profile_url parse e qry from until (default_text ''json'' format)) (\<lambda>u.
       Inr (case get u of
              Inr v \<Rightarrow> Sent v
            | Inl err \<Rightarrow> Failed 500 (Obj [(''error'',
                Str (if err_message err = [] then ''An error occurred while fetching CPU profiling data''
                     else err_message err))])))"

section \<open>Facts about URLs\<close>

text \<open>The parser of \<^verbatim>\<open>application/x-www-form-urlencoded\<close>.\<close>

fun unform :: "string \<Rightarrow> nat list" where
  "unform [] = []"
| "unform (c # s) =
     (if c = CHR ''+'' then 32 # unform s
      else if c = CHR ''%''
      then (case s of a # b # r \<Rightarrow> (16 * hex_val a + hex_val b) # unform r | _ \<Rightarrow> code c # unform s)
      else code c # unform s)"

definition parse_pair :: "string \<Rightarrow> string \<times> string" where
  "parse_pair s = (utf8_decode (unform (takeWhile (\<lambda>c. c \<noteq> CHR ''='') s)),
                   utf8_decode (unform (tl (dropWhile (\<lambda>c. c \<noteq> CHR ''='') s))))"

definition parse_query :: "string \<Rightarrow> (string \<times> string) list" where
  "parse_query q = map parse_pair (split_on (CHR ''&'') q)"

lemma plain_char: "form_plain b \<Longrightarrow> b < 128 \<and> b \<notin> {37, 38, 43, 61}"
  by (auto simp: form_plain_def)

lemma plain_not:
  assumes "form_plain b"
  shows "char_of b \<noteq> CHR ''+''" "char_of b \<noteq> CHR ''%''" "char_of b \<noteq> CHR ''&''" "char_of b \<noteq> CHR ''=''"
    "code (char_of b) = b"
proof -
  have b: "b < 256" "b \<notin> {37, 38, 43, 61}" using plain_char [OF assms] by auto
  show "char_of b \<noteq> CHR ''+''" "char_of b \<noteq> CHR ''%''" "char_of b \<noteq> CHR ''&''" "char_of b \<noteq> CHR ''=''"
    by (rule char_of_neq [OF b(1)]; use b(2) in simp)+
  show "code (char_of b) = b" using b(1) by simp
qed

lemma unform_plain: "form_plain b \<Longrightarrow> unform (char_of b # s) = b # unform s"
  by (simp only: unform.simps plain_not if_False)

lemma unform_percent: "b < 256 \<Longrightarrow> unform (CHR ''%'' # hex_up (b div 16) # hex_up (b mod 16) # s) = b # unform s"
proof -
  assume "b < 256"
  then have d: "b div 16 < 16" "b mod 16 < 16" by auto
  have "16 * (b div 16) + b mod 16 = b" by (rule mult_div_mod_eq)
  then show ?thesis by (simp add: hex_val_up [OF d(1)] hex_val_up [OF d(2)])
qed

lemma unform_byte: "b < 256 \<Longrightarrow> unform (form_byte b @ s) = b # unform s"
  by (simp add: form_byte_def unform_plain unform_percent del: unform.simps(2)) (simp add: unform.simps(2))

lemma unform_bytes: "\<forall>b \<in> set bs. b < 256 \<Longrightarrow> unform (concat (map form_byte bs)) = bs"
  by (induction bs) (simp_all add: unform_byte)

lemma form_encode_roundtrip: "utf8_decode (unform (form_encode s)) = s"
  unfolding form_encode_def using utf8_byte by (subst unform_bytes) (auto simp: utf8_decode_encode)

lemma hex_up_safe: "d < 16 \<Longrightarrow> hex_up d \<noteq> CHR ''&'' \<and> hex_up d \<noteq> CHR ''=''"
proof -
  assume d: "d < 16"
  have "code (hex_up d) \<noteq> 38" "code (hex_up d) \<noteq> 61"
    unfolding code_hex_up [OF d] by simp_all
  moreover have "code (CHR ''&'') = 38" "code (CHR ''='') = 61" by simp_all
  ultimately show ?thesis by metis
qed

lemma form_byte_safe: "b < 256 \<Longrightarrow> c \<in> set (form_byte b) \<Longrightarrow> c \<noteq> CHR ''&'' \<and> c \<noteq> CHR ''=''"
proof -
  assume "b < 256"
  then have d: "b div 16 < 16" "b mod 16 < 16" by auto
  assume "c \<in> set (form_byte b)"
  then consider "c = CHR ''+''" | "c = CHR ''%''" | "form_plain b" "c = char_of b"
    | "c = hex_up (b div 16)" | "c = hex_up (b mod 16)"
    by (auto simp: form_byte_def split: if_splits)
  then show ?thesis using hex_up_safe [OF d(1)] hex_up_safe [OF d(2)] by cases (auto simp: plain_not)
qed

lemma form_encode_safe: "c \<in> set (form_encode s) \<Longrightarrow> c \<noteq> CHR ''&'' \<and> c \<noteq> CHR ''=''"
proof -
  assume "c \<in> set (form_encode s)"
  then obtain x b where "b \<in> set (utf8 x)" "c \<in> set (form_byte b)" by (auto simp: form_encode_def)
  then show ?thesis using form_byte_safe [OF utf8_byte] by blast
qed

lemma parse_form_pair: "parse_pair (form_pair p) = p"
proof -
  have n: "\<forall>c \<in> set (form_encode s). c \<noteq> CHR ''=''" for s using form_encode_safe by blast
  have "takeWhile (\<lambda>c. c \<noteq> CHR ''='') (form_pair p) = form_encode (fst p)"
    "dropWhile (\<lambda>c. c \<noteq> CHR ''='') (form_pair p) = ''='' @ form_encode (snd p)"
    using n by (simp_all add: form_pair_def takeWhile_append2 dropWhile_append2)
  then show ?thesis by (simp add: parse_pair_def form_encode_roundtrip)
qed

lemma parse_query_join: "ps \<noteq> [] \<Longrightarrow> parse_query (join ''&'' (map form_pair ps)) = ps"
proof -
  assume ps: "ps \<noteq> []"
  have "CHR ''&'' \<notin> set (form_pair p)" for p
    using form_encode_safe by (auto simp: form_pair_def)
  then have "split_on (CHR ''&'') (join ''&'' (map form_pair ps)) = map form_pair ps"
    using ps by (intro split_on_join) auto
  then show ?thesis by (simp add: parse_query_def parse_form_pair comp_def)
qed

interpretation form: codec "\<lambda>ps. join ''&'' (map form_pair ps)" "\<lambda>q. Some (parse_query q)" "\<lambda>ps. ps \<noteq> []"
  by unfold_locales (simp add: parse_query_join)

section \<open>Facts about the latency probe\<close>

lemma p99_index_small: "n \<in> {1..50} \<Longrightarrow> p99_index n = int n - 1"
proof -
  assume "n \<in> {1..50}"
  then have n: "1 \<le> (of_nat n :: rat)" "(of_nat n :: rat) \<le> 50" by auto
  define c y where "c = fl (99 / 100)" and y: "y = c * of_nat n"
  have c: "9899 / 10000 \<le> c" "c \<le> 9901 / 10000" using fl_near [of "99 / 100"] by (simp_all add: c_def)
  have b: "9899 / 10000 * of_nat n \<le> y" "y \<le> 9901 / 10000 * of_nat n"
    unfolding y using c n by (intro mult_right_mono; simp)+
  then have "y - 1 / 10000 \<le> fl y \<and> fl y \<le> y + 1 / 10000" using n by (intro fl_near) linarith+
  then have "of_nat n - 1 < fl y" "fl y \<le> of_nat n" using b n by linarith+
  then have "\<lceil>fl y\<rceil> = int n" by (simp add: ceiling_eq_iff)
  then show ?thesis by (simp add: p99_index_def dmul_def c_def y)
qed

lemma sort_last_Max: "xs \<noteq> [] \<Longrightarrow> sort xs ! (length xs - 1) = Max (set xs)"
  for xs :: "rat list"
proof -
  assume ne: "xs \<noteq> []"
  then have ne': "sort xs \<noteq> []" by (metis length_sort length_0_conv)
  have "Max (set (sort xs)) = last (sort xs)"
  proof (rule Max_eqI)
    show "y \<le> last (sort xs)" if y: "y \<in> set (sort xs)" for y
    proof -
      obtain i where i: "i < length (sort xs)" "sort xs ! i = y" using y by (metis in_set_conv_nth)
      then have "sort xs ! i \<le> sort xs ! (length (sort xs) - 1)"
        by (intro sorted_nth_mono) auto
      then show ?thesis using i(2) ne' by (simp add: last_conv_nth)
    qed
  qed (use ne' last_in_set [OF ne'] in simp_all)
  then show ?thesis using ne' by (simp add: last_conv_nth)
qed

lemma p99_of_max: "rts \<noteq> [] \<Longrightarrow> length rts \<le> 50 \<Longrightarrow> p99_of rts = Num (Max (set rts))"
proof -
  assume a: "rts \<noteq> []" "length rts \<le> 50"
  then have "p99_index (length rts) = int (length rts) - 1" by (intro p99_index_small) (cases rts; simp)
  then show ?thesis using a sort_last_Max [OF a(1)]
    by (simp add: p99_of_def Let_def nat_diff_distrib')
qed

lemma all_times_ok: "all_times (map (\<lambda>i. Inr (t i)) is) = Inr (map t is)"
  by (induction "is") simp_all

lemma all_times_fail: "\<exists>r \<in> set rs. \<not> is_ok r \<Longrightarrow> \<exists>e. all_times rs = Inl e"
proof (induction rs)
  case (Cons r rs)
  then show ?case by (cases r; cases "all_times rs") auto
qed simp

lemma probe_count_bounds: "probe_count samples \<le> 50" "0 < samples \<Longrightarrow> 0 < probe_count samples"
proof -
  have "\<lceil>min 50 samples\<rceil> \<le> 50" by (simp add: ceiling_le_iff)
  then show "probe_count samples \<le> 50" by (simp add: probe_count_def nat_le_iff)
  show "0 < probe_count samples" if "0 < samples" using that by (simp add: probe_count_def)
qed

definition warmed :: "rat \<Rightarrow> string" where
  "warmed samples = ''Cache warmed with '' @ show_num samples @ '' random values successfully.''"

lemma calculateP99_ok:
  assumes "getEnv e ''CPP_TRANSACTIONS_API_BASE_URL'' None = Inr base"
    and "map post arrival = map (\<lambda>i. Inr (t i)) arrival" "arrival \<noteq> []" "length arrival \<le> 50"
  shows "calculateP99 e post arrival (Some samples) =
    Inr (Sent (Obj [(''message'', Str (warmed samples)), (''p99'', Num (Max (t ` set arrival)))]))"
proof -
  have "p99_of (map t arrival) = Num (Max (set (map t arrival)))"
    by (rule p99_of_max) (use assms(3,4) in simp_all)
  then show ?thesis by (simp add: calculateP99_def assms(1,2) all_times_ok warmed_def)
qed

lemma calculateP99_fail:
  assumes "getEnv e ''CPP_TRANSACTIONS_API_BASE_URL'' None = Inr base" "\<exists>r \<in> set (map post arrival). \<not> is_ok r"
  shows "calculateP99 e post arrival samples = Inr (Failed 500 (Obj [(''error'', Str ''Failed to warm cache.'')]))"
  using all_times_fail [OF assms(2)] by (auto simp: calculateP99_def assms(1))

section \<open>Facts about the statistics\<close>

definition ltrim :: "string \<Rightarrow> string" where
  "ltrim s = dropWhile is_ws s"

definition rtrim :: "string \<Rightarrow> string" where
  "rtrim s = rev (dropWhile is_ws (rev s))"

definition blank_text :: "string \<Rightarrow> bool" where
  "blank_text s = list_all is_ws s"

lemma trim_eq: "trim s = rtrim (ltrim s)"
  by (simp add: trim_def rtrim_def ltrim_def)

lemma ltrim_append: "\<not> blank_text s \<Longrightarrow> ltrim (s @ t) = ltrim s @ t"
  by (auto simp: ltrim_def blank_text_def list_all_iff dropWhile_append1)

lemma rtrim_append: "\<not> blank_text t \<Longrightarrow> rtrim (s @ t) = s @ rtrim t"
  by (auto simp: rtrim_def blank_text_def list_all_iff dropWhile_append1)

lemma ltrim_rtrim: "\<not> blank_text s \<Longrightarrow> ltrim (rtrim s) = rtrim (ltrim s)"
proof -
  assume b: "\<not> blank_text s"
  define a m where "a = takeWhile is_ws s" and "m = ltrim s"
  have s: "s = a @ m" by (simp add: a_def m_def ltrim_def)
  have m: "m \<noteq> []" "\<not> is_ws (hd m)"
    using b hd_dropWhile [of is_ws s] by (auto simp: m_def ltrim_def blank_text_def list_all_iff)
  have "\<not> blank_text m" using m by (cases m) (auto simp: blank_text_def)
  then have r: "rtrim s = a @ rtrim m" by (simp add: s rtrim_append)
  have "m = [hd m] @ tl m" using m(1) by simp
  have "rtrim m \<noteq> [] \<and> hd (rtrim m) = hd m"
  proof (cases "blank_text (tl m)")
    case True
    then have "rtrim m = [hd m]"
      using m dropWhile_append2 [of "rev (tl m)" is_ws "[hd m]"]
      by (cases m) (auto simp: rtrim_def blank_text_def list_all_iff)
    then show ?thesis by simp
  next
    case False
    then have "rtrim m = [hd m] @ rtrim (tl m)"
      using rtrim_append [of "tl m" "[hd m]"] \<open>m = [hd m] @ tl m\<close> by simp
    then show ?thesis by simp
  qed
  then have "ltrim (rtrim m) = rtrim m" using m(2) by (cases "rtrim m") (auto simp: ltrim_def)
  moreover have "ltrim (a @ rtrim m) = ltrim (rtrim m)"
    using takeWhile_eq_all_conv [of is_ws a] by (auto simp: ltrim_def a_def dest: set_takeWhileD intro: dropWhile_append2)
  ultimately show ?thesis by (simp add: r m_def)
qed

lemma rtrim_idem [simp]: "rtrim (rtrim s) = rtrim s"
  by (simp add: rtrim_def)

lemma trim_rtrim [simp]: "trim (rtrim s) = trim s"
proof (cases "blank_text s")
  case True
  then have "rtrim s = []" "ltrim s = []"
    by (auto simp: rtrim_def ltrim_def blank_text_def list_all_iff dropWhile_eq_Nil_conv)
  then have "rtrim s = []" "trim s = []" by (simp_all add: trim_eq rtrim_def)
  then show ?thesis by (simp add: trim_def)
next
  case False
  then show ?thesis by (simp add: trim_eq ltrim_rtrim)
qed

text \<open>Words separated by blanks, with blanks around them allowed.\<close>

definition word :: "string \<Rightarrow> bool" where
  "word w = (w \<noteq> [] \<and> (\<forall>c \<in> set w. \<not> is_ws c))"

fun spaced :: "string \<Rightarrow> (string \<times> string) list \<Rightarrow> string" where
  "spaced w [] = w"
| "spaced w ((b, v) # r) = w @ b @ spaced v r"

lemma split_ws_word: "word w \<Longrightarrow> split_ws w = [w]"
  by (subst split_ws.simps) (simp add: word_def takeWhile_eq_all_conv dropWhile_eq_Nil_conv)

lemma split_ws_step:
  assumes "word w" "b \<noteq> []" "blank_text b" "t \<noteq> []" "\<not> is_ws (hd t)"
  shows "split_ws (w @ b @ t) = w # split_ws t"
proof -
  obtain c cs where b: "b = c # cs" "is_ws c" using assms(2,3) by (cases b) (auto simp: blank_text_def)
  have "takeWhile (\<lambda>c. \<not> is_ws c) (w @ b @ t) = w" "dropWhile (\<lambda>c. \<not> is_ws c) (w @ b @ t) = b @ t"
    using assms(1) b by (simp_all add: word_def takeWhile_append2 dropWhile_append2)
  moreover have "dropWhile is_ws (b @ t) = t"
    using assms(3-5) by (cases t) (auto simp: blank_text_def list_all_iff dropWhile_append2)
  ultimately show ?thesis using b by (subst split_ws.simps) simp
qed

definition gaps_ok :: "(string \<times> string) list \<Rightarrow> bool" where
  "gaps_ok r = list_all (\<lambda>(b, v). b \<noteq> [] \<and> blank_text b \<and> word v) r"

lemma spaced_ends:
  "word w \<Longrightarrow> gaps_ok r \<Longrightarrow> spaced w r \<noteq> [] \<and> \<not> is_ws (hd (spaced w r)) \<and> \<not> is_ws (last (spaced w r))"
  by (induction w r rule: spaced.induct) (auto simp: gaps_ok_def word_def)

lemma split_spaced: "word w \<Longrightarrow> gaps_ok r \<Longrightarrow> split_ws (spaced w r) = w # map snd r"
proof (induction w r rule: spaced.induct)
  case (2 w b v r)
  then have v: "word v" "gaps_ok r" and b: "b \<noteq> []" "blank_text b" by (auto simp: gaps_ok_def)
  show ?case
    using split_ws_step [OF 2(2) b, of "spaced v r"] spaced_ends [OF v] 2(1) [OF v] by simp
qed (simp add: split_ws_word)

text \<open>A line of a table: blanks, the first word, further words with the blanks before them, blanks.\<close>

type_synonym table_line = "string \<times> string \<times> (string \<times> string) list \<times> string"

definition line_text :: "table_line \<Rightarrow> string" where
  "line_text l = (case l of (a, w, r, z) \<Rightarrow> a @ spaced w r @ z)"

definition line_words :: "table_line \<Rightarrow> string list" where
  "line_words l = (case l of (a, w, r, z) \<Rightarrow> w # map snd r)"

definition line_ok :: "table_line \<Rightarrow> bool" where
  "line_ok l = (case l of (a, w, r, z) \<Rightarrow> blank_text a \<and> word w \<and> gaps_ok r \<and> blank_text z
     \<and> newline \<notin> set (line_text l))"

lemma trim_surround:
  assumes "blank_text a" "blank_text z" "s \<noteq> []" "\<not> is_ws (hd s)" "\<not> is_ws (last s)"
  shows "trim (a @ s @ z) = s"
proof -
  have n: "\<not> blank_text s" using assms(3,4) by (cases s) (auto simp: blank_text_def)
  have "ltrim (a @ s @ z) = s @ z"
    using assms by (cases s) (auto simp: ltrim_def blank_text_def list_all_iff dropWhile_append2)
  moreover have "rtrim (s @ z) = s"
  proof -
    have "rtrim (s @ z) = rev (dropWhile is_ws (rev z @ rev s))" by (simp add: rtrim_def)
    also have "\<dots> = rev (dropWhile is_ws (rev s))"
      using assms(2) by (subst dropWhile_append2) (auto simp: blank_text_def list_all_iff)
    also have "dropWhile is_ws (rev s) = rev s"
      using assms(3,5) by (intro dropWhile_fixed) (simp add: hd_rev)
    finally show ?thesis by simp
  qed
  ultimately show ?thesis by (simp add: trim_eq)
qed

lemma split_line:
  assumes "line_ok l"
  shows "split_ws (trim (line_text l)) = line_words l" "\<not> blank_text (line_text l)"
proof -
  obtain a w r z where l: "l = (a, w, r, z)" by (cases l)
  have ok: "blank_text a" "word w" "gaps_ok r" "blank_text z" using assms by (auto simp: line_ok_def l)
  note e = spaced_ends [OF ok(2,3)]
  show "split_ws (trim (line_text l)) = line_words l"
    using trim_surround [OF ok(1,4), of "spaced w r"] e split_spaced [OF ok(2,3)]
    by (simp add: line_text_def line_words_def l)
  show "\<not> blank_text (line_text l)"
    using e by (cases "spaced w r") (auto simp: line_text_def l blank_text_def)
qed

lemma join_last: "join sep (xs @ [y]) = concat (map (\<lambda>x. x @ sep) xs) @ y"
proof (induction xs)
  case (Cons x xs)
  then show ?case by (cases xs) simp_all
qed simp

lemma split_trimmed_lines:
  assumes "\<not> blank_text x" "\<not> blank_text y" "\<forall>l \<in> set (x # ls @ [y]). newline \<notin> set l"
  shows "split_on newline (trim (join [newline] (x # ls @ [y]))) = ltrim x # ls @ [rtrim y]"
proof -
  let ?m = "concat (map (\<lambda>l. l @ [newline]) ls)"
  have j: "join [newline] (x # ls @ [y]) = x @ [newline] @ ?m @ y" for x y
    using join_last [of "[newline]" "x # ls" y] by simp
  have "trim (join [newline] (x # ls @ [y])) = rtrim (ltrim x @ [newline] @ ?m @ y)"
    by (simp only: trim_eq j ltrim_append [OF assms(1)])
  also have "\<dots> = (ltrim x @ [newline] @ ?m) @ rtrim y"
    using rtrim_append [OF assms(2), of "ltrim x @ [newline] @ ?m"] by simp
  also have "\<dots> = join [newline] (ltrim x # ls @ [rtrim y])" by (simp only: j append_assoc)
  finally have t: "trim (join [newline] (x # ls @ [y])) = join [newline] (ltrim x # ls @ [rtrim y])" .
  have "set (ltrim x) \<subseteq> set x" "set (rtrim y) \<subseteq> set y"
    by (auto simp: ltrim_def rtrim_def dest: set_dropWhileD)
  then show ?thesis unfolding t using assms(3) by (intro split_on_join) auto
qed

text \<open>What LevelDB prints: a title, the headers, a rule, and one line per level.\<close>

definition stats_text :: "string \<Rightarrow> table_line \<Rightarrow> string \<Rightarrow> table_line list \<Rightarrow> string" where
  "stats_text title headers rule rows =
     join [newline] (title # line_text headers # rule # map line_text rows)"

lemma processStats_lines:
  assumes "\<not> blank_text title" "newline \<notin> set title" "newline \<notin> set rule" "line_ok h" "list_all line_ok rows" "rows \<noteq> []"
  shows "processStatsData (Str (stats_text title h rule rows)) =
    Inr (Arr (map (\<lambda>r. row_object (line_words h) (line_words r)) rows))"
proof -
  obtain rs r where r: "rows = rs @ [r]" using assms(6) by (cases rows rule: rev_cases) auto
  have ok: "line_ok r" "list_all line_ok rs" using assms(5) r by auto
  have nl: "newline \<notin> set (line_text l)" if "line_ok l" for l using that by (auto simp: line_ok_def)
  have rs: "\<forall>l \<in> set rs. newline \<notin> set (line_text l)" using ok(2) nl by (auto simp only: list_all_iff)
  have e: "title # line_text h # rule # map line_text rows =
      title # (line_text h # rule # map line_text rs) @ [line_text r]"
    by (simp add: r)
  have "split_on newline (trim (stats_text title h rule rows)) =
      ltrim title # (line_text h # rule # map line_text rs) @ [rtrim (line_text r)]"
    unfolding stats_text_def e
    by (rule split_trimmed_lines [OF assms(1) split_line(2) [OF ok(1)]])
      (use assms(2,3) nl [OF assms(4)] nl [OF ok(1)] rs in auto)
  moreover have "stats_text title h rule rows \<noteq> []"
    using assms(1) by (auto simp: stats_text_def blank_text_def)
  ultimately show ?thesis
    using split_line(1) [OF assms(4)] split_line(1) [OF ok(1)] ok(2)
    by (auto simp: processStatsData_def r list_all_iff split_line(1))
qed

lemma row_object_zip:
  assumes "distinct hs" "length vs = length hs"
  shows "row_object hs vs = Obj (zip hs (map Str vs))"
proof -
  have "foldl (\<lambda>m i. oset (hs ! i) (if i < length vs then Str (vs ! i) else Undefined) m) [] [0..<n] =
      zip (take n hs) (map Str (take n vs))" if "n \<le> length hs" for n
    using that
  proof (induction n)
    case (Suc n)
    have "hs ! n \<notin> set (take n hs)"
      using assms(1) Suc.prems by (auto simp: in_set_conv_nth distinct_conv_nth)
    then have "hs ! n \<notin> fst ` set (zip (take n hs) (map Str (take n vs)))"
      by (auto dest: set_zip_leftD)
    then have "oset (hs ! n) (Str (vs ! n)) (zip (take n hs) (map Str (take n vs))) =
        zip (take n hs) (map Str (take n vs)) @ [(hs ! n, Str (vs ! n))]"
      by (rule oset_append)
    then show ?case using Suc assms(2) by (simp add: take_Suc_conv_app_nth)
  qed simp
  from this [of "length hs"] assms(2) show ?thesis by (simp add: row_object_def)
qed

section \<open>Properties\<close>

text \<open>
  The parameters of a request survive the URL: whatever names and values \<^verbatim>\<open>buildUrl\<close> is given, separators and
  blanks included, the query part of the result parses back to exactly these pairs, in order.
\<close>

lemma buildUrl_roundtrip:
  assumes "parse base = Inr (front, [], fragment)" "params \<noteq> []"
  shows "\<exists>q. buildUrl parse base params = Inr (front @ ''?'' @ q @ fragment) \<and> parse_query q = params"
  using assms parse_query_join [OF assms(2)] by (auto simp: buildUrl_def)

text \<open>
  C37: The latency probe sends at most 50 requests and the number it reports as the 99th percentile is the largest
  response time, whatever the order in which the requests finish; one failed request makes it fail.
\<close>

theorem p99_is_maximum:
  assumes "getEnv e ''CPP_TRANSACTIONS_API_BASE_URL'' None = Inr base"
    and "mset arrival = mset [0..<probe_count samples]" "0 < samples"
  shows "probe_count samples \<le> 50 \<and> length (probe_requests rnd samples) = probe_count samples
    \<and> ((\<forall>i < probe_count samples. post i = Inr (t i)) \<longrightarrow>
        calculateP99 e post arrival (Some samples) = Inr (Sent (Obj [(''message'', Str (warmed samples)),
            (''p99'', Num (Max (t ` {..<probe_count samples})))])))
    \<and> ((\<exists>i < probe_count samples. \<not> is_ok (post i)) \<longrightarrow>
        calculateP99 e post arrival (Some samples) =
          Inr (Failed 500 (Obj [(''error'', Str ''Failed to warm cache.'')])))"
proof (intro conjI impI)
  let ?n = "probe_count samples"
  have set: "set arrival = {..<?n}" using mset_eq_setD [OF assms(2)] by (simp add: atLeast0LessThan)
  have len: "length arrival = ?n" using mset_eq_length [OF assms(2)] by simp
  show n: "?n \<le> 50" by (rule probe_count_bounds)
  show "length (probe_requests rnd samples) = ?n" by (simp add: probe_requests_def)
  {
    assume ok: "\<forall>i < ?n. post i = Inr (t i)"
    have "map post arrival = map (\<lambda>i. Inr (t i)) arrival" using ok set by (intro map_cong) auto
    moreover have "arrival \<noteq> []" using len probe_count_bounds(2) [OF assms(3)] by (metis length_0_conv less_irrefl)
    ultimately show "calculateP99 e post arrival (Some samples) = Inr (Sent (Obj [(''message'', Str (warmed samples)),
            (''p99'', Num (Max (t ` {..<?n})))]))"
      using calculateP99_ok [OF assms(1)] len n set by metis
  }
  assume "\<exists>i < ?n. \<not> is_ok (post i)"
  then have "\<exists>r \<in> set (map post arrival). \<not> is_ok r" using set by auto
  then show "calculateP99 e post arrival (Some samples) =
      Inr (Failed 500 (Obj [(''error'', Str ''Failed to warm cache.'')]))"
    by (rule calculateP99_fail [OF assms(1)])
qed

theorem p99_is_maximum_witness:
  "calculateP99 [''CPP_TRANSACTIONS_API_BASE_URL'' \<mapsto> ''http://kv''] (\<lambda>i. Inr (of_nat (10 * i))) [2, 0, 1] (Some 3)
     = Inr (Sent (Obj [(''message'', Str (warmed 3)), (''p99'', Num 20)]))"
proof -
  have c: "probe_count 3 = 3" by (simp add: probe_count_def)
  have "{..<3 :: nat} = {0, 1, 2}" by auto
  then have i: "(\<lambda>i. rat_of_nat (10 * i)) ` {..<3} = {0, 10, 20}" by simp
  have m: "mset [2, 0, 1 :: nat] = mset [0..<probe_count 3]" by (simp add: c upt_rec)
  have e: "getEnv [''CPP_TRANSACTIONS_API_BASE_URL'' \<mapsto> ''http://kv''] ''CPP_TRANSACTIONS_API_BASE_URL'' None = Inr ''http://kv''"
    by (simp add: getEnv_def)
  show ?thesis
    using p99_is_maximum [OF e m, of "\<lambda>_. 0" "\<lambda>i. Inr (of_nat (10 * i))" "\<lambda>i. of_nat (10 * i)"]
    by (simp add: c i del: of_nat_mult)
qed

text \<open>
  The LevelDB table is read faithfully: of a title, a line of distinct headers, a rule and lines with one
  value per header, with any blanks between and around the words, the result is one object per line that maps each
  header to the value below it, in order; a text without a second line is an error and an absent text an
  empty list.
\<close>

lemma stats_table:
  assumes "\<not> blank_text title" "newline \<notin> set title" "newline \<notin> set rule"
    and "line_ok h" "distinct (line_words h)"
    and "rows \<noteq> []" "list_all (\<lambda>r. line_ok r \<and> length (line_words r) = length (line_words h)) rows"
  shows "processStatsData (Str (stats_text title h rule rows)) =
      Inr (Arr (map (\<lambda>r. Obj (zip (line_words h) (map Str (line_words r)))) rows))
    \<and> \<not> is_ok (processStatsData (Str title)) \<and> processStatsData Undefined = Inr (Arr [])"
proof -
  have "list_all line_ok rows" using assms(7) by (simp add: list_all_iff)
  from processStats_lines [OF assms(1-4) this assms(6)]
  have "processStatsData (Str (stats_text title h rule rows)) =
      Inr (Arr (map (\<lambda>r. Obj (zip (line_words h) (map Str (line_words r)))) rows))"
    using assms(5,7) by (simp add: row_object_zip list_all_iff)
  moreover have "\<not> is_ok (processStatsData (Str title))"
  proof -
    have "x \<in> set title" if "x \<in> set (trim title)" for x
    proof -
      have "x \<in> set (rev (dropWhile is_ws title))"
        by (rule set_dropWhileD [of x is_ws]) (use that in \<open>simp add: trim_def\<close>)
      then have "x \<in> set (dropWhile is_ws title)" by simp
      then show ?thesis by (rule set_dropWhileD)
    qed
    then have "split_on newline (trim title) = [trim title]" using assms(2) by (intro split_on_plain) auto
    moreover have "title \<noteq> []" using assms(1) by (auto simp: blank_text_def)
    ultimately show ?thesis by (simp add: processStatsData_def)
  qed
  ultimately show ?thesis by (simp add: processStatsData_def)
qed

end
