(* ===== verification/JS_ISO.thy ===== *)
theory JS_ISO
  imports JS_Date
begin

text \<open>
  Times as texts: \<^verbatim>\<open>Date.prototype.toISOString\<close>, reading such a text back, and the conversions of values to numbers that
  \<^verbatim>\<open>new Date(x)\<close> and arithmetic use. Texts in other formats are read by the platform's own rules, which are a parameter.
\<close>

section \<open>Printing\<close>

definition pad :: "nat \<Rightarrow> nat \<Rightarrow> string" where
  "pad w n = replicate (w - length (show_nat n)) CHR ''0'' @ show_nat n"

definition iso_year :: "int \<Rightarrow> string" where
  "iso_year y = (if 0 \<le> y \<and> y \<le> 9999 then pad 4 (nat y)
     else (if y < 0 then ''-'' else ''+'') @ pad 6 (nat \<bar>y\<bar>))"

definition iso_text :: "int \<Rightarrow> string" where
  "iso_text t =
     (let f = utc_of t
      in iso_year (utc_year f) @ ''-'' @ pad 2 (utc_month f + 1) @ ''-'' @ pad 2 (nat (utc_date f)) @ ''T'' @
         pad 2 (nat (utc_hours f)) @ '':'' @ pad 2 (nat (utc_minutes f)) @ '':'' @ pad 2 (nat (utc_seconds f)) @ ''.'' @
         pad 3 (nat (t mod 1000)) @ ''Z'')"

text \<open>\<^term>\<open>None\<close> is the time value NaN.\<close>

definition toISOString :: "int option \<Rightarrow> string res" where
  "toISOString t = (case t of Some v \<Rightarrow> Inr (iso_text v) | None \<Rightarrow> Inl (Error ''Invalid time value''))"

section \<open>Reading\<close>

definition take_num :: "nat \<Rightarrow> string \<Rightarrow> (nat \<times> string) option" where
  "take_num w s =
     (let a = take w s in if length a = w \<and> list_all is_digit a then Some (digits_val a, drop w s) else None)"

definition take_char :: "char \<Rightarrow> string \<Rightarrow> string option" where
  "take_char c s = (case s of x # r \<Rightarrow> if x = c then Some r else None | [] \<Rightarrow> None)"

definition legal_day :: "nat \<Rightarrow> nat \<Rightarrow> nat \<Rightarrow> bool" where
  "legal_day y m d = (1 \<le> m \<and> m \<le> 12 \<and> 1 \<le> d \<and> int d \<le> month_lengths (int y) ! (m - 1))"

definition parse_iso :: "string \<Rightarrow> int option" where
  "parse_iso s =
     Option.bind (take_num 4 s) (\<lambda>(y, s). Option.bind (take_char CHR ''-'' s) (\<lambda>s.
     Option.bind (take_num 2 s) (\<lambda>(m, s). Option.bind (take_char CHR ''-'' s) (\<lambda>s.
     Option.bind (take_num 2 s) (\<lambda>(d, s). Option.bind (take_char CHR ''T'' s) (\<lambda>s.
     Option.bind (take_num 2 s) (\<lambda>(h, s). Option.bind (take_char CHR '':'' s) (\<lambda>s.
     Option.bind (take_num 2 s) (\<lambda>(mi, s). Option.bind (take_char CHR '':'' s) (\<lambda>s.
     Option.bind (take_num 2 s) (\<lambda>(sec, s). Option.bind (take_char CHR ''.'' s) (\<lambda>s.
     Option.bind (take_num 3 s) (\<lambda>(ms, s).
       if s = ''Z'' \<and> legal_day y m d \<and> h < 24 \<and> mi < 60 \<and> sec < 60
       then Some (make_day (int y) (int m - 1) (int d) * ms_per_day + int h * 3600000 + int mi * 60000
                  + int sec * 1000 + int ms)
       else None)))))))))))))"

section \<open>Numbers of values\<close>

text \<open>
  \<^verbatim>\<open>Number(v)\<close>, which \<^verbatim>\<open>v * 1000\<close> applies too; \<^term>\<open>None\<close> is NaN. The literal \<^verbatim>\<open>Infinity\<close> is not modelled.
\<close>

definition is_decimal :: "string \<Rightarrow> bool" where
  "is_decimal t =
     (let u = (if starts_with t ''-'' \<or> starts_with t ''+'' then tl t else t);
          ds = takeWhile is_digit u; r = dropWhile is_digit u;
          fs = (if starts_with r ''.'' then takeWhile is_digit (tl r) else []);
          q = (if starts_with r ''.'' then dropWhile is_digit (tl r) else r);
          e = (if q \<noteq> [] \<and> (starts_with (tl q) ''-'' \<or> starts_with (tl q) ''+'') then tl (tl q) else tl q)
      in (ds \<noteq> [] \<or> fs \<noteq> []) \<and> (q = [] \<or> (hd q = CHR ''e'' \<or> hd q = CHR ''E'') \<and> e \<noteq> [] \<and> list_all is_digit e))"

fun radix_val :: "nat \<Rightarrow> (char \<Rightarrow> nat option) \<Rightarrow> nat \<Rightarrow> string \<Rightarrow> nat option" where
  "radix_val b f acc [] = Some acc"
| "radix_val b f acc (c # s) = Option.bind (f c) (\<lambda>d. if d < b then radix_val b f (b * acc + d) s else None)"

definition digit_any :: "char \<Rightarrow> nat option" where
  "digit_any c =
     (if is_digit c then Some (code c - 48)
      else if 97 \<le> code c \<and> code c \<le> 102 then Some (code c - 87)
      else if 65 \<le> code c \<and> code c \<le> 70 then Some (code c - 55) else None)"

definition radix_prefix :: "string \<Rightarrow> nat option" where
  "radix_prefix t =
     (case t of
        z # x # _ # _ \<Rightarrow>
          if z \<noteq> CHR ''0'' then None
          else if x = CHR ''x'' \<or> x = CHR ''X'' then Some 16
          else if x = CHR ''o'' \<or> x = CHR ''O'' then Some 8
          else if x = CHR ''b'' \<or> x = CHR ''B'' then Some 2 else None
      | _ \<Rightarrow> None)"

definition number_text :: "string \<Rightarrow> rat option" where
  "number_text s =
     (let t = trim s in
      if t = [] then Some 0
      else case radix_prefix t of
        Some b \<Rightarrow> map_option (\<lambda>n. fl (of_nat n)) (radix_val b digit_any 0 (drop 2 t))
      | None \<Rightarrow> if is_decimal t then (case parse_float t of Num x \<Rightarrow> Some x | _ \<Rightarrow> None) else None)"

fun to_number :: "jv \<Rightarrow> rat option" where
  "to_number Undefined = None"
| "to_number Null = Some 0"
| "to_number (Bool b) = Some (if b then 1 else 0)"
| "to_number (Num x) = Some x"
| "to_number NaN = None"
| "to_number (Str s) = number_text s"
| "to_number (Arr xs) = number_text (js_text (Arr xs))"
| "to_number (Obj ps) = None"

text \<open>\<^verbatim>\<open>new Date(x)\<close> for a number: the integer part, if it is a time value.\<close>

definition date_of :: "rat option \<Rightarrow> int option" where
  "date_of x = (case x of None \<Rightarrow> None | Some r \<Rightarrow> time_clip (if r < 0 then \<lceil>r\<rceil> else \<lfloor>r\<rfloor>))"

text \<open>\<^verbatim>\<open>new Date(v)\<close> for a value that came through JSON.\<close>

definition date_value :: "(string \<Rightarrow> int option) \<Rightarrow> jv \<Rightarrow> int option" where
  "date_value other v =
     (case v of
        Str s \<Rightarrow> (case parse_iso s of Some t \<Rightarrow> time_clip t | None \<Rightarrow> other s)
      | Arr xs \<Rightarrow> other (js_text v)
      | Obj ps \<Rightarrow> other (js_text v)
      | _ \<Rightarrow> date_of (to_number v))"

text \<open>
  \<^verbatim>\<open>x.toFixed(d)\<close>: the nearest multiple of \<open>10 ^ -d\<close>, the larger one of two, of the absolute value.
\<close>

definition fixed_text :: "nat \<Rightarrow> rat \<Rightarrow> string" where
  "fixed_text d x =
     (let n = nat \<lfloor>x * 10 ^ d + 1 / 2\<rfloor>
      in show_nat (n div 10 ^ d) @ (if d = 0 then [] else ''.'' @ pad d (n mod 10 ^ d)))"

definition toFixed :: "nat \<Rightarrow> jv \<Rightarrow> string" where
  "toFixed d v =
     (case v of
        Num x \<Rightarrow> if \<bar>x\<bar> \<ge> 10 ^ 21 then show_num x
                 else if x < 0 then ''-'' @ fixed_text d (- x) else fixed_text d x
      | _ \<Rightarrow> ''NaN'')"

section \<open>Round trip\<close>

lemma length_show_nat: "n < 10 ^ w \<Longrightarrow> 0 < w \<Longrightarrow> length (show_nat n) \<le> w"
proof (induction n arbitrary: w rule: show_nat.induct)
  case (1 n)
  show ?case
  proof (cases "n < 10")
    case True
    then show ?thesis using 1(3) by (subst show_nat.simps) simp
  next
    case False
    have "w \<noteq> 1" using 1(2) False by auto
    then obtain v where w: "w = Suc v" "0 < v" using 1(3) by (cases w) auto
    have "n div 10 < 10 ^ v" using 1(2) w by (simp add: div_less_iff_less_mult mult.commute)
    then show ?thesis using 1(1) [OF False _ w(2)] False w by (subst show_nat.simps) simp
  qed
qed

lemma digits_val_zeros: "digits_val (replicate k CHR ''0'' @ s) = digits_val s"
  by (induction k) (simp_all add: digits_val_zero [simplified])

lemma pad_digits: "list_all is_digit (pad w n)"
  using show_nat_digits [of n] by (auto simp: pad_def list_all_iff is_digit_def)

lemma length_pad: "n < 10 ^ w \<Longrightarrow> 0 < w \<Longrightarrow> length (pad w n) = w"
  using length_show_nat [of n w] by (simp add: pad_def)

lemma take_num_pad: "n < 10 ^ w \<Longrightarrow> 0 < w \<Longrightarrow> take_num w (pad w n @ r) = Some (n, r)"
  using length_pad [of n w] pad_digits [of w n] by (simp add: take_num_def pad_def digits_val_zeros)

lemma take_char_Cons [simp]: "take_char c (c # r) = Some r"
  by (simp add: take_char_def)

lemma parse_iso_fields:
  assumes "y < 10000" "m < 100" "d < 100" "h < 24" "mi < 60" "sec < 60" "ms < 1000" "legal_day y m d"
  shows "parse_iso (pad 4 y @ ''-'' @ pad 2 m @ ''-'' @ pad 2 d @ ''T'' @ pad 2 h @ '':'' @ pad 2 mi @ '':'' @ pad 2 sec @ ''.'' @
       pad 3 ms @ ''Z'') =
     Some (make_day (int y) (int m - 1) (int d) * ms_per_day + int h * 3600000 + int mi * 60000 + int sec * 1000 + int ms)"
proof -
  have n: "take_num 4 (pad 4 y @ r) = Some (y, r)" "take_num 2 (pad 2 m @ r) = Some (m, r)" "take_num 2 (pad 2 d @ r) = Some (d, r)"
      "take_num 2 (pad 2 h @ r) = Some (h, r)" "take_num 2 (pad 2 mi @ r) = Some (mi, r)" "take_num 2 (pad 2 sec @ r) = Some (sec, r)"
      "take_num 3 (pad 3 ms @ r) = Some (ms, r)" for r
    using assms by (intro take_num_pad; simp)+
  show ?thesis using assms(4-6,8) by (simp add: parse_iso_def n)
qed

lemma month_date_bound:
  "month_date ls k d = (m, dt) \<Longrightarrow> 0 \<le> d \<Longrightarrow> d < sum_list ls \<Longrightarrow> dt \<le> ls ! (m - k)"
proof (induction ls k d rule: month_date.induct)
  case (2 l ls k d)
  show ?case
  proof (cases "d < l")
    case False
    with 2 have m: "month_date ls (Suc k) (d - l) = (m, dt)" "0 \<le> d - l" "d - l < sum_list ls" by simp_all
    have "Suc k \<le> m" using month_date_inverse [OF m(1)] by simp
    then have "m - k = Suc (m - Suc k)" by linarith
    then show ?thesis using 2(1) [OF False m] by simp
  qed (use 2 in auto)
qed simp

lemma utc_date_legal:
  assumes "f = utc_of t"
  shows "utc_date f \<le> month_lengths (utc_year f) ! utc_month f"
    and "make_day (utc_year f) (int (utc_month f)) (utc_date f) = t div ms_per_day"
proof -
  let ?d = "t div ms_per_day"
  let ?y = "year_from_day ?d"
  obtain m dt where md: "month_date (month_lengths ?y) 0 (?d - day_from_year ?y) = (m, dt)" by fastforce
  have f: "utc_year f = ?y" "utc_month f = m" "utc_date f = dt"
    by (simp_all add: assms utc_of_def md Let_def)
  have rng: "0 \<le> ?d - day_from_year ?y" "?d - day_from_year ?y < sum_list (month_lengths ?y)"
    using year_from_day_bounds [of ?d] year_length [of ?y] sum_month_lengths [of ?y] by linarith+
  show "utc_date f \<le> month_lengths (utc_year f) ! utc_month f" using month_date_bound [OF md rng] by (simp add: f)
  show "make_day (utc_year f) (int (utc_month f)) (utc_date f) = ?d" using utc_day_inverse(3) [OF md] by (simp add: f)
qed

lemma month_length_le: "m < 12 \<Longrightarrow> month_lengths y ! m \<le> 31"
  by (auto simp: less_Suc_eq numeral_eq_Suc month_lengths_def)

definition iso_range :: "int \<Rightarrow> bool" where
  "iso_range t \<longleftrightarrow> 0 \<le> utc_year (utc_of t) \<and> utc_year (utc_of t) \<le> 9999"

lemma parse_iso_text:
  assumes "iso_range t"
  shows "parse_iso (iso_text t) = Some t"
proof -
  define f where "f = utc_of t"
  have y: "0 \<le> utc_year f" "utc_year f \<le> 9999" using assms by (simp_all add: iso_range_def f_def)
  note r = utc_fields_range [OF f_def] and l = utc_date_legal [OF f_def]
  have d: "utc_date f \<le> 31" using l(1) month_length_le [of "utc_month f" "utc_year f"] r by linarith
  have leg: "legal_day (nat (utc_year f)) (utc_month f + 1) (nat (utc_date f))"
    using r l(1) y by (simp add: legal_day_def) linarith
  have m0: "0 \<le> t mod 1000" "t mod 1000 < 1000" by simp_all
  have ms: "int (nat (t mod 1000)) = t mod 1000" "nat (t mod 1000) < 1000" using m0 by linarith+
  have hms: "utc_hours f = t div 3600000 mod 24" "utc_minutes f = t div 60000 mod 60" "utc_seconds f = t div 1000 mod 60"
    by (simp_all add: f_def utc_of_def Let_def split: prod.split)
  have sum: "t div ms_per_day * ms_per_day + utc_hours f * 3600000 + utc_minutes f * 60000 + utc_seconds f * 1000 + t mod 1000 = t"
    using utc_time_inverse [of t] unfolding hms ms_per_day_def by linarith
  have iy: "iso_year (utc_year f) = pad 4 (nat (utc_year f))" using y by (simp add: iso_year_def)
  have b: "nat (utc_year f) < 10000" "utc_month f + 1 < 100" "nat (utc_date f) < 100" "nat (utc_hours f) < 24"
      "nat (utc_minutes f) < 60" "nat (utc_seconds f) < 60" "nat (t mod 1000) < 1000"
    using r d y ms by (simp_all add: nat_less_iff)
  have i: "int (nat (utc_year f)) = utc_year f" "int (nat (utc_date f)) = utc_date f" "int (nat (utc_hours f)) = utc_hours f"
      "int (nat (utc_minutes f)) = utc_minutes f" "int (nat (utc_seconds f)) = utc_seconds f" "int (utc_month f + 1) - 1 = int (utc_month f)"
    using r y by simp_all
  have "parse_iso (iso_text t) =
      Some (make_day (utc_year f) (int (utc_month f)) (utc_date f) * ms_per_day + utc_hours f * 3600000 + utc_minutes f * 60000
            + utc_seconds f * 1000 + t mod 1000)"
    unfolding iso_text_def f_def [symmetric] Let_def iy parse_iso_fields [OF b leg] i ms(1) ..
  then show ?thesis by (simp only: l(2) sum)
qed

lemma iso_range_1970: "0 \<le> t \<Longrightarrow> t < 253402300800000 \<Longrightarrow> iso_range t"
proof -
  assume t: "0 \<le> t" "t < 253402300800000"
  let ?d = "t div ms_per_day"
  have y: "utc_year (utc_of t) = year_from_day ?d" by (simp add: utc_of_def Let_def split: prod.split)
  have "?d < day_from_year 10000" using t(2) by (simp add: ms_per_day_def day_from_year_def div_less_iff_less_mult)
  moreover have "day_from_year 10000 \<le> day_from_year (year_from_day ?d)" if "10000 \<le> year_from_day ?d"
    using day_from_year_mono [of "year_from_day ?d - 10000" 10000] that by simp
  ultimately have "year_from_day ?d \<le> 9999" using year_from_day_bounds [of ?d] by linarith
  then show ?thesis using utc_year_ge_1970 [OF t(1)] by (simp add: iso_range_def y)
qed

interpretation iso: codec iso_text parse_iso iso_range
  by unfold_locales (rule parse_iso_text)

end
