(* ===== verification/Reslens_Node.thy ===== *)
theory Reslens_Node
  imports Reslens_Metrics JS_ISO
begin

text \<open>
  The disk and CPU metrics of ResLens, from Prometheus to the charts: \<^verbatim>\<open>controllers/nodeExporter.js\<close> of the middleware and
  the fetching functions of the dashboard's \<^verbatim>\<open>memoryMetricsGrid.tsx\<close>. Prometheus is the parameter \<open>get\<close>, the reply to
  the request of a URL; the sample data of the offline mode and the format of local times are parameters too.
  Numbers cross the wire unchanged, NaN becomes null.
\<close>

section \<open>Middleware\<close>

fun map_res :: "('a \<Rightarrow> 'b res) \<Rightarrow> 'a list \<Rightarrow> 'b list res" where
  "map_res f [] = Inr []"
| "map_res f (x # xs) = bind_res (f x) (\<lambda>y. bind_res (map_res f xs) (\<lambda>ys. Inr (y # ys)))"

text \<open>\<^verbatim>\<open>v.map(f)\<close>\<close>

definition jmap :: "(jv \<Rightarrow> jv res) \<Rightarrow> jv \<Rightarrow> jv res" where
  "jmap f v = (case v of
     Arr xs \<Rightarrow> bind_res (map_res f xs) (\<lambda>ys. Inr (Arr ys))
   | _ \<Rightarrow> bind_res (jget v ''map'') (\<lambda>_. Inl (TypeError ''map is not a function'')))"

text \<open>A parameter of the request with its default.\<close>

definition body_text :: "jv \<Rightarrow> string \<Rightarrow> string \<Rightarrow> string" where
  "body_text body k dflt = (case oprop body k of Undefined \<Rightarrow> dflt | v \<Rightarrow> js_text v)"

definition node_url :: "url_parser \<Rightarrow> env \<Rightarrow> string \<Rightarrow> string \<Rightarrow> jv \<Rightarrow> string res" where
  "node_url parse e query from body =
     bind_res (getEnv e ''NODE_EXPORTER_BASE_URL'' None) (\<lambda>base.
       buildUrl parse base
         [(''query'', query), (''start'', body_text body ''from'' from), (''end'', body_text body ''until'' ''now''),
          (''step'', body_text body ''step'' ''28'')])"

definition error_or :: "string \<Rightarrow> js_error \<Rightarrow> jv" where
  "error_or m err = Obj [(''error'', Str (if err_message err = [] then m else err_message err))]"

definition answer_400 :: "string \<Rightarrow> jv res \<Rightarrow> jv sent_reply" where
  "answer_400 m r = (case r of Inr v \<Rightarrow> Sent (Obj [(''data'', v)]) | Inl err \<Rightarrow> Failed 400 (error_or m err))"

text \<open>\<^verbatim>\<open>response?.data?.data?.result.filter(p)\<close>\<close>

definition matching :: "(jv \<Rightarrow> bool) \<Rightarrow> jv \<Rightarrow> jv list res" where
  "matching p reply =
     (let d = oprop reply ''data'' in
      if d = Undefined \<or> d = Null then bind_res (jget Undefined ''length'') (\<lambda>_. Inr [])
      else case oprop d ''result'' of
        Arr xs \<Rightarrow> Inr (filter p xs)
      | v \<Rightarrow> bind_res (jget v ''filter'') (\<lambda>_. Inl (TypeError ''filter is not a function'')))"

definition metric_is :: "string \<Rightarrow> string \<Rightarrow> jv \<Rightarrow> bool" where
  "metric_is k t val = (oprop (oprop val ''metric'') k = Str t)"

definition getCpuUsage :: "url_parser \<Rightarrow> env \<Rightarrow> jv http \<Rightarrow> jv \<Rightarrow> jv sent_reply res" where
  "getCpuUsage parse e get body =
     bind_res (jget body ''query'') (\<lambda>query.
     bind_res (node_url parse e (js_text query) ''now-5m'' body) (\<lambda>u.
       Inr (answer_400 ''An error occurred''
         (bind_res (get u) (\<lambda>reply.
          bind_res (matching (metric_is ''groupname'' ''kv_service'') reply) (\<lambda>d.
            Inr (case d of [] \<Rightarrow> Arr [] | x # _ \<Rightarrow> oprop x ''values'')))))))"

text \<open>The pattern \<^verbatim>\<open>[timestamp, value]\<close>.\<close>

definition sample_of :: "jv \<Rightarrow> (jv \<times> jv) res" where
  "sample_of v =
     (case v of
        Arr xs \<Rightarrow> Inr (case xs of a # b # _ \<Rightarrow> (a, b) | [a] \<Rightarrow> (a, Undefined) | [] \<Rightarrow> (Undefined, Undefined))
      | Str s \<Rightarrow> Inr (case s of a # b # _ \<Rightarrow> (Str [a], Str [b]) | [a] \<Rightarrow> (Str [a], Undefined) | [] \<Rightarrow> (Undefined, Undefined))
      | _ \<Rightarrow> Inl (TypeError ''value is not iterable''))"

definition seconds_text :: "jv \<Rightarrow> string res" where
  "seconds_text ts = toISOString (date_of (map_option (\<lambda>x. dmul x 1000) (to_number ts)))"

definition format_sample :: "(jv \<Rightarrow> jv) \<Rightarrow> jv \<Rightarrow> jv res" where
  "format_sample f v =
     bind_res (sample_of v) (\<lambda>(timestamp, x).
     bind_res (seconds_text timestamp) (\<lambda>t. Inr (Obj [(''time'', Str t), (''value'', f x)])))"

definition parseFloat :: "jv \<Rightarrow> jv" where
  "parseFloat v = parse_float (js_text v)"

definition getDiskIOPS :: "url_parser \<Rightarrow> env \<Rightarrow> jv http \<Rightarrow> jv \<Rightarrow> jv sent_reply res" where
  "getDiskIOPS parse e get body =
     bind_res (jget body ''from'') (\<lambda>_.
     bind_res (node_url parse e
         ''rate(node_disk_writes_completed_total{device='vda',job='node_exporter'}[5m])'' ''now-12h'' body) (\<lambda>u.
       Inr (answer_400 ''An error occurred while fetching the DiskIOPS data''
         (bind_res (get u) (\<lambda>reply.
          bind_res (matching (\<lambda>val. metric_is ''device'' ''vda'' val \<and> metric_is ''job'' ''node_exporter'' val) reply) (\<lambda>d.
            case d of
              [] \<Rightarrow> Inr (Arr [])
            | x # _ \<Rightarrow> if x = Undefined \<or> x = Null then Inr Undefined
                       else jmap (format_sample (\<lambda>v. Str (toFixed 2 (parseFloat v)))) (oprop x ''values'')))))))"

text \<open>\<^verbatim>\<open>response?.data?.data?.result?.[0]?.values || []\<close>\<close>

definition first_of :: "jv \<Rightarrow> jv" where
  "first_of v = (case v of Arr (x # _) \<Rightarrow> x | Str (c # _) \<Rightarrow> Str [c] | Obj ps \<Rightarrow> own ps ''0'' | _ \<Rightarrow> Undefined)"

definition series :: "jv \<Rightarrow> jv" where
  "series reply = js_or (oprop (first_of (oprop (oprop reply ''data'') ''result'')) ''values'') (Arr [])"

definition formatted :: "jv \<Rightarrow> jv res" where
  "formatted values = jmap (format_sample parseFloat) values"

definition fetch_series :: "url_parser \<Rightarrow> env \<Rightarrow> jv http \<Rightarrow> jv \<Rightarrow> string \<Rightarrow> jv res" where
  "fetch_series parse e get body query =
     bind_res (node_url parse e query ''now-5m'' body) (\<lambda>u. bind_res (get u) (\<lambda>reply. Inr (series reply)))"

definition getTimeSpentDoingIO :: "url_parser \<Rightarrow> env \<Rightarrow> jv http \<Rightarrow> jv \<Rightarrow> jv sent_reply res" where
  "getTimeSpentDoingIO parse e get body =
     bind_res (jget body ''from'') (\<lambda>_.
       Inr (answer_400 ''Failed to fetch Disk IO Time data''
         (bind_res (fetch_series parse e get body
             ''rate(node_disk_io_time_seconds_total{device='vda', job='node_exporter'}[5m])'') formatted)))"

text \<open>
  Two queries at once. \<^verbatim>\<open>Promise.all\<close> rejects with the error that comes first; \<open>second_first\<close> says whether that is the one
  of the second query when both fail.
\<close>

definition both :: "bool \<Rightarrow> 'a res \<Rightarrow> 'a res \<Rightarrow> ('a \<times> 'a) res" where
  "both second_first a b =
     (case (a, b) of
        (Inr x, Inr y) \<Rightarrow> Inr (x, y)
      | (Inl e, Inl f) \<Rightarrow> Inl (if second_first then f else e)
      | (Inl e, Inr _) \<Rightarrow> Inl e
      | (Inr _, Inl f) \<Rightarrow> Inl f)"

definition two_series :: "bool \<Rightarrow> url_parser \<Rightarrow> env \<Rightarrow> jv http \<Rightarrow> jv \<Rightarrow> string \<times> string \<Rightarrow> string \<times> string \<Rightarrow> jv res" where
  "two_series second_first parse e get body q1 q2 =
     bind_res (both second_first (fetch_series parse e get body (snd q1)) (fetch_series parse e get body (snd q2)))
       (\<lambda>(v1, v2). bind_res (formatted v1) (\<lambda>f1. bind_res (formatted v2) (\<lambda>f2. Inr (Obj [(fst q1, f1), (fst q2, f2)]))))"

definition getDiskWaitTime :: "bool \<Rightarrow> url_parser \<Rightarrow> env \<Rightarrow> jv http \<Rightarrow> jv \<Rightarrow> jv sent_reply res" where
  "getDiskWaitTime second_first parse e get body =
     bind_res (jget body ''from'') (\<lambda>_.
       Inr (answer_400 ''An error occurred while fetching Disk Wait Time data''
         (two_series second_first parse e get body
           (''readWaitTime'', ''rate(node_disk_read_time_seconds_total{device='vda'}[5m]) / rate(node_disk_reads_completed_total{device='vda'}[5m])'')
           (''writeWaitTime'', ''rate(node_disk_write_time_seconds_total{device='vda'}[5m]) / rate(node_disk_writes_completed_total{device='vda'}[5m])''))))"

definition getDiskRWData :: "bool \<Rightarrow> url_parser \<Rightarrow> env \<Rightarrow> jv http \<Rightarrow> jv \<Rightarrow> jv sent_reply res" where
  "getDiskRWData second_first parse e get body =
     bind_res (jget body ''from'') (\<lambda>_.
       Inr (answer_400 ''An error occurred while fetching Disk Merged Data''
         (two_series second_first parse e get body
           (''readMerged'', ''rate(node_disk_reads_merged_total{device='vda'}[5m])'')
           (''writeMerged'', ''rate(node_disk_writes_merged_total{device='vda'}[5m])''))))"

section \<open>Dashboard\<close>

text \<open>What a reply is after the way through JSON.\<close>

fun wire :: "jv \<Rightarrow> jv" where
  "wire NaN = Null"
| "wire (Arr xs) = Arr (map (\<lambda>v. case v of Undefined \<Rightarrow> Null | _ \<Rightarrow> wire v) xs)"
| "wire (Obj ps) = Obj (map (\<lambda>(k, v). (k, wire v)) (filter (\<lambda>(k, v). v \<noteq> Undefined) ps))"
| "wire v = v"

text \<open>
  What the client gets: \<^term>\<open>None\<close> if the handler failed outside its \<^verbatim>\<open>try\<close> block, which leaves the request unanswered; a status
  other than success rejects.
\<close>

definition deliver :: "jv sent_reply res \<Rightarrow> jv res option" where
  "deliver r =
     (case r of
        Inl _ \<Rightarrow> None
      | Inr (Sent v) \<Rightarrow> Some (Inr (wire v))
      | Inr (Failed n _) \<Rightarrow> Some (Inl (Error (''Request failed with status code '' @ show_nat n))))"

record disk_panel =
  ioTimeData :: jv
  diskRWData :: jv
  diskIOPSData :: jv
  diskWaitTimeData :: jv
  loadingDiskIOPS :: bool
  errorDiskIOPS :: jv
  toasts_shown :: nat

definition new_panel :: disk_panel where
  "new_panel = \<lparr>ioTimeData = Arr [], diskRWData = Arr [], diskIOPSData = Arr [], diskWaitTimeData = Arr [],
     loadingDiskIOPS = False, errorDiskIOPS = Null, toasts_shown = 0\<rparr>"

text \<open>The body of a request for the last hour, at time \<open>now\<close> in milliseconds.\<close>

definition seconds_num :: "int \<Rightarrow> jv" where
  "seconds_num ms = parse_float (toFixed 3 (Num (ddiv (of_int ms) 1000)))"

definition last_hour :: "int \<Rightarrow> jv" where
  "last_hour now = Obj [(''from'', seconds_num (now - 3600000)), (''until'', seconds_num now), (''step'', Num 14)]"

definition floor_ms :: "jv \<Rightarrow> jv" where
  "floor_ms v = (case to_number v of None \<Rightarrow> NaN | Some x \<Rightarrow> Num (of_int \<lfloor>dmul x 1000\<rfloor>))"

type_synonym clock = "(string \<Rightarrow> int option) \<times> (int option \<Rightarrow> string)"

text \<open>\<open>K\<close> is how the platform reads other date formats and prints local times.\<close>

definition time_name :: "clock \<Rightarrow> jv \<Rightarrow> jv" where
  "time_name K v = Str (snd K (date_value (fst K) v))"

definition processMetricData :: "clock \<Rightarrow> (jv \<Rightarrow> jv) \<Rightarrow> (string \<times> jv) list \<Rightarrow> jv \<Rightarrow> jv res" where
  "processMetricData K f label metricData =
     jmap (\<lambda>item. bind_res (jget item ''time'') (\<lambda>t.
       Inr (Obj ([(''name'', time_name K t), (''value'', f (oprop item ''value''))] @ label)))) metricData"

text \<open>
  A fetch sets the loading state, waits for the reply, and stores the points or the message of the error; a request
  without an answer leaves it loading.
\<close>

definition fetch_panel :: "string \<Rightarrow> jv res option \<Rightarrow> (jv \<Rightarrow> jv res) \<Rightarrow> (jv \<Rightarrow> disk_panel \<Rightarrow> disk_panel) \<Rightarrow> disk_panel \<Rightarrow> disk_panel" where
  "fetch_panel msg reply points store p =
     (let p1 = p\<lparr>loadingDiskIOPS := True, errorDiskIOPS := Null\<rparr>
      in case reply of
           None \<Rightarrow> p1
         | Some r \<Rightarrow>
             (case bind_res r points of
                Inr v \<Rightarrow> (store v p1)\<lparr>loadingDiskIOPS := False\<rparr>
              | Inl err \<Rightarrow> p1\<lparr>errorDiskIOPS := Str (if err_message err = [] then msg else err_message err),
                              loadingDiskIOPS := False\<rparr>))"

type_synonym api = "string \<Rightarrow> jv \<Rightarrow> jv res option"

definition fetchIoTimeData :: "clock \<Rightarrow> api \<Rightarrow> int \<Rightarrow> bool \<Rightarrow> jv \<Rightarrow> disk_panel \<Rightarrow> disk_panel" where
  "fetchIoTimeData K post now offline sample p =
     (if offline then p\<lparr>ioTimeData := oprop sample ''data'', toasts_shown := toasts_shown p + 1\<rparr>
      else fetch_panel ''Failed to fetch Disk IO Time data.'' (post ''/nodeExporter/getTimeSpentDoingIO'' (last_hour now))
        (\<lambda>d. if d = Undefined \<or> d = Null then Inr Undefined
             else processMetricData K floor_ms [] (oprop d ''data''))
        (\<lambda>v q. q\<lparr>ioTimeData := v\<rparr>) p)"

text \<open>\<^verbatim>\<open>[...a, ...b]\<close>\<close>

definition spread2 :: "jv \<Rightarrow> jv \<Rightarrow> jv" where
  "spread2 a b = (case (a, b) of (Arr xs, Arr ys) \<Rightarrow> Arr (xs @ ys) | _ \<Rightarrow> Undefined)"

definition read_write :: "clock \<Rightarrow> string \<times> string \<Rightarrow> string \<times> string \<Rightarrow> jv \<Rightarrow> jv res" where
  "read_write K r w d =
     bind_res (processMetricData K floor_ms [(''metric'', Str (snd r))] (oprop (oprop d ''data'') (fst r))) (\<lambda>a.
     bind_res (processMetricData K floor_ms [(''metric'', Str (snd w))] (oprop (oprop d ''data'') (fst w))) (\<lambda>b.
       Inr (spread2 a b)))"

definition fetchDiskRWData :: "clock \<Rightarrow> api \<Rightarrow> int \<Rightarrow> bool \<Rightarrow> jv \<Rightarrow> disk_panel \<Rightarrow> disk_panel" where
  "fetchDiskRWData K post now offline sample p =
     (if offline then p\<lparr>diskRWData := oprop (oprop sample ''data'') ''writeMerged''\<rparr>
      else fetch_panel ''Failed to fetch Disk Merged Data.'' (post ''/nodeExporter/getDiskRWData'' (last_hour now))
        (read_write K (''readMerged'', ''Read Merged'') (''writeMerged'', ''Write Merged'')) (\<lambda>v q. q\<lparr>diskRWData := v\<rparr>) p)"

definition fetchDiskIOPSData :: "clock \<Rightarrow> api \<Rightarrow> int \<Rightarrow> bool \<Rightarrow> jv \<Rightarrow> disk_panel \<Rightarrow> disk_panel" where
  "fetchDiskIOPSData K post now offline sample p =
     (if offline then p\<lparr>diskIOPSData := oprop sample ''data''\<rparr>
      else fetch_panel ''Failed to fetch Disk IOPS data.'' (post ''/nodeExporter/getDiskIOPS'' (last_hour now))
        (\<lambda>d. processMetricData K (\<lambda>v. Str (toFixed 2 (parseFloat v))) [] (js_or (oprop d ''data'') (Arr [])))
        (\<lambda>v q. q\<lparr>diskIOPSData := v\<rparr>) p)"

definition fetchDiskWaitTimeData :: "clock \<Rightarrow> api \<Rightarrow> int \<Rightarrow> bool \<Rightarrow> jv \<Rightarrow> disk_panel \<Rightarrow> disk_panel" where
  "fetchDiskWaitTimeData K post now offline sample p =
     (if offline then p\<lparr>diskWaitTimeData := oprop (oprop sample ''data'') ''writeWaitTime''\<rparr>
      else fetch_panel ''Failed to fetch Disk Wait Time data.'' (post ''/nodeExporter/getDiskWaitTime'' (last_hour now))
        (read_write K (''readWaitTime'', ''Read'') (''writeWaitTime'', ''Write'')) (\<lambda>v q. q\<lparr>diskWaitTimeData := v\<rparr>) p)"

text \<open>The middleware as the dashboard sees it.\<close>

definition node_api :: "bool \<Rightarrow> url_parser \<Rightarrow> env \<Rightarrow> jv http \<Rightarrow> api" where
  "node_api sf parse e get path body =
     (let b = wire body in
      if path = ''/nodeExporter/getCpuUsage'' then deliver (getCpuUsage parse e get b)
      else if path = ''/nodeExporter/getDiskIOPS'' then deliver (getDiskIOPS parse e get b)
      else if path = ''/nodeExporter/getDiskWaitTime'' then deliver (getDiskWaitTime sf parse e get b)
      else if path = ''/nodeExporter/getTimeSpentDoingIO'' then deliver (getTimeSpentDoingIO parse e get b)
      else if path = ''/nodeExporter/getDiskRWData'' then deliver (getDiskRWData sf parse e get b)
      else Some (Inl (Error ''Request failed with status code 404'')))"

section \<open>Lemmas\<close>

text \<open>The seconds of a time in milliseconds survive their way through \<^verbatim>\<open>toFixed(3)\<close> and \<^verbatim>\<open>parseFloat\<close>.\<close>

lemma digits_val_append: "digits_val (a @ b) = digits_val a * 10 ^ length b + digits_val b"
  by (induction b rule: rev_induct) (simp_all add: digits_val_snoc digits_val_def [of "[]"] algebra_simps flip: append_assoc)

lemma pow2_le: "k \<le> - int n \<Longrightarrow> pow2 k \<le> 1 / 2 ^ n"
proof -
  assume k: "k \<le> - int n"
  have e: "pow2 k = 1 / 2 ^ nat (- k)" using k by (cases "k = 0") (simp_all add: pow2_def)
  have "n \<le> nat (- k)" using k by linarith
  then have "(2 :: rat) ^ n \<le> 2 ^ nat (- k)" by (rule power_increasing) simp
  then show ?thesis by (simp add: e frac_le)
qed

lemma fl_seconds:
  assumes "0 \<le> ms" "ms < 2 ^ 51"
  shows "\<bar>ddiv (of_int ms) 1000 - of_int ms / 1000\<bar> \<le> 1 / 4096"
proof (cases "ms = 0")
  case False
  let ?x = "of_int ms / 1000 :: rat"
  have "of_int ms < (2 ^ 51 :: rat)" using assms(2) by (metis of_int_less_numeral_power_cancel_iff)
  then have "?x < 2 ^ Suc 41" by simp
  then have "ilog2 ?x \<le> 41" using ilog2_le [of ?x 41] assms(1) False by simp
  moreover have "\<bar>?x\<bar> = ?x" using assms(1) by simp
  ultimately have "max (ilog2 \<bar>?x\<bar> - 52) (- 1074) \<le> - 11" by simp
  then have "pow2 (max (ilog2 \<bar>?x\<bar> - 52) (- 1074)) \<le> 1 / 2 ^ 11" by (intro pow2_le) simp
  then show ?thesis using fl_error [of ?x] by (simp add: ddiv_def)
qed (simp add: ddiv_def)

lemma fixed_seconds:
  assumes "0 \<le> ms" "ms < 2 ^ 51"
  shows "toFixed 3 (Num (ddiv (of_int ms) 1000)) = show_nat (nat ms div 1000) @ ''.'' @ pad 3 (nat ms mod 1000)"
proof -
  let ?y = "ddiv (of_int ms) 1000"
  have b: "of_int ms / 1000 - 1 / 4096 \<le> ?y" "?y \<le> of_int ms / 1000 + 1 / 4096"
    using fl_seconds [OF assms] unfolding abs_le_iff by linarith+
  have ms: "of_int ms < (2 ^ 51 :: rat)" using assms(2) by (metis of_int_less_numeral_power_cancel_iff)
  have y: "0 \<le> ?y"
  proof (cases "ms = 0")
    case False
    then have "(1 :: rat) \<le> of_int ms" using assms(1) by simp
    then show ?thesis using b by linarith
  qed (simp add: ddiv_def)
  have "of_int ms \<le> ?y * 10 ^ 3 + 1 / 2" "?y * 10 ^ 3 + 1 / 2 < of_int ms + 1" using b by simp_all
  then have "\<lfloor>?y * 10 ^ 3 + 1 / 2\<rfloor> = ms" by (simp only: floor_eq_iff)
  moreover have "\<not> 10 ^ 21 \<le> \<bar>?y\<bar>" using b y ms by simp
  ultimately show ?thesis using y by (simp add: toFixed_def fixed_text_def Let_def)
qed

lemma seconds_num_exact:
  assumes "0 \<le> ms" "ms < 2 ^ 51"
  shows "seconds_num ms = Num (ddiv (of_int ms) 1000)"
proof -
  define a where "a = show_nat (nat ms div 1000)"
  define b where "b = pad 3 (nat ms mod 1000)"
  have a: "takeWhile is_digit (a @ CHR ''.'' # b) = a" "dropWhile is_digit (a @ CHR ''.'' # b) = CHR ''.'' # b" "a \<noteq> []" "digits_val a = nat ms div 1000"
    using show_nat_digits [of "nat ms div 1000"] by (auto simp: a_def takeWhile_append dropWhile_append is_digit_def subset_iff)
  have b: "takeWhile is_digit b = b" "dropWhile is_digit b = []" "length b = 3" "digits_val b = nat ms mod 1000"
    using pad_digits [of 3 "nat ms mod 1000"] length_pad [of "nat ms mod 1000" 3]
    by (auto simp: b_def list_all_iff pad_def digits_val_zeros)
  obtain c cs where c: "a = c # cs" "is_digit c"
    using a(3) show_nat_digits [of "nat ms div 1000"] by (cases a) (auto simp: a_def)
  then have h: "dropWhile is_ws (a @ CHR ''.'' # b) = a @ CHR ''.'' # b" "\<not> starts_with (a @ CHR ''.'' # b) ''-''"
      "\<not> starts_with (a @ CHR ''.'' # b) ''+''"
    using digit_sign_free [of c] is_digit_not_ws [of c] by (auto simp: starts_with_def)
  have dot: "starts_with (CHR ''.'' # b) ''.''" by (simp add: starts_with_def)
  have "digits_val (a @ b) = nat ms" by (simp add: digits_val_append a(4) b(3,4))
  then have sc: "scale10 (of_nat (digits_val (a @ b))) (- 3) = of_int ms / 1000" using assms(1) by (simp add: scale10_def)
  have "parse_float (a @ CHR ''.'' # b) = Num (fl (of_int ms / 1000))"
    using a(3) by (simp add: parse_float_def Let_def h a(1,2) b(1-3) dot float_exp_def sc)
  then show ?thesis
    unfolding seconds_num_def fixed_seconds [OF assms] by (simp add: ddiv_def a_def b_def)
qed

text \<open>A reply of Prometheus with one series of samples, each a time in seconds and a text.\<close>

definition prom_sample :: "int \<times> string \<Rightarrow> jv" where
  "prom_sample x = Arr [Num (of_int (fst x)), Str (snd x)]"

definition prom_reply :: "(int \<times> string) list \<Rightarrow> jv" where
  "prom_reply xs = Obj [(''data'', Obj [(''result'', Arr [Obj [(''values'', Arr (map prom_sample xs))]])])]"

definition times_ok :: "(int \<times> string) list \<Rightarrow> bool" where
  "times_ok xs = list_all (\<lambda>(t, s). 0 \<le> t \<and> t < 253402300800) xs"

definition formatted_sample :: "int \<times> string \<Rightarrow> jv" where
  "formatted_sample x = Obj [(''time'', Str (iso_text (1000 * fst x))), (''value'', parse_float (snd x))]"

text \<open>The point of the chart: the local time, and thousandths rounded down; what is not a number is zero.\<close>

definition milli_value :: "string \<Rightarrow> rat" where
  "milli_value s = (case parse_float s of Num x \<Rightarrow> of_int \<lfloor>dmul x 1000\<rfloor> | _ \<Rightarrow> 0)"

definition chart_sample :: "clock \<Rightarrow> (string \<times> jv) list \<Rightarrow> int \<times> string \<Rightarrow> jv" where
  "chart_sample K label x =
     Obj ([(''name'', Str (snd K (Some (1000 * fst x)))), (''value'', Num (milli_value (snd x)))] @ label)"

lemma map_res_all: "\<forall>x \<in> set xs. f x = Inr (g x) \<Longrightarrow> map_res f xs = Inr (map g xs)"
  by (induction xs) simp_all

lemma series_reply [simp]: "series (prom_reply xs) = Arr (map prom_sample xs)"
  by (simp add: series_def prom_reply_def own_def first_of_def js_or_def)

lemma date_of_int: "0 \<le> k \<Longrightarrow> k \<le> 8640000000000000 \<Longrightarrow> date_of (Some (of_int k)) = Some k"
  by (simp add: date_of_def time_clip_def)

lemma format_prom_sample:
  assumes "0 \<le> t" "t < 253402300800"
  shows "format_sample parseFloat (prom_sample (t, s)) = Inr (formatted_sample (t, s))"
proof -
  have "dmul (of_int t) 1000 = of_int (1000 * t)"
    using dmul_safe [of t 1000] assms by (simp add: safe_def mult.commute)
  then have "date_of (Some (dmul (of_int t) 1000)) = Some (1000 * t)"
    using date_of_int [of "1000 * t"] assms by simp
  then show ?thesis
    by (simp add: format_sample_def prom_sample_def sample_of_def seconds_text_def toISOString_def formatted_sample_def parseFloat_def)
qed

lemma formatted_samples: "times_ok xs \<Longrightarrow> formatted (Arr (map prom_sample xs)) = Inr (Arr (map formatted_sample xs))"
proof -
  assume t: "times_ok xs"
  have "map_res (format_sample parseFloat) (map prom_sample xs) = Inr (map formatted_sample xs)"
    using t by (induction xs) (auto simp: times_ok_def format_prom_sample)
  then show ?thesis by (simp add: formatted_def jmap_def)
qed

lemma parse_float_cases: "parse_float s = NaN \<or> (\<exists>x. parse_float s = Num x)"
  by (simp add: parse_float_def Let_def)

lemma chart_wire_sample:
  assumes "0 \<le> t" "t < 253402300800"
  shows "bind_res (jget (wire (formatted_sample (t, s))) ''time'') (\<lambda>u.
       Inr (Obj ([(''name'', time_name K u), (''value'', floor_ms (oprop (wire (formatted_sample (t, s))) ''value''))] @ label)))
     = Inr (chart_sample K label (t, s))"
proof -
  have "parse_iso (iso_text (1000 * t)) = Some (1000 * t)"
    by (rule parse_iso_text, rule iso_range_1970) (use assms in simp_all)
  then have "time_name K (Str (iso_text (1000 * t))) = Str (snd K (Some (1000 * t)))"
    using assms by (simp add: time_name_def date_value_def time_clip_def)
  moreover have "floor_ms (wire (parse_float s)) = Num (milli_value s)" "parse_float s \<noteq> Undefined"
    using parse_float_cases [of s] by (auto simp: floor_ms_def milli_value_def double_ops)
  ultimately show ?thesis by (simp add: formatted_sample_def own_def chart_sample_def)
qed

lemma chart_samples:
  assumes "times_ok xs"
  shows "processMetricData K floor_ms label (wire (Arr (map formatted_sample xs))) = Inr (Arr (map (chart_sample K label) xs))"
proof -
  have m: "map_res (\<lambda>item. bind_res (jget item ''time'') (\<lambda>t.
       Inr (Obj ([(''name'', time_name K t), (''value'', floor_ms (oprop item ''value''))] @ label))))
     (map (\<lambda>x. wire (formatted_sample x)) xs) = Inr (map (chart_sample K label) xs)"
    using assms
  proof (induction xs)
    case (Cons x xs)
    obtain t s where x: "x = (t, s)" by (cases x)
    show ?case using Cons chart_wire_sample [of t s K label] by (simp add: times_ok_def x)
  qed simp
  have w: "wire (Arr (map formatted_sample xs)) = Arr (map (\<lambda>x. wire (formatted_sample x)) xs)"
    by (simp add: formatted_sample_def)
  show ?thesis unfolding w processMetricData_def jmap_def jv.case m by simp
qed

text \<open>A Prometheus server that answers by the parameters of the query.\<close>

definition serves_queries :: "url_parser \<Rightarrow> env \<Rightarrow> jv http \<Rightarrow> ((string \<times> string) list \<Rightarrow> (int \<times> string) list) \<Rightarrow> bool" where
  "serves_queries parse e get samples \<longleftrightarrow>
     (\<exists>base front. e ''NODE_EXPORTER_BASE_URL'' = Some base \<and> base \<noteq> [] \<and> parse base = Inr (front, [], [])
        \<and> (\<forall>ps. get (front @ ''?'' @ join ''&'' (map form_pair ps)) = Inr (prom_reply (samples ps))
                \<and> times_ok (samples ps)))"

definition hour_query :: "int \<Rightarrow> string \<Rightarrow> (string \<times> string) list" where
  "hour_query now q = [(''query'', q), (''start'', show_num (ddiv (of_int (now - 3600000)) 1000)),
     (''end'', show_num (ddiv (of_int now) 1000)), (''step'', ''14'')]"

lemma fetch_series_served:
  assumes "serves_queries parse e get samples" "3600000 \<le> now" "now < 2 ^ 51"
  shows "fetch_series parse e get (wire (last_hour now)) q = Inr (Arr (map prom_sample (samples (hour_query now q))))
    \<and> times_ok (samples (hour_query now q))"
proof -
  obtain base front where b: "e ''NODE_EXPORTER_BASE_URL'' = Some base" "base \<noteq> []" "parse base = Inr (front, [], [])"
      "\<And>ps. get (front @ ''?'' @ join ''&'' (map form_pair ps)) = Inr (prom_reply (samples ps))" "\<And>ps. times_ok (samples ps)"
    using assms(1) by (auto simp: serves_queries_def)
  have s: "seconds_num (now - 3600000) = Num (ddiv (of_int (now - 3600000)) 1000)" "seconds_num now = Num (ddiv (of_int now) 1000)"
    using assms(2,3) by (intro seconds_num_exact; simp)+
  have "node_url parse e q ''now-5m'' (wire (last_hour now)) = Inr (front @ ''?'' @ join ''&'' (map form_pair (hour_query now q)))"
  proof -
    have "getEnv e ''NODE_EXPORTER_BASE_URL'' None = Inr base" using b(1,2) by (simp add: getEnv_def)
    moreover have "show_num 14 = ''14''"
    proof -
      have "show_int 14 = ''14''" by code_simp
      then show ?thesis using show_num_int [of 14] by (simp add: safe_def)
    qed
    ultimately show ?thesis
      by (simp add: node_url_def buildUrl_def b(3) body_text_def last_hour_def s own_def hour_query_def Let_def)
  qed
  then show ?thesis using b(4) [of "hour_query now q"] b(5) by (simp add: fetch_series_def)
qed

lemma deliver_answer [simp]: "deliver (Inr (answer_400 m (Inr v))) = Some (Inr (wire (Obj [(''data'', v)])))"
  by (simp add: deliver_def answer_400_def)

lemma last_hour_from [simp]: "is_ok (jget (wire (last_hour now)) k)"
  by (simp add: last_hour_def)

lemma bind_ok: "is_ok r \<Longrightarrow> bind_res r (\<lambda>_. x) = x"
  by (cases r) simp_all

text \<open>The whole way of two series to a chart.\<close>

lemma two_series_served:
  assumes "serves_queries parse e get samples" "3600000 \<le> now" "now < 2 ^ 51"
  shows "two_series sf parse e get (wire (last_hour now)) q1 q2 =
     Inr (Obj [(fst q1, Arr (map formatted_sample (samples (hour_query now (snd q1))))),
               (fst q2, Arr (map formatted_sample (samples (hour_query now (snd q2)))))])"
  using fetch_series_served [OF assms, of "snd q1"] fetch_series_served [OF assms, of "snd q2"]
  by (simp add: two_series_def both_def formatted_samples)

lemma read_write_served:
  assumes "times_ok xs" "times_ok ys" "r \<noteq> w"
  shows "read_write K (r, lr) (w, lw)
      (wire (Obj [(''data'', Obj [(r, Arr (map formatted_sample xs)), (w, Arr (map formatted_sample ys))])])) =
    Inr (Arr (map (chart_sample K [(''metric'', Str lr)]) xs @ map (chart_sample K [(''metric'', Str lw)]) ys))"
proof -
  let ?d = "wire (Obj [(''data'', Obj [(r, Arr (map formatted_sample xs)), (w, Arr (map formatted_sample ys))])])"
  have "oprop (oprop ?d ''data'') r = wire (Arr (map formatted_sample xs))"
    "oprop (oprop ?d ''data'') w = wire (Arr (map formatted_sample ys))"
    using assms(3) by (simp_all add: own_def)
  then show ?thesis unfolding read_write_def fst_conv snd_conv
    by (simp only: chart_samples [OF assms(1)] chart_samples [OF assms(2)]) (simp add: spread2_def)
qed

section \<open>Properties\<close>



end
