(* ===== verification/Reslens_Charts.thy ===== *)
theory Reslens_Charts
  imports Reslens_Node Reslens_Encoding
begin

text \<open>
  The two charts of the ResLens dashboard the user can zoom: the CPU usage (\<^verbatim>\<open>graphs/lineGraph.tsx\<close>) and the transaction
  timeline (\<^verbatim>\<open>graphs/TransactionChart.tsx\<close>). A point is a pair of a position on the time axis and a value. The chart library
  calls the mouse handlers with the point under the pointer; sampling down a long series is a parameter.
\<close>

section \<open>The value axis\<close>

type_synonym xy = "jnum \<times> jnum"

text \<open>Comparisons with NaN are false.\<close>

fun nle :: "jnum \<Rightarrow> jnum \<Rightarrow> bool" where
  "nle (Some x) (Some y) = (x \<le> y)"
| "nle _ _ = False"

fun nless :: "jnum \<Rightarrow> jnum \<Rightarrow> bool" where
  "nless (Some x) (Some y) = (x < y)"
| "nless _ _ = False"

definition in_range :: "xy list \<Rightarrow> jnum \<Rightarrow> jnum \<Rightarrow> xy list" where
  "in_range data left right = filter (\<lambda>d. nle left (fst d) \<and> nle (fst d) right) data"

fun extremes :: "jnum \<times> jnum \<Rightarrow> xy list \<Rightarrow> jnum \<times> jnum" where
  "extremes (lo, hi) [] = (lo, hi)"
| "extremes (lo, hi) (d # ds) =
     extremes (if nless (snd d) lo then snd d else lo, if nless hi (snd d) then snd d else hi) ds"

definition nfloor :: "jnum \<Rightarrow> jnum" where
  "nfloor x = map_option (\<lambda>r. of_int \<lfloor>r\<rfloor>) x"

definition nceil :: "jnum \<Rightarrow> jnum" where
  "nceil x = map_option (\<lambda>r. of_int \<lceil>r\<rceil>) x"

definition tx_getAxisYDomain :: "xy list \<Rightarrow> jnum \<Rightarrow> jnum \<Rightarrow> rat \<Rightarrow> jnum \<times> jnum" where
  "tx_getAxisYDomain data left right offset =
     (case in_range data left right of
        [] \<Rightarrow> (Some 0, Some 100)
      | d # ds \<Rightarrow>
          (case extremes (snd d, snd d) (d # ds) of
             (lo, hi) \<Rightarrow> (nsub (nfloor lo) (Some offset), nadd (nceil hi) (Some offset))))"

definition cpu_getAxisYDomain :: "xy list \<Rightarrow> jnum \<Rightarrow> jnum \<Rightarrow> rat \<Rightarrow> jnum \<times> jnum" where
  "cpu_getAxisYDomain data left right offset =
     (case in_range data left right of
        [] \<Rightarrow> (Some 0, Some 100)
      | d # ds \<Rightarrow>
          (case extremes (snd d, snd d) (d # ds) of
             (lo, hi) \<Rightarrow>
               (nlift max (Some 0) (nsub (nfloor lo) (Some offset)),
                nlift min (Some 100) (nadd (nceil hi) (Some offset)))))"

section \<open>Zooming\<close>

record view =
  view_points :: "xy list"
  refAreaLeft :: "rat option"
  refAreaRight :: "rat option"
  left_x :: jnum
  right_x :: jnum
  top_y :: jnum
  bottom_y :: jnum

definition clear_area :: "view \<Rightarrow> view" where
  "clear_area c = c\<lparr>refAreaLeft := None, refAreaRight := None\<rparr>"

text \<open>The selected area, if there is one.\<close>

definition selected :: "view \<Rightarrow> (rat \<times> rat) option" where
  "selected c =
     (case (refAreaLeft c, refAreaRight c) of
        (Some a, Some b) \<Rightarrow> if a = b then None else Some (min a b, max a b)
      | _ \<Rightarrow> None)"

definition show_range :: "(xy list \<Rightarrow> jnum \<Rightarrow> jnum \<Rightarrow> rat \<Rightarrow> jnum \<times> jnum) \<Rightarrow> jnum \<Rightarrow> jnum \<Rightarrow> view \<Rightarrow> view" where
  "show_range axis l r c =
     (case axis (view_points c) l r 1 of
        (b, t) \<Rightarrow> c\<lparr>left_x := l, right_x := r, top_y := t, bottom_y := b, refAreaLeft := None, refAreaRight := None\<rparr>)"

section \<open>The transaction timeline\<close>

record timeline =
  chart :: view
  fullDomain :: "jnum \<times> jnum \<times> jnum \<times> jnum"

definition new_timeline :: timeline where
  "new_timeline = \<lparr>chart = \<lparr>view_points = [], refAreaLeft = None, refAreaRight = None, left_x = Some 0, right_x = Some 0, top_y = Some 0,
     bottom_y = Some 0\<rparr>, fullDomain = (Some 0, Some 0, Some 0, Some 0)\<rparr>"

text \<open>The decoder of this component prints each time, which throws if it is not a time value.\<close>

fun chart_decode_loop :: "jnum \<Rightarrow> xy \<Rightarrow> jnum list \<Rightarrow> jnum list \<Rightarrow> xy list res" where
  "chart_decode_loop tm prev [] vs = Inr []"
| "chart_decode_loop tm prev (e # es) vs =
     (let cur = nadd (ndiv (fst prev) tm) e;
          q = (nmul cur tm, nadd (snd prev) (case vs of [] \<Rightarrow> None | v # _ \<Rightarrow> v))
      in bind_res (toISOString (date_of (nmul cur tm))) (\<lambda>_.
         bind_res (chart_decode_loop tm q es (tl vs)) (\<lambda>qs. Inr (q # qs))))"

definition chart_decodeDeltaEncoding :: "encoded \<Rightarrow> xy list res" where
  "chart_decodeDeltaEncoding d =
     (let tm = (case timeMultiplier d of None \<Rightarrow> Some 1000000 | Some m \<Rightarrow> m);
          p0 = (nmul (startEpoch d) tm, startVolume d)
      in bind_res (toISOString (date_of (fst p0))) (\<lambda>_.
         bind_res (chart_decode_loop tm p0 (epochs d) (volumes d)) (\<lambda>ps. Inr (p0 # ps))))"

definition final_points :: "xy list \<Rightarrow> xy list res" where
  "final_points sampled =
     map_res (\<lambda>(x, y). bind_res (toISOString (date_of (nmul x (Some 1000)))) (\<lambda>_. Inr (nmul x (Some 1000), y))) sampled"

definition fetchTransactionHistory :: "(xy list \<Rightarrow> nat \<Rightarrow> xy list) \<Rightarrow> encoded res \<Rightarrow> timeline \<Rightarrow> timeline" where
  "fetchTransactionHistory downsample reply t =
     (case bind_res reply (\<lambda>d.
        bind_res (chart_decodeDeltaEncoding d) (\<lambda>decoded.
        bind_res (final_points (downsample (map (\<lambda>(x, y). (ndiv x (Some 1000), y)) decoded) 2000)) (\<lambda>final.
          if final = [] then Inl (TypeError ''Cannot read properties of undefined (reading epoch)'') else Inr final))) of
        Inl _ \<Rightarrow> t
      | Inr final \<Rightarrow>
          (let l = fst (hd final); r = fst (last final);
               (b, tp) = tx_getAxisYDomain final l r 1
           in t\<lparr>chart := (chart t)\<lparr>view_points := final, left_x := l, right_x := r, top_y := tp, bottom_y := b\<rparr>,
                fullDomain := (l, r, tp, b)\<rparr>))"

definition tx_zoom :: "timeline \<Rightarrow> timeline" where
  "tx_zoom t =
     (case selected (chart t) of
        None \<Rightarrow> t\<lparr>chart := clear_area (chart t)\<rparr>
      | Some (a, b) \<Rightarrow> t\<lparr>chart := show_range tx_getAxisYDomain (Some a) (Some b) (chart t)\<rparr>)"

definition tx_zoomOut :: "timeline \<Rightarrow> timeline" where
  "tx_zoomOut t =
     (case fullDomain t of
        (l, r, tp, b) \<Rightarrow> t\<lparr>chart := clear_area ((chart t)\<lparr>left_x := l, right_x := r, top_y := tp, bottom_y := b\<rparr>)\<rparr>)"

text \<open>The mouse handlers do nothing where the library names no point.\<close>

datatype mouse = Down "rat option" | Move "rat option" | Up | Reset

fun timeline_step :: "timeline \<Rightarrow> mouse \<Rightarrow> timeline" where
  "timeline_step t (Down x) = (case x of Some e \<Rightarrow> t\<lparr>chart := (chart t)\<lparr>refAreaLeft := Some e\<rparr>\<rparr> | None \<Rightarrow> t)"
| "timeline_step t (Move x) =
     (case x of
        Some e \<Rightarrow> if refAreaLeft (chart t) \<noteq> None then t\<lparr>chart := (chart t)\<lparr>refAreaRight := Some e\<rparr>\<rparr> else t
      | None \<Rightarrow> t)"
| "timeline_step t Up = tx_zoom t"
| "timeline_step t Reset = tx_zoomOut t"

section \<open>The CPU chart\<close>

record cpu_graph =
  graph :: view
  loading :: bool
  error_shown :: jv
  date_from :: jv
  date_until :: jv
  toasted :: nat

definition new_cpu :: cpu_graph where
  "new_cpu = \<lparr>graph = chart new_timeline, loading = True, error_shown = Str [], date_from = Num 0, date_until = Num 0, toasted = 0\<rparr>"

definition cpu_request :: "int \<Rightarrow> int \<Rightarrow> jv" where
  "cpu_request hour now =
     Obj [(''query'', Str ''sum(rate(namedprocess_namegroup_cpu_seconds_total{groupname=~'.+'}[5m])) by (groupname) * 100''),
          (''from'', seconds_num (now - hour * 3600000)), (''until'', seconds_num now), (''step'', Num 28)]"

text \<open>\<^verbatim>\<open>val[i]\<close>\<close>

definition elem_at :: "jv \<Rightarrow> nat \<Rightarrow> jv res" where
  "elem_at v i =
     (case v of
        Arr xs \<Rightarrow> Inr (if i < length xs then xs ! i else Undefined)
      | Str s \<Rightarrow> Inr (if i < length s then Str [s ! i] else Undefined)
      | _ \<Rightarrow> jget v (show_nat i))"

definition num_of :: "jv \<Rightarrow> jnum" where
  "num_of v = (case v of Num x \<Rightarrow> Some x | _ \<Rightarrow> None)"

definition cpu_point :: "jv \<Rightarrow> xy res" where
  "cpu_point val =
     bind_res (elem_at val 0) (\<lambda>a. bind_res (elem_at val 1) (\<lambda>b.
       Inr (nmul (to_number a) (Some 1000), num_of (parse_float (js_text b)))))"

definition cpu_points :: "jv \<Rightarrow> xy list res" where
  "cpu_points reply =
     (if reply = Undefined \<or> reply = Null then Inl (TypeError ''Cannot read properties of undefined (reading 0)'')
      else case oprop reply ''data'' of
        Arr vs \<Rightarrow> map_res cpu_point vs
      | v \<Rightarrow> bind_res (jget v ''map'') (\<lambda>_. Inl (TypeError ''map is not a function'')))"

definition cpu_failed :: "jv \<Rightarrow> cpu_graph \<Rightarrow> cpu_graph" where
  "cpu_failed m g = g\<lparr>loading := False, error_shown := m, toasted := toasted g + 1\<rparr>"

text \<open>A request that is never answered leaves the state as it is.\<close>

definition fetchData :: "jv res option \<Rightarrow> cpu_graph \<Rightarrow> cpu_graph" where
  "fetchData reply g =
     (case reply of
        None \<Rightarrow> g
      | Some (Inl err) \<Rightarrow> cpu_failed (Str (err_message err)) g
      | Some (Inr d) \<Rightarrow>
          if oprop d ''data'' = Arr []
          then cpu_failed (Str ''No CPU usage data available for the selected time range'') g
          else if truthy (oprop d ''error'') then cpu_failed (oprop d ''error'') g
          else case cpu_points d of
            Inl err \<Rightarrow> cpu_failed (Str (err_message err)) g
          | Inr ps \<Rightarrow>
              (let l = fst (hd ps); r = fst (last ps);
                   (b, t) = cpu_getAxisYDomain ps l r 1
               in g\<lparr>graph := (graph g)\<lparr>view_points := ps, bottom_y := b, top_y := t, left_x := l, right_x := r\<rparr>, loading := False\<rparr>))"

definition cpu_zoom :: "cpu_graph \<Rightarrow> cpu_graph" where
  "cpu_zoom g =
     (case selected (graph g) of
        None \<Rightarrow> g\<lparr>graph := clear_area (graph g)\<rparr>
      | Some (a, b) \<Rightarrow> g\<lparr>graph := show_range cpu_getAxisYDomain (Some a) (Some b) (graph g),
                         date_from := Num a, date_until := Num b\<rparr>)"

text \<open>Without data the handler throws before it changes anything.\<close>

definition cpu_zoomOut :: "cpu_graph \<Rightarrow> cpu_graph" where
  "cpu_zoomOut g =
     (case view_points (graph g) of
        [] \<Rightarrow> g
      | p # ps \<Rightarrow> g\<lparr>graph := show_range cpu_getAxisYDomain (fst p) (fst (last (p # ps))) (graph g),
                    date_from := Str ''now-5m'', date_until := Str ''now''\<rparr>)"

datatype cpu_event = Fetched "jv res option" | Offline | Mouse mouse

text \<open>A label of zero counts as none.\<close>

definition label_of :: "rat option \<Rightarrow> rat option" where
  "label_of x = (case x of Some e \<Rightarrow> if e = 0 then None else Some e | None \<Rightarrow> None)"

fun cpu_step :: "cpu_graph \<Rightarrow> cpu_event \<Rightarrow> cpu_graph" where
  "cpu_step g (Fetched r) = fetchData r g"
| "cpu_step g Offline = g\<lparr>error_shown := Str ''no data available''\<rparr>"
| "cpu_step g (Mouse (Down x)) = g\<lparr>graph := (graph g)\<lparr>refAreaLeft := label_of x\<rparr>\<rparr>"
| "cpu_step g (Mouse (Move x)) =
     (if refAreaLeft (graph g) \<noteq> None then g\<lparr>graph := (graph g)\<lparr>refAreaRight := label_of x\<rparr>\<rparr> else g)"
| "cpu_step g (Mouse Up) = cpu_zoom g"
| "cpu_step g (Mouse Reset) = cpu_zoomOut g"

text \<open>What the component renders.\<close>

datatype rendering = Loader | NotFound | Graph

definition rendered :: "cpu_graph \<Rightarrow> rendering" where
  "rendered g = (if loading g then Loader else if truthy (error_shown g) then NotFound else Graph)"

section \<open>Lemmas\<close>

text \<open>Points whose values are numbers of a size for which one can be added exactly.\<close>

definition plottable :: "xy list \<Rightarrow> bool" where
  "plottable ps = list_all (\<lambda>p. case snd p of Some v \<Rightarrow> \<bar>v\<bar> < 2 ^ 52 | None \<Rightarrow> False) ps"

definition encloses :: "view \<Rightarrow> bool" where
  "encloses c \<longleftrightarrow> (\<forall>d \<in> set (in_range (view_points c) (left_x c) (right_x c)). nle (bottom_y c) (snd d) \<and> nle (snd d) (top_y c))"

lemma extremes_bounds:
  assumes "plottable ds" "\<bar>b\<bar> < 2 ^ 52" "\<bar>t\<bar> < 2 ^ 52"
  shows "\<exists>lo hi. extremes (Some b, Some t) ds = (Some lo, Some hi) \<and> lo \<le> b \<and> t \<le> hi \<and> \<bar>lo\<bar> < 2 ^ 52 \<and> \<bar>hi\<bar> < 2 ^ 52
    \<and> (\<forall>d \<in> set ds. \<exists>v. snd d = Some v \<and> lo \<le> v \<and> v \<le> hi)"
  using assms
proof (induction ds arbitrary: b t)
  case (Cons d ds)
  obtain v where v: "snd d = Some v" "\<bar>v\<bar> < 2 ^ 52" using Cons.prems(1) by (auto simp: plottable_def split: option.splits)
  let ?b = "if v < b then v else b" and ?t = "if t < v then v else t"
  have b: "plottable ds" "\<bar>?b\<bar> < 2 ^ 52" "\<bar>?t\<bar> < 2 ^ 52" using Cons.prems v(2) by (simp_all add: plottable_def)
  obtain lo hi where e: "extremes (Some ?b, Some ?t) ds = (Some lo, Some hi)" "lo \<le> ?b" "?t \<le> hi" "\<bar>lo\<bar> < 2 ^ 52" "\<bar>hi\<bar> < 2 ^ 52"
      "\<forall>d \<in> set ds. \<exists>v. snd d = Some v \<and> lo \<le> v \<and> v \<le> hi"
    using Cons.IH [OF b] by metis
  have "extremes (Some b, Some t) (d # ds) = extremes (Some ?b, Some ?t) ds" by (simp add: v)
  moreover have "lo \<le> b" "lo \<le> v" "t \<le> hi" "v \<le> hi" using e(2,3) by (auto split: if_splits)
  ultimately show ?case using e v(1) by (intro exI [of _ lo] exI [of _ hi]) simp
qed simp

lemma near_safe: "- (2 ^ 52) \<le> n \<Longrightarrow> n \<le> 2 ^ 52 \<Longrightarrow> \<bar>k - n\<bar> \<le> 1 \<Longrightarrow> safe k"
  unfolding safe_def by simp

lemma floor_minus: "\<bar>x\<bar> < 2 ^ 52 \<Longrightarrow> nsub (nfloor (Some x)) (Some 1) = Some (of_int (\<lfloor>x\<rfloor> - 1))"
proof -
  assume x: "\<bar>x\<bar> < 2 ^ 52"
  have "- (2 ^ 52) \<le> \<lfloor>x\<rfloor>" "\<lfloor>x\<rfloor> \<le> 2 ^ 52" using x
    by (simp_all add: le_floor_iff floor_le_iff abs_less_iff)
  then have "safe (\<lfloor>x\<rfloor> - 1)" by (rule near_safe) simp
  then show ?thesis using dsub_safe [of "\<lfloor>x\<rfloor>" 1] by (simp add: nfloor_def)
qed

lemma ceil_plus: "\<bar>x\<bar> < 2 ^ 52 \<Longrightarrow> nadd (nceil (Some x)) (Some 1) = Some (of_int (\<lceil>x\<rceil> + 1))"
proof -
  assume x: "\<bar>x\<bar> < 2 ^ 52"
  have "- (2 ^ 52) < \<lceil>x\<rceil>" "\<lceil>x\<rceil> \<le> 2 ^ 52" using x by (simp_all add: less_ceiling_iff ceiling_le_iff abs_less_iff)
  then have "safe (\<lceil>x\<rceil> + 1)" by (rule near_safe [OF less_imp_le]) simp
  then show ?thesis using dadd_safe [of "\<lceil>x\<rceil>" 1] by (simp add: nceil_def)
qed

lemma plottable_range: "plottable ps \<Longrightarrow> plottable (in_range ps l r)"
  by (auto simp: plottable_def in_range_def list_all_iff)

lemma axis_range:
  assumes "plottable ps" "in_range ps l r = d # ds"
  obtains lo hi where "extremes (snd d, snd d) (d # ds) = (Some lo, Some hi)" "\<bar>lo\<bar> < 2 ^ 52" "\<bar>hi\<bar> < 2 ^ 52"
    "\<forall>e \<in> set (in_range ps l r). \<exists>v. snd e = Some v \<and> lo \<le> v \<and> v \<le> hi"
proof -
  have p: "plottable (d # ds)" using plottable_range [OF assms(1)] assms(2) by metis
  then obtain v where v: "snd d = Some v" "\<bar>v\<bar> < 2 ^ 52" by (auto simp: plottable_def split: option.splits)
  show thesis using extremes_bounds [OF p v(2) v(2)] that assms(2) v(1) by metis
qed

lemma tx_axis_encloses:
  assumes "plottable ps" "tx_getAxisYDomain ps l r 1 = (b, t)" "d \<in> set (in_range ps l r)"
  shows "nle b (snd d) \<and> nle (snd d) t"
proof -
  obtain e es where es: "in_range ps l r = e # es" using assms(3) by (cases "in_range ps l r") auto
  obtain lo hi where x: "extremes (snd e, snd e) (e # es) = (Some lo, Some hi)" "\<bar>lo\<bar> < 2 ^ 52" "\<bar>hi\<bar> < 2 ^ 52"
      "\<forall>e \<in> set (in_range ps l r). \<exists>v. snd e = Some v \<and> lo \<le> v \<and> v \<le> hi"
    using axis_range [OF assms(1) es] by blast
  obtain v where v: "snd d = Some v" "lo \<le> v" "v \<le> hi" using x(4) assms(3) by blast
  have "b = Some (of_int (\<lfloor>lo\<rfloor> - 1))" "t = Some (of_int (\<lceil>hi\<rceil> + 1))"
    using assms(2) floor_minus [OF x(2)] ceil_plus [OF x(3)] by (simp_all add: tx_getAxisYDomain_def es x(1) del: extremes.simps)
  moreover have "of_int (\<lfloor>lo\<rfloor> - 1) \<le> v" "v \<le> of_int (\<lceil>hi\<rceil> + 1)" using v by linarith+
  ultimately show ?thesis using v(1) by simp
qed

lemma show_range_fields [simp]:
  "view_points (show_range axis l r c) = view_points c"
  by (simp add: show_range_def case_prod_unfold)

lemma show_range_encloses: "plottable (view_points c) \<Longrightarrow> encloses (show_range tx_getAxisYDomain l r c)"
  using tx_axis_encloses [of "view_points c" l r, OF _ surjective_pairing]
  by (simp add: encloses_def show_range_def case_prod_unfold)

lemma encloses_area [simp]:
  "encloses (c\<lparr>refAreaLeft := x\<rparr>) = encloses c" "encloses (c\<lparr>refAreaRight := x\<rparr>) = encloses c" "encloses (clear_area c) = encloses c"
  by (simp_all add: encloses_def clear_area_def)

definition full_view :: "timeline \<Rightarrow> view" where
  "full_view t = (case fullDomain t of (l, r, tp, b) \<Rightarrow> (chart t)\<lparr>left_x := l, right_x := r, top_y := tp, bottom_y := b\<rparr>)"

definition timeline_ok :: "xy list \<Rightarrow> jnum \<times> jnum \<times> jnum \<times> jnum \<Rightarrow> timeline \<Rightarrow> bool" where
  "timeline_ok ps f t \<longleftrightarrow> view_points (chart t) = ps \<and> fullDomain t = f \<and> plottable ps \<and> encloses (chart t) \<and> encloses (full_view t)"

lemma timeline_step_ok:
  assumes "timeline_ok ps f t"
  shows "timeline_ok ps f (timeline_step t e)"
proof -
  have c: "timeline_ok ps f (t\<lparr>chart := c\<rparr>)" if "view_points c = ps" "encloses c" for c
  proof -
    have "encloses (full_view (t\<lparr>chart := c\<rparr>)) = encloses (full_view t)"
      using assms that(1) by (simp add: timeline_ok_def full_view_def encloses_def split: prod.split)
    then show ?thesis using assms that by (simp add: timeline_ok_def)
  qed
  note t = assms [unfolded timeline_ok_def]
  show ?thesis
  proof (cases e)
    case Up
    then show ?thesis
      using t c show_range_encloses [of "chart t"] by (simp add: tx_zoom_def clear_area_def split: option.split)
  next
    case Reset
    have "tx_zoomOut t = t\<lparr>chart := clear_area (full_view t)\<rparr>" by (simp add: tx_zoomOut_def full_view_def split: prod.split)
    moreover have "view_points (full_view t) = ps" using t by (simp add: full_view_def split: prod.split)
    then have "view_points (clear_area (full_view t)) = ps" by (simp add: clear_area_def)
    ultimately show ?thesis using t c Reset by simp
  qed (use t assms c in \<open>auto split: option.split\<close>)
qed

interpretation tml: stepper timeline_step "timeline_ok ps f" for ps f
  by unfold_locales (rule timeline_step_ok)

lemma fetched_ok:
  assumes "plottable (view_points (chart (fetchTransactionHistory ds reply new_timeline)))"
  shows "timeline_ok (view_points (chart (fetchTransactionHistory ds reply new_timeline)))
     (fullDomain (fetchTransactionHistory ds reply new_timeline)) (fetchTransactionHistory ds reply new_timeline)
   \<and> full_view (fetchTransactionHistory ds reply new_timeline) = chart (fetchTransactionHistory ds reply new_timeline)"
proof -
  define t0 where "t0 = fetchTransactionHistory ds reply new_timeline"
  have fv: "full_view t0 = chart t0 \<and> (plottable (view_points (chart t0)) \<longrightarrow> encloses (chart t0))"
  proof (cases "bind_res reply (\<lambda>d.
        bind_res (chart_decodeDeltaEncoding d) (\<lambda>decoded.
        bind_res (final_points (ds (map (\<lambda>(x, y). (ndiv x (Some 1000), y)) decoded) 2000)) (\<lambda>final.
          if final = [] then Inl (TypeError ''Cannot read properties of undefined (reading epoch)'') else Inr final)))")
    case (Inl e)
    then have "t0 = new_timeline" by (simp add: t0_def fetchTransactionHistory_def)
    then show ?thesis by (simp add: new_timeline_def full_view_def encloses_def in_range_def)
  next
    case (Inr final)
    obtain b t where bt: "tx_getAxisYDomain final (fst (hd final)) (fst (last final)) 1 = (b, t)" by fastforce
    have "t0 = new_timeline\<lparr>chart := (chart new_timeline)\<lparr>view_points := final, left_x := fst (hd final),
        right_x := fst (last final), top_y := t, bottom_y := b\<rparr>, fullDomain := (fst (hd final), fst (last final), t, b)\<rparr>"
      using Inr by (simp add: t0_def fetchTransactionHistory_def bt Let_def)
    then show ?thesis using tx_axis_encloses [OF _ bt] by (simp add: full_view_def encloses_def)
  qed
  then show ?thesis using assms by (simp add: timeline_ok_def flip: t0_def)
qed

text \<open>A graph that shows an error, and the events that carry no error without a message.\<close>

definition shows_error :: "cpu_graph \<Rightarrow> bool" where
  "shows_error g \<longleftrightarrow> \<not> loading g \<and> truthy (error_shown g)"

fun named_error :: "cpu_event \<Rightarrow> bool" where
  "named_error (Fetched (Some (Inl err))) = (err_message err \<noteq> [])"
| "named_error _ = True"

lemma map_res_error: "map_res f xs = Inl e \<Longrightarrow> \<exists>x. f x = Inl e"
  by (induction xs) (auto simp: bind_res_def split: sum.splits)

lemma cpu_points_error: "cpu_points d = Inl e \<Longrightarrow> err_message e \<noteq> []"
proof -
  assume e: "cpu_points d = Inl e"
  have j: "jget v k = Inl e \<Longrightarrow> err_message e \<noteq> []" for v k by (cases v) auto
  have el: "elem_at v i = Inl e \<Longrightarrow> err_message e \<noteq> []" for v i
    by (auto simp: elem_at_def dest: j split: jv.splits)
  have p: "cpu_point v = Inl e \<Longrightarrow> err_message e \<noteq> []" for v
    by (auto simp: cpu_point_def bind_res_def dest: el split: sum.splits)
  have m: "map_res cpu_point vs = Inl e \<Longrightarrow> err_message e \<noteq> []" for vs using map_res_error [of cpu_point vs e] p by blast
  show ?thesis
    using e by (auto simp: cpu_points_def bind_res_def dest: m j split: if_splits sum.splits jv.splits)
qed

lemma error_step: "shows_error g \<Longrightarrow> named_error e \<Longrightarrow> shows_error (cpu_step g e)"
proof (cases e)
  case (Fetched r)
  assume g: "shows_error g" "named_error e"
  have f: "shows_error (cpu_failed m g)" if "truthy m" for m using that by (simp add: cpu_failed_def shows_error_def)
  show ?thesis
  proof (cases r)
    case (Some a)
    show ?thesis
    proof (cases a)
      case (Inl err)
      then show ?thesis using g Some Fetched f by (simp add: fetchData_def)
    next
      case (Inr d)
      show ?thesis
      proof (cases "cpu_points d")
        case (Inl err)
        then show ?thesis using f cpu_points_error [of d err] Some Fetched Inr by (simp add: fetchData_def)
      next
        case ps: (Inr ps)
        then show ?thesis using g f Some Fetched Inr by (simp add: fetchData_def shows_error_def Let_def split: prod.split)
      qed
    qed
  qed (use g Fetched in \<open>simp add: fetchData_def\<close>)
next
  case (Mouse m)
  assume g: "shows_error g"
  show ?thesis
    using g Mouse by (cases m) (auto simp: shows_error_def cpu_zoom_def cpu_zoomOut_def split: option.split list.split)
qed (simp add: shows_error_def)

interpretation cpu: stepper "\<lambda>g e. if named_error e then cpu_step g e else g" shows_error
  by unfold_locales (simp add: error_step)

lemma named_run: "list_all named_error es \<Longrightarrow> foldl (\<lambda>g e. if named_error e then cpu_step g e else g) g es = foldl cpu_step g es"
  by (induction es arbitrary: g) simp_all

lemma chart_decode_loop_ok:
  "\<forall>q \<in> set (decode_loop tm prev es vs). date_of (epoch q) \<noteq> None \<Longrightarrow>
   chart_decode_loop tm (ev prev) es vs = Inr (map ev (decode_loop tm prev es vs))"
proof (induction es arbitrary: prev vs)
  case (Cons e es)
  let ?c = "nmul (nadd (ndiv (epoch prev) tm) e) tm"
  let ?q = "\<lparr>epoch = ?c, volume = nadd (volume prev) (case vs of [] \<Rightarrow> None | v # _ \<Rightarrow> v), createdAt = parseCreateTime ?c\<rparr>"
  have "date_of ?c \<noteq> None" using Cons.prems by (simp add: Let_def)
  moreover have "chart_decode_loop tm (ev ?q) es (tl vs) = Inr (map ev (decode_loop tm ?q es (tl vs)))"
    using Cons.prems by (intro Cons.IH) (simp add: Let_def)
  ultimately show ?case by (auto simp: Let_def toISOString_def)
qed simp

lemma chart_decode_ok:
  assumes "\<forall>q \<in> set (decodeDeltaEncoding d). date_of (epoch q) \<noteq> None"
  shows "chart_decodeDeltaEncoding d = Inr (map ev (decodeDeltaEncoding d))"
proof -
  let ?tm = "case timeMultiplier d of None \<Rightarrow> Some 1000000 | Some m \<Rightarrow> m"
  let ?x = "nmul (startEpoch d) ?tm"
  let ?p = "\<lparr>epoch = ?x, volume = startVolume d, createdAt = parseCreateTime ?x\<rparr>"
  have d: "decodeDeltaEncoding d = ?p # decode_loop ?tm ?p (epochs d) (volumes d)"
    unfolding decodeDeltaEncoding_def TIME_MULTIPLIER_def Let_def by simp
  then have "chart_decode_loop ?tm (ev ?p) (epochs d) (volumes d) = Inr (map ev (decode_loop ?tm ?p (epochs d) (volumes d)))"
    using assms by (intro chart_decode_loop_ok) simp
  moreover have "date_of ?x \<noteq> None" using assms d by simp
  ultimately show ?thesis by (auto simp: chart_decodeDeltaEncoding_def d toISOString_def Let_def)
qed

text \<open>A sampling routine that leaves a series alone that is short enough, as the library's documentation says.\<close>

definition leaves_short :: "(xy list \<Rightarrow> nat \<Rightarrow> xy list) \<Rightarrow> bool" where
  "leaves_short ds \<longleftrightarrow> (\<forall>xs k. length xs \<le> k \<longrightarrow> ds xs k = xs)"

lemma grid_point:
  assumes "on_grid p"
  shows "date_of (epoch p) \<noteq> None" "nmul (ndiv (epoch p) (Some 1000)) (Some 1000) = epoch p" "plottable [ev p]"
proof -
  obtain e v where p: "epoch p = Some (of_int (1000000 * e))" "volume p = Some (of_int v)"
      "\<bar>1000000 * e\<bar> < 2 ^ 52" "\<bar>v\<bar> < 2 ^ 52"
    using on_gridE [OF assms] by blast
  show "date_of (epoch p) \<noteq> None"
    using p(3) unfolding p(1) date_of_def by (simp only: option.case ceiling_of_int floor_of_int) (simp add: time_clip_def)
  have s: "safe (1000 * e)" "safe (1000 * e * 1000)" using p(3) by (simp_all add: safe_def)
  have "ddiv (of_int (1000000 * e)) 1000 = of_int (1000 * e)" using ddiv_safe [OF _ s(1), of 1000] by simp
  moreover have "dmul (of_int (1000 * e)) 1000 = of_int (1000000 * e)" using dmul_safe [OF s(2)] by simp
  ultimately show "nmul (ndiv (epoch p) (Some 1000)) (Some 1000) = epoch p" unfolding p(1) by (simp only: nlift.simps)
  have "\<bar>of_int v :: rat\<bar> < of_int (2 ^ 52)" using p(4) by (simp only: of_int_less_iff flip: of_int_abs)
  then show "plottable [ev p]" by (simp add: plottable_def p(2))
qed

lemma final_points_grid:
  assumes "\<forall>p \<in> set data. on_grid p"
  shows "final_points (map (\<lambda>(x, y). (ndiv x (Some 1000), y)) (map ev data)) = Inr (map ev data)"
  using assms unfolding final_points_def
proof (induction data)
  case (Cons p ps)
  then show ?case using grid_point [of p] by (auto simp: toISOString_def)
qed simp

lemma fetched_grid:
  assumes "data \<noteq> []" "\<forall>p \<in> set data. on_grid p" "leaves_short ds" "length data \<le> 2000"
    and t: "t = fetchTransactionHistory ds (Inr (applyDeltaEncoding (Some data))) t0"
  shows "view_points (chart t) = map ev data" "left_x (chart t) = epoch (hd data)" "right_x (chart t) = epoch (last data)"
    "plottable (view_points (chart t))"
proof -
  let ?d = "applyDeltaEncoding (Some data)"
  have m: "map ev (decodeDeltaEncoding ?d) = map ev data" by (rule decode_encode [OF assms(1,2)])
  have "\<forall>q \<in> set (decodeDeltaEncoding ?d). date_of (epoch q) \<noteq> None"
  proof
    fix q assume "q \<in> set (decodeDeltaEncoding ?d)"
    then have "ev q \<in> set (map ev data)" unfolding m [symmetric] by (simp only: set_map image_eqI)
    then show "date_of (epoch q) \<noteq> None" using assms(2) grid_point(1) by auto
  qed
  then have c: "chart_decodeDeltaEncoding ?d = Inr (map ev data)" using chart_decode_ok m by metis
  have "ds (map (\<lambda>(x, y). (ndiv x (Some 1000), y)) (map ev data)) 2000 = map (\<lambda>(x, y). (ndiv x (Some 1000), y)) (map ev data)"
    using assms(3,4) by (simp add: leaves_short_def)
  then show "view_points (chart t) = map ev data" "left_x (chart t) = epoch (hd data)" "right_x (chart t) = epoch (last data)"
    using final_points_grid [OF assms(2)] assms(1) unfolding t fetchTransactionHistory_def bind_res_simps c
    by (simp_all add: Let_def hd_map last_map split: prod.split)
  then show "plottable (view_points (chart t))"
    using assms(2) grid_point(3) by (auto simp: plottable_def list_all_iff)
qed

section \<open>Properties\<close>

text \<open>
  C23: The timeline can be zoomed without losing anything. However often the user selects a range and resets it after the
  history arrived, the points stay the ones that were fetched, each point of the range that is shown lies between the
  ends of the value axis, and a reset shows the full range of the first view again.
\<close>

theorem timeline_zoom:
  assumes "t0 = fetchTransactionHistory ds reply new_timeline" "plottable (view_points (chart t0))"
    and "t = foldl timeline_step t0 es" "z = timeline_step t Reset"
  shows "view_points (chart t) = view_points (chart t0)
    \<and> (\<forall>d \<in> set (in_range (view_points (chart t)) (left_x (chart t)) (right_x (chart t))).
         nle (bottom_y (chart t)) (snd d) \<and> nle (snd d) (top_y (chart t)))
    \<and> (left_x (chart z), right_x (chart z), top_y (chart z), bottom_y (chart z)) =
        (left_x (chart t0), right_x (chart t0), top_y (chart t0), bottom_y (chart t0))"
proof -
  have t0: "timeline_ok (view_points (chart t0)) (fullDomain t0) t0" "full_view t0 = chart t0"
    using fetched_ok [of ds reply] assms(1,2) by simp_all
  have t: "timeline_ok (view_points (chart t0)) (fullDomain t0) t" unfolding assms(3) by (rule tml.run_inv [OF t0(1)])
  obtain l r tp b where f: "fullDomain t0 = (l, r, tp, b)" by (metis prod_cases4)
  have "chart t0 = (chart t0)\<lparr>left_x := l, right_x := r, top_y := tp, bottom_y := b\<rparr>" using t0(2) by (simp add: full_view_def f)
  then have "left_x (chart t0) = l" "right_x (chart t0) = r" "top_y (chart t0) = tp" "bottom_y (chart t0) = b"
    by (metis view.select_convs view.update_convs view.surjective)+
  moreover have "left_x (chart z) = l" "right_x (chart z) = r" "top_y (chart z) = tp" "bottom_y (chart z) = b"
    using t by (simp_all add: assms(4) tx_zoomOut_def timeline_ok_def f clear_area_def)
  ultimately show ?thesis using t by (simp add: timeline_ok_def encloses_def)
qed

theorem timeline_zoom_witness:
  "let t0 = fetchTransactionHistory (\<lambda>xs k. xs) (Inr (applyDeltaEncoding (Some
        [\<lparr>epoch = Some 1700000000000000, volume = Some 3\<rparr>, \<lparr>epoch = Some 1700000005000000, volume = Some 9\<rparr>]))) new_timeline;
       t = foldl timeline_step t0 [Down (Some 1700000000000000), Move (Some 1700000001000000), Up]
   in view_points (chart t) = [(Some 1700000000000000, Some 3), (Some 1700000005000000, Some 9)]
    \<and> right_x (chart (timeline_step t Reset)) = Some 1700000005000000"
proof -
  let ?data = "[\<lparr>epoch = Some 1700000000000000, volume = Some 3\<rparr>, \<lparr>epoch = Some 1700000005000000, volume = Some 9\<rparr>] :: point list"
  let ?t0 = "fetchTransactionHistory (\<lambda>xs k. xs) (Inr (applyDeltaEncoding (Some ?data))) new_timeline"
  have "\<forall>p \<in> set ?data. on_grid p" "leaves_short (\<lambda>xs k. xs)" by (simp_all add: on_grid_def leaves_short_def)
  note f = fetched_grid [of ?data, OF _ this _ refl, of new_timeline]
  have p: "plottable (view_points (chart ?t0))" using f(4) by simp
  show ?thesis
    using timeline_zoom [OF refl p refl refl, of "[Down (Some 1700000000000000), Move (Some 1700000001000000), Up]"] f(1,3)
    unfolding Let_def by (simp del: foldl.simps timeline_step.simps)
qed

text \<open>
  C40: Once the CPU chart shows an error it is never shown again. Whatever answers arrive later, good ones included, and
  whatever the user does, the component keeps rendering the error, as no handler clears it (an error that arrives is
  taken to have a message).
\<close>

theorem cpu_error_sticks:
  assumes "rendered g = NotFound" "list_all named_error es"
  shows "rendered (foldl cpu_step g es) = NotFound"
proof -
  have "shows_error g" using assms(1) by (simp add: rendered_def shows_error_def split: if_splits)
  then have "shows_error (foldl cpu_step g es)" using cpu.run_inv [of g es] named_run [OF assms(2)] by simp
  then show ?thesis by (simp add: rendered_def shows_error_def)
qed

theorem cpu_error_sticks_witness:
  "rendered (foldl cpu_step (cpu_step new_cpu (Fetched (Some (Inl (Error ''timeout'')))))
     [Fetched (Some (Inr (Obj [(''data'', Arr [Arr [Num 1700000000, Str ''12.5'']])]))), Mouse Reset]) = NotFound"
  by (rule cpu_error_sticks) (simp_all add: rendered_def fetchData_def cpu_failed_def new_cpu_def)

end
