(* ===== verification/Reslens_Table.thy ===== *)
theory Reslens_Table
  imports Reslens_Charts Reslens_Explorer
begin

text \<open>
  The explorer page of the ResLens dashboard (\<^verbatim>\<open>graphs/explorer.tsx\<close>, \<^verbatim>\<open>graphs/table.tsx\<close>): the configuration of the chain, the
  table of blocks with its pages, and the age of the chain (\<^verbatim>\<open>lib/utils.ts\<close>). Requests are answered in any order; sorting,
  filtering and hiding of columns is left to the table library.
\<close>

section \<open>The table of blocks\<close>

record block_table =
  table_data :: jv
  table_loading :: bool
  pageIndex :: rat
  pageSize :: rat
  table_total :: jv
  table_asked :: "(jnum \<times> jnum) list"

definition page_range :: "block_table \<Rightarrow> jnum \<times> jnum" where
  "page_range t =
     (let start = nadd (nmul (Some (pageIndex t)) (Some (pageSize t))) (Some 1)
      in (start, nlift min (to_number (table_total t)) (nsub (nadd start (Some (pageSize t))) (Some 1))))"

definition fetchBlocksData :: "block_table \<Rightarrow> block_table" where
  "fetchBlocksData t = t\<lparr>table_loading := True, table_asked := table_asked t @ [page_range t]\<rparr>"

definition blocks_answer :: "jv res \<Rightarrow> block_table \<Rightarrow> block_table" where
  "blocks_answer r t =
     (case r of
        Inr d \<Rightarrow> t\<lparr>table_data := d, table_loading := False\<rparr>
      | Inl _ \<Rightarrow> t\<lparr>table_loading := False\<rparr>)"

text \<open>The effect runs when the page, its size or the number of blocks is another one.\<close>

definition effect_fetch :: "block_table \<Rightarrow> block_table \<Rightarrow> block_table" where
  "effect_fetch old t =
     (if pageIndex old = pageIndex t \<and> pageSize old = pageSize t \<and> table_total old = table_total t then t else fetchBlocksData t)"

definition totalPages :: "block_table \<Rightarrow> jnum" where
  "totalPages t = nceil (ndiv (to_number (table_total t)) (Some (pageSize t)))"

definition handlePageChange :: "jnum \<Rightarrow> block_table \<Rightarrow> block_table" where
  "handlePageChange newPageIndex t =
     (case newPageIndex of
        Some p \<Rightarrow> if 0 \<le> p \<and> nless (Some p) (totalPages t) then t\<lparr>pageIndex := p\<rparr> else t
      | None \<Rightarrow> t)"

definition visiblePages :: rat where
  "visiblePages = 5"

definition startPage :: "block_table \<Rightarrow> jnum" where
  "startPage t =
     nlift max (Some 0) (nlift min (nsub (Some (pageIndex t)) (nfloor (ndiv (Some visiblePages) (Some 2))))
       (nsub (totalPages t) (Some visiblePages)))"

definition endPage :: "block_table \<Rightarrow> jnum" where
  "endPage t = nlift min (nadd (startPage t) (Some visiblePages)) (totalPages t)"

definition page_buttons :: "block_table \<Rightarrow> jnum list" where
  "page_buttons t =
     (case nsub (endPage t) (startPage t) of
        Some n \<Rightarrow> map (\<lambda>i. nadd (startPage t) (Some (of_int i))) [0..\<lfloor>n\<rfloor> - 1]
      | None \<Rightarrow> [])"

definition page_sizes :: "rat list" where
  "page_sizes = [5, 10, 20, 50, 100, 200]"

definition set_size :: "rat \<Rightarrow> block_table \<Rightarrow> block_table" where
  "set_size s t = (if s \<in> set page_sizes then t\<lparr>pageSize := s, pageIndex := 0\<rparr> else t)"

text \<open>The buttons below the table; a disabled button does nothing.\<close>

datatype button = GoToStart | Previous | PageNumber jnum | Next | GoToEnd

definition click :: "button \<Rightarrow> block_table \<Rightarrow> block_table" where
  "click b t =
     (let at_end = (nsub (totalPages t) (Some 1) = Some (pageIndex t))
      in case b of
           GoToStart \<Rightarrow> if pageIndex t = 0 then t else handlePageChange (Some 0) t
         | Previous \<Rightarrow> if pageIndex t = 0 then t else handlePageChange (nsub (Some (pageIndex t)) (Some 1)) t
         | PageNumber p \<Rightarrow> if p \<in> set (page_buttons t) then handlePageChange p t else t
         | Next \<Rightarrow> if at_end then t else handlePageChange (nadd (Some (pageIndex t)) (Some 1)) t
         | GoToEnd \<Rightarrow> if at_end then t else handlePageChange (nsub (totalPages t) (Some 1)) t)"

text \<open>While a request is loading, placeholders are shown instead of the buttons.\<close>

datatype table_event = Click button | SelectSize rat | Refresh | Answer "jv res" | Total jv

fun table_step :: "block_table \<Rightarrow> table_event \<Rightarrow> block_table" where
  "table_step t (Click b) = (if table_loading t then t else effect_fetch t (click b t))"
| "table_step t (SelectSize s) = (if table_loading t then t else effect_fetch t (set_size s t))"
| "table_step t Refresh = (if table_loading t then t else fetchBlocksData t)"
| "table_step t (Answer r) = blocks_answer r t"
| "table_step t (Total v) = effect_fetch t (t\<lparr>table_total := v\<rparr>)"

definition open_table :: "jv \<Rightarrow> block_table" where
  "open_table v = fetchBlocksData \<lparr>table_data = Arr [], table_loading = False, pageIndex = 0, pageSize = 10, table_total = v, table_asked = []\<rparr>"

section \<open>The explorer page\<close>

record explorer =
  configData :: jv
  explorer_loading :: bool
  explorer_error :: "js_error option"
  explorer_table :: "block_table option"

definition block_total :: "jv \<Rightarrow> jv" where
  "block_total metadata = js_or (oprop metadata ''blockNum'') (Num 175)"

definition show_blocks :: "explorer \<Rightarrow> explorer" where
  "show_blocks e =
     e\<lparr>explorer_table :=
        (if truthy (configData e)
         then Some (case explorer_table e of
                      None \<Rightarrow> open_table (block_total (configData e))
                    | Some t \<Rightarrow> table_step t (Total (block_total (configData e))))
         else None)\<rparr>"

definition open_explorer :: explorer where
  "open_explorer = show_blocks \<lparr>configData = Obj [], explorer_loading = True, explorer_error = None, explorer_table = None\<rparr>"

definition fetchExplorerData :: "jv res \<Rightarrow> explorer \<Rightarrow> explorer" where
  "fetchExplorerData response e =
     (case bind_res response (\<lambda>d. elem_at d 0) of
        Inr v \<Rightarrow> show_blocks (e\<lparr>configData := v, explorer_loading := False\<rparr>)
      | Inl err \<Rightarrow> e\<lparr>explorer_loading := False, explorer_error := Some err\<rparr>)"

text \<open>The age of the chain, as a time that has passed since a date.\<close>

definition formatSeconds :: "(string \<Rightarrow> int option) \<Rightarrow> int \<Rightarrow> jv \<Rightarrow> string" where
  "formatSeconds other now created =
     (case date_value other created of
        None \<Rightarrow> []
      | Some t \<Rightarrow>
          (let diffInSeconds = (now - t) div 1000;
               days = diffInSeconds div 86400;
               rem = (\<lambda>m. if diffInSeconds < 0 then - (- diffInSeconds mod m) else diffInSeconds mod m);
               hours = rem 86400 div 3600;
               minutes = rem 3600 div 60;
               seconds = rem 60
           in trim ((if 0 < days then show_int days @ ''d '' else []) @ (if 0 < hours then show_int hours @ ''h '' else [])
                @ (if 0 < minutes then show_int minutes @ ''m '' else []) @ (if 0 < seconds then show_int seconds @ ''s'' else []))))"

section \<open>Lemmas\<close>

definition pages :: "int \<Rightarrow> int \<Rightarrow> int" where
  "pages n s = (n + s - 1) div s"

lemma less_pages: "0 < s \<Longrightarrow> i < pages n s \<longleftrightarrow> i * s < n"
proof -
  assume s: "0 < s"
  let ?q = "pages n s"
  have d: "n + s - 1 = ?q * s + (n + s - 1) mod s" "0 \<le> (n + s - 1) mod s" "(n + s - 1) mod s < s" using s by (simp_all add: pages_def)
  show ?thesis
  proof
    assume "i < ?q"
    then have "(i + 1) * s \<le> ?q * s" using s by (intro mult_right_mono) simp_all
    then show "i * s < n" using d by (simp add: distrib_right)
  next
    assume i: "i * s < n"
    show "i < ?q"
    proof (rule ccontr)
      assume "\<not> i < ?q"
      then have "?q * s \<le> i * s" using s by (intro mult_right_mono) simp_all
      then show False using d i by linarith
    qed
  qed
qed

lemma fl_error_small:
  assumes "0 \<le> x" "x < 2 ^ 40"
  shows "\<bar>fl x - x\<bar> < 1 / 200"
proof -
  let ?e = "max (ilog2 \<bar>x\<bar> - 52) (- 1074)"
  have "\<bar>x\<bar> < 2 ^ Suc 39" using assms by (simp only: abs_of_nonneg) simp
  then have "ilog2 \<bar>x\<bar> \<le> int 39" by (rule JS_Number.ilog2_le)
  then have e: "?e \<le> - 13" by simp
  then have "pow2 ?e = 1 / 2 ^ nat (- ?e)" by (simp add: pow2_def)
  also have "\<dots> \<le> 1 / 2 ^ 13"
  proof -
    have "13 \<le> nat (- ?e)" using e by linarith
    then have "(2::rat) ^ 13 \<le> 2 ^ nat (- ?e)" by (rule power_increasing) simp
    then show ?thesis by (simp add: frac_le)
  qed
  finally show ?thesis using fl_error [of x] by simp
qed

lemma ceil_ddiv:
  assumes "0 \<le> n" "n < 2 ^ 40" "0 < s" "s \<le> 200"
  shows "\<lceil>ddiv (of_int n) (of_int s)\<rceil> = pages n s"
proof (cases "n mod s = 0")
  case True
  then obtain q where q: "n = s * q" by auto
  have "safe q" using assms q by (simp add: safe_def) (smt (verit) mult_le_cancel_right1 mult_nonneg_nonneg zero_le_mult_iff)
  then have "ddiv (of_int n) (of_int s) = of_int q" using ddiv_safe [of s q] assms(3) q by simp
  moreover have "pages n s = q"
    using less_pages [OF assms(3), of q n] less_pages [OF assms(3), of "q - 1" n] assms(3) q by (simp add: algebra_simps)
  ultimately show ?thesis by simp
next
  case False
  define q r where "q = n div s" and "r = n mod s"
  have "0 < n mod s" using assms(3) False pos_mod_sign [of s n] by linarith
  then have n: "n = q * s + r" "0 < r" "r < s" 
    using assms(3) pos_mod_bound [of s n] by (simp_all add: q_def r_def)
  let ?x = "of_int n / of_int s :: rat"
  have s: "(0::rat) < of_int s" "of_int s \<le> (200::rat)" using assms(3,4) by simp_all
  have x: "?x = of_int q + of_int r / of_int s" using s by (simp add: n(1) field_simps)
  have r: "of_int r \<ge> (1::rat)" "of_int r \<le> (of_int s - 1 :: rat)" using n(2,3) by simp_all
  have "(1::rat) / 200 \<le> 1 / of_int s" using s by (simp add: frac_le)
  also have "\<dots> \<le> of_int r / of_int s" using s r by (simp add: divide_right_mono)
  finally have lo: "1 / 200 \<le> of_int r / (of_int s :: rat)" .
  have "of_int r / (of_int s :: rat) \<le> (of_int s - 1) / of_int s" using s r by (simp add: divide_right_mono)
  also have "\<dots> = 1 - 1 / of_int s" using s by (simp add: field_simps)
  also have "\<dots> \<le> 1 - 1 / 200" using s by (simp add: frac_le)
  finally have hi: "of_int r / (of_int s :: rat) \<le> 1 - 1 / 200" .
  have "?x \<le> of_int n" using s assms(1,3) by (simp add: divide_le_eq mult_le_cancel_left1)
  also have "of_int n < (2 ^ 40 :: rat)" using assms(2) by (metis of_int_less_iff of_int_numeral of_int_power)
  finally have "\<bar>fl ?x - ?x\<bar> < 1 / 200" using assms(1,3) by (intro fl_error_small) simp_all
  then have "of_int q < fl ?x" "fl ?x \<le> of_int q + 1" using x lo hi by linarith+
  then have "\<lceil>fl ?x\<rceil> = q + 1" by (intro ceiling_unique) simp_all
  moreover have "pages n s = q + 1"
    using less_pages [OF assms(3), of "q + 1" n] less_pages [OF assms(3), of q n] n by (simp add: distrib_right)
  ultimately show ?thesis by (simp add: ddiv_def)
qed

text \<open>A table over \<open>n\<close> blocks that shows page \<open>i\<close> of pages of \<open>s\<close> blocks.\<close>

definition on_page :: "int \<Rightarrow> int \<Rightarrow> int \<Rightarrow> block_table \<Rightarrow> bool" where
  "on_page n s i t \<longleftrightarrow> 1 \<le> n \<and> n < 2 ^ 40 \<and> of_int s \<in> set page_sizes \<and> 0 \<le> i \<and> i < pages n s
     \<and> table_total t = Num (of_int n) \<and> pageSize t = of_int s \<and> pageIndex t = of_int i"

lemma page_sizes_bounds: "of_int s \<in> set page_sizes \<Longrightarrow> 5 \<le> s \<and> s \<le> 200"
  by (auto simp: page_sizes_def)

lemma pages_bounds: "1 \<le> n \<Longrightarrow> n < 2 ^ 40 \<Longrightarrow> 0 < s \<Longrightarrow> 1 \<le> pages n s \<and> pages n s \<le> n"
  using less_pages [of s 0 n] less_pages [of s n n] by (simp add: not_less [symmetric] flip: linorder_not_less)

lemma totalPages_int:
  assumes "on_page n s i t"
  shows "totalPages t = Some (of_int (pages n s))"
  using assms page_sizes_bounds [of s] ceil_ddiv [of n s] by (simp add: totalPages_def on_page_def nceil_def)

lemma page_range_total:
  assumes "on_page n s i t"
  shows "page_range (t\<lparr>table_total := Num (of_int m)\<rparr>) = (Some (of_int (i * s + 1)), Some (of_int (min m (i * s + s))))"
proof -
  note t = assms [unfolded on_page_def]
  have s: "5 \<le> s" "s \<le> 200" using page_sizes_bounds t by simp_all
  have b: "0 \<le> i * s" "i * s < n" using less_pages [of s i n] t s by simp_all
  then have f: "safe (i * s)" "safe (i * s + 1)" "safe (i * s + 1 + s)" "safe (i * s + 1 + s - 1)"
    using t s by (simp_all add: safe_def)
  have a: "dadd (dmul (of_int i) (of_int s)) 1 = of_int (i * s + 1)" using dmul_safe [OF f(1)] dadd_safe [OF f(2)] by simp
  have e: "dsub (dadd (of_int (i * s + 1)) (of_int s)) 1 = of_int (i * s + s)"
    using dadd_safe [OF f(3)] dsub_safe [OF f(4)] by simp
  have "pageSize t = of_int s" "pageIndex t = of_int i" using t by blast+
  then show ?thesis by (simp add: page_range_def del: of_int_mult of_int_add) (simp only: a e of_int_min)
qed

lemma page_range_int:
  assumes "on_page n s i t"
  shows "page_range t = (Some (of_int (i * s + 1)), Some (of_int (min n (i * s + s))))"
proof -
  have t: "t\<lparr>table_total := Num (of_int n)\<rparr> = t" using assms by (cases t) (simp add: on_page_def)
  show ?thesis using page_range_total [OF assms, of n] unfolding t .
qed

lemma safe_small: "\<bar>k\<bar> \<le> 2 ^ 41 \<Longrightarrow> safe k"
  by (simp add: safe_def)

lemma page_change:
  assumes "on_page n s i t" "\<bar>j\<bar> \<le> 2 ^ 41"
  shows "\<exists>k. on_page n s k (handlePageChange (Some (of_int j)) t) \<and> (0 \<le> j \<and> j < pages n s \<longrightarrow> k = j)"
proof (cases "0 \<le> j \<and> j < pages n s")
  case True
  then show ?thesis using assms totalPages_int [OF assms(1)] by (intro exI [of _ j]) (simp add: handlePageChange_def on_page_def)
next
  case False
  then have "handlePageChange (Some (of_int j)) t = t"
    using totalPages_int [OF assms(1)] by (auto simp: handlePageChange_def)
  then show ?thesis using assms(1) False by (intro exI [of _ i]) auto
qed

lemma startPage_int:
  assumes "on_page n s i t"
  shows "startPage t = Some (of_int (max 0 (min (i - 2) (pages n s - 5))))"
proof -
  note t = assms [unfolded on_page_def]
  have b: "1 \<le> pages n s \<and> pages n s \<le> n" using pages_bounds [of n s] page_sizes_bounds [of s] t by simp
  have h: "\<lfloor>ddiv 5 2\<rfloor> = 2" by code_simp
  have "dsub (of_int i) 2 = of_int (i - 2)" "dsub (of_int (pages n s)) 5 = of_int (pages n s - 5)"
    using dsub_safe [of i 2] dsub_safe [of "pages n s" 5] safe_small [of "i - 2"] safe_small [of "pages n s - 5"] t b by auto
  then show ?thesis
    using t totalPages_int [OF assms] by (simp add: startPage_def visiblePages_def nfloor_def h of_int_max of_int_min)
qed

lemma endPage_int:
  assumes "on_page n s i t"
  shows "endPage t = Some (of_int (min (max 0 (min (i - 2) (pages n s - 5)) + 5) (pages n s)))"
proof -
  note t = assms [unfolded on_page_def]
  let ?a = "max 0 (min (i - 2) (pages n s - 5))"
  have b: "1 \<le> pages n s \<and> pages n s \<le> n" using pages_bounds [of n s] page_sizes_bounds [of s] t by simp
  have "safe (?a + 5)" using t b by (intro safe_small) auto
  then have "dadd (of_int ?a) 5 = of_int (?a + 5)" using dadd_safe [of ?a 5] by simp
  then show ?thesis
    unfolding endPage_def startPage_int [OF assms] totalPages_int [OF assms] visiblePages_def
    by (simp only: nlift.simps of_int_min)
qed

lemma page_buttons_int:
  assumes "on_page n s i t"
  shows "page_buttons t = map (\<lambda>j. Some (of_int j)) [max 0 (min (i - 2) (pages n s - 5))..min (max 0 (min (i - 2) (pages n s - 5)) + 5) (pages n s) - 1]"
proof -
  note t = assms [unfolded on_page_def]
  define a where "a = max 0 (min (i - 2) (pages n s - 5))"
  define b where "b = min (a + 5) (pages n s)"
  have p: "1 \<le> pages n s" "pages n s \<le> n" using pages_bounds [of n s] page_sizes_bounds [of s] t by simp_all
  have ab: "0 \<le> a" "a \<le> n" "a < b" "b \<le> a + 5" using p t by (simp_all add: a_def b_def)
  have "dsub (of_int b) (of_int a) = of_int (b - a)" using ab by (intro dsub_safe) (simp add: safe_def)
  moreover have "dadd (of_int a) (of_int j) = of_int (a + j)" if "j \<in> set [0..b - a - 1]" for j
    using that ab t by (intro dadd_safe) (simp add: safe_def)
  ultimately have "page_buttons t = map (\<lambda>j. Some (of_int (a + j))) [0..b - a - 1]"
    unfolding page_buttons_def startPage_int [OF assms] endPage_int [OF assms] a_def [symmetric] b_def [symmetric]
    by (simp only: nlift.simps option.case floor_of_int) (simp cong: map_cong)
  also have "\<dots> = map (\<lambda>j. Some (of_int j)) (map ((+) a) [0..b - a - 1])" by simp
  also have "map ((+) a) [0..b - a - 1] = [a..b - 1]"
    by (rule nth_equalityI) simp_all
  finally show ?thesis by (simp add: a_def b_def)
qed

lemma click_on_page:
  assumes "on_page n s i t"
  shows "\<exists>k. on_page n s k (click b t)"
proof -
  note t = assms [unfolded on_page_def]
  have p: "1 \<le> pages n s" "pages n s \<le> n" using pages_bounds [of n s] page_sizes_bounds [of s] t by simp_all
  have small: "\<bar>i\<bar> < 2 ^ 40" "pages n s < 2 ^ 40" using t p by simp_all
  have d: "dsub (of_int i) 1 = of_int (i - 1)" "dadd (of_int i) 1 = of_int (i + 1)" "dsub (of_int (pages n s)) 1 = of_int (pages n s - 1)"
    using dsub_safe [of i 1] dadd_safe [of i 1] dsub_safe [of "pages n s" 1] small p by (simp_all add: safe_def)
  have c: "\<exists>k. on_page n s k (handlePageChange (Some (of_int j)) t)" if "\<bar>j\<bar> \<le> 2 ^ 41" for j
    using page_change [OF assms that] by blast
  have pi: "pageIndex t = of_int i" using t by simp
  show ?thesis
  proof (cases b)
    case GoToStart
    then show ?thesis using assms c [of 0] by (auto simp: click_def)
  next
    case Previous
    then show ?thesis using assms c [of "i - 1"] small by (auto simp: click_def pi d)
  next
    case (PageNumber x)
    show ?thesis
    proof (cases "x \<in> set (page_buttons t)")
      case True
      then obtain j where "x = Some (of_int j)" "0 \<le> j" "j < pages n s" by (auto simp: page_buttons_int [OF assms])
      then show ?thesis using PageNumber True c [of j] small by (simp add: click_def)
    qed (use assms PageNumber in \<open>auto simp: click_def\<close>)
  next
    case Next
    then show ?thesis using assms c [of "i + 1"] small by (auto simp: click_def pi d)
  next
    case GoToEnd
    then show ?thesis using assms c [of "pages n s - 1"] small p totalPages_int [OF assms] by (auto simp: click_def d)
  qed
qed

definition inside :: "int \<Rightarrow> jnum \<times> jnum \<Rightarrow> bool" where
  "inside n r \<longleftrightarrow> (\<exists>a b. r = (Some (of_int a), Some (of_int b)) \<and> 1 \<le> a \<and> a \<le> b \<and> b \<le> n \<and> b - a < 200)"

definition table_ok :: "int \<Rightarrow> block_table \<Rightarrow> bool" where
  "table_ok n t \<longleftrightarrow> (\<exists>s i. on_page n s i t) \<and> (\<forall>r \<in> set (table_asked t). inside n r)"

fun keeps_total :: "int \<Rightarrow> table_event \<Rightarrow> bool" where
  "keeps_total n (Total v) = (v = Num (of_int n))"
| "keeps_total n _ = True"

lemma on_page_fields [simp]:
  "on_page n s i (t\<lparr>table_loading := l\<rparr>) = on_page n s i t" "on_page n s i (t\<lparr>table_data := d\<rparr>) = on_page n s i t"
  "on_page n s i (t\<lparr>table_asked := xs\<rparr>) = on_page n s i t"
  by (simp_all add: on_page_def)

lemma page_inside: "on_page n s i t \<Longrightarrow> inside n (page_range t)"
proof -
  assume t: "on_page n s i t"
  then have s: "5 \<le> s" "s \<le> 200" using page_sizes_bounds by (simp_all add: on_page_def)
  then have "0 \<le> i * s" "i * s < n" using t less_pages [of s i n] by (simp_all add: on_page_def)
  then show ?thesis
    using s by (simp only: inside_def page_range_int [OF t]) (intro exI [of _ "i * s + 1"] exI [of _ "min n (i * s + s)"], auto)
qed

lemma fetch_ok: "on_page n s i t \<Longrightarrow> table_ok n t \<Longrightarrow> table_ok n (fetchBlocksData t)"
  using page_inside [of n s i t] by (auto simp: table_ok_def fetchBlocksData_def)

lemma click_asked [simp]: "table_asked (click b t) = table_asked t" "table_asked (set_size x t) = table_asked t"
  by (auto simp: click_def handlePageChange_def set_size_def Let_def split: button.split option.split)

lemma effect_ok:
  assumes "table_ok n old" "\<exists>s i. on_page n s i t" "table_asked t = table_asked old"
  shows "table_ok n (effect_fetch old t)"
proof -
  have "table_ok n t" using assms by (simp add: table_ok_def)
  then show ?thesis using assms(2) fetch_ok by (auto simp: effect_fetch_def)
qed

lemma set_size_on_page:
  assumes "on_page n s i t"
  shows "\<exists>s i. on_page n s i (set_size x t)"
proof (cases "x \<in> set page_sizes")
  case True
  then obtain z where z: "x = of_int z" by (auto simp: page_sizes_def intro: that [of 5] that [of 10] that [of 20] that [of 50] that [of 100] that [of 200])
  have "0 < pages n z" using assms True z page_sizes_bounds [of z] pages_bounds [of n z] by (simp add: on_page_def)
  then show ?thesis using assms True z by (intro exI [of _ z] exI [of _ 0]) (simp add: on_page_def set_size_def)
qed (use assms in \<open>auto simp: set_size_def\<close>)

lemma table_step_ok:
  assumes "table_ok n t" "keeps_total n e"
  shows "table_ok n (table_step t e)"
proof -
  obtain s i where p: "on_page n s i t" using assms(1) by (auto simp: table_ok_def)
  show ?thesis
  proof (cases e)
    case (Click b)
    have "\<exists>s i. on_page n s i (click b t)" using click_on_page [OF p, of b] by (rule exI)
    then show ?thesis using Click assms(1) effect_ok [OF assms(1), of "click b t"] by simp
  next
    case (SelectSize x)
    then show ?thesis using assms(1) effect_ok [OF assms(1), of "set_size x t"] set_size_on_page [OF p] by simp
  next
    case Refresh
    then show ?thesis using assms(1) fetch_ok [OF p] by simp
  next
    case (Answer r)
    then show ?thesis using assms(1) by (auto simp: table_ok_def blocks_answer_def split: sum.split)
  next
    case (Total v)
    then have "t\<lparr>table_total := v\<rparr> = t" using assms(2) p by (simp add: on_page_def)
    then show ?thesis using Total assms(1) by (simp add: effect_fetch_def)
  qed
qed

interpretation tbl: stepper "\<lambda>t e. if keeps_total n e then table_step t e else t" "table_ok n" for n
  by unfold_locales (simp add: table_step_ok)

lemma keeps_run: "list_all (keeps_total n) es \<Longrightarrow> foldl (\<lambda>t e. if keeps_total n e then table_step t e else t) t es = foldl table_step t es"
  by (induction es arbitrary: t) simp_all

lemma open_table_ok: "1 \<le> n \<Longrightarrow> n < 2 ^ 40 \<Longrightarrow> table_ok n (open_table (Num (of_int n)))"
proof -
  assume n: "1 \<le> n" "n < 2 ^ 40"
  let ?t = "\<lparr>table_data = Arr [], table_loading = False, pageIndex = 0, pageSize = 10, table_total = Num (of_int n), table_asked = []\<rparr>"
  have "on_page n 10 0 ?t" using n pages_bounds [of n 10] by (simp add: on_page_def page_sizes_def)
  then show ?thesis unfolding open_table_def by (rule fetch_ok) (use \<open>on_page n 10 0 ?t\<close> in \<open>auto simp: table_ok_def\<close>)
qed

lemma current_button: "on_page n s i t \<Longrightarrow> Some (pageIndex t) \<in> set (page_buttons t)"
  using page_buttons_int [of n s i t] by (auto simp: on_page_def intro!: image_eqI [of _ _ i])

lemma pages_concat:
  assumes "0 < s" "int k \<le> pages n s"
  shows "concat (map (\<lambda>i. [i * s + 1..min n (i * s + s)]) [0..int k - 1]) = [1..min n (int k * s)]"
  using assms(2)
proof (induction k)
  case 0
  then show ?case by (simp add: min_def)
next
  case (Suc k)
  let ?f = "\<lambda>i. [i * s + 1..min n (i * s + s)]"
  have k: "int k * s < n" using less_pages [OF assms(1), of "int k" n] Suc.prems by simp
  have "0 \<le> int k * s" using assms(1) by simp
  have "[0..int (Suc k) - 1] = [0..int k - 1] @ [int k]" using upto_rec2 [of 0 "int k"] by simp
  then have "concat (map ?f [0..int (Suc k) - 1]) = [1..int k * s] @ [int k * s + 1..min n (int k * s + s)]"
    using Suc k by simp
  also have "\<dots> = [1..min n (int k * s + s)]"
    using upto_split1 [of 1 "int k * s + 1" "min n (int k * s + s)"] k \<open>0 \<le> int k * s\<close> assms(1) by simp
  also have "int k * s + s = int (Suc k) * s" by (simp add: distrib_right)
  finally show ?case .
qed

text \<open>The numbers of the blocks on a page.\<close>

definition page_blocks :: "block_table \<Rightarrow> int list" where
  "page_blocks t = (case page_range t of (Some a, Some b) \<Rightarrow> [\<lfloor>a\<rfloor>..\<lfloor>b\<rfloor>] | _ \<Rightarrow> [])"

text \<open>
  When the number of blocks arrives while a later page of the assumed 175 blocks is shown, the table stays on that page and
  asks for a range that ends before it starts.
\<close>

lemma shrunk_total_asks_backwards:
  assumes "on_page n s i t" "m \<le> i * s"
  shows "last (table_asked (table_step t (Total (Num (of_int m))))) = (Some (of_int (i * s + 1)), Some (of_int m))"
proof -
  have "i * s < n" "0 < s" using assms(1) less_pages [of s i n] page_sizes_bounds [of s] by (simp_all add: on_page_def)
  then have "m \<noteq> n" "min m (i * s + s) = m" using assms(2) by simp_all
  then show ?thesis
    using assms(1) page_range_total [OF assms(1), of m] by (simp add: effect_fetch_def fetchBlocksData_def on_page_def del: of_int_mult of_int_add)
qed

text \<open>The card shows the age in seconds as if it were a date: an hour is shown as the time since 1970.\<close>

lemma chain_age_shown: "formatSeconds (\<lambda>_. None) 1700000000000 (Num 3600) = ''19675d 22h 13m 16s''"
proof -
  have "show_int 19675 = ''19675''" "show_int 22 = ''22''" "show_int 13 = ''13''" "show_int 16 = ''16''"
    by (simp_all add: show_int_def digit_def show_nat.simps char_of_def bit_0)
  moreover have "trim ''19675d 22h 13m 16s'' = ''19675d 22h 13m 16s''" by (rule trim_fixed) (simp add: is_ws_def)
  moreover have "date_value (\<lambda>_. None) (Num 3600) = Some 3600" by (simp add: date_value_def date_of_def time_clip_def)
  ultimately show ?thesis unfolding formatSeconds_def by (simp add: Let_def)
qed

section \<open>Properties\<close>

text \<open>
  C20: The pages partition the chain. For any number of blocks and any page size offered, the pages of the table, one after
  the other, cover the blocks 1 to \<open>n\<close>, each exactly once and in order, although the number of pages is computed with doubles.
\<close>

theorem pages_partition:
  assumes "1 \<le> n" "n < 2 ^ 40" "table_total t = Num (of_int n)" "pageSize t \<in> set page_sizes"
  shows "\<exists>k. totalPages t = Some (of_int k) \<and> concat (map (\<lambda>i. page_blocks (t\<lparr>pageIndex := of_int i\<rparr>)) [0..k - 1]) = [1..n]"
proof -
  obtain s where s: "pageSize t = of_int s"
    using assms(4) by (auto simp: page_sizes_def intro: that [of 5] that [of 10] that [of 20] that [of 50] that [of 100] that [of 200])
  let ?k = "pages n s"
  have b: "5 \<le> s" "s \<le> 200" using page_sizes_bounds [of s] assms(4) s by simp_all
  have k: "1 \<le> ?k" using pages_bounds [OF assms(1,2), of s] b by simp
  have p: "on_page n s i (t\<lparr>pageIndex := of_int i\<rparr>)" if "i \<in> {0..<?k}" for i
    using that assms s by (simp add: on_page_def)
  have "totalPages t = totalPages (t\<lparr>pageIndex := of_int 0\<rparr>)" by (simp add: totalPages_def)
  then have t: "totalPages t = Some (of_int ?k)" using totalPages_int [OF p [of 0]] k by simp
  have m: "map (\<lambda>i. page_blocks (t\<lparr>pageIndex := of_int i\<rparr>)) [0..?k - 1] = map (\<lambda>i. [i * s + 1..min n (i * s + s)]) [0..?k - 1]"
  proof (intro map_cong refl)
    fix i assume "i \<in> set [0..?k - 1]"
    then have "i \<in> {0..<?k}" by simp
    then show "page_blocks (t\<lparr>pageIndex := of_int i\<rparr>) = [i * s + 1..min n (i * s + s)]"
      by (simp only: page_blocks_def page_range_int [OF p] prod.case option.case floor_of_int)
  qed
  have "min n (?k * s) = n" using less_pages [of s ?k n] b by simp
  then show ?thesis using t pages_concat [of s "nat ?k" n] b k by (intro exI [of _ ?k]) (simp only: m, simp)
qed

theorem pages_partition_witness:
  "let t = (open_table (Num 23))\<lparr>pageSize := 10\<rparr>
   in totalPages t = Some 3 \<and> concat (map (\<lambda>i. page_blocks (t\<lparr>pageIndex := of_int i\<rparr>)) [0..2]) = [1..23]"
proof -
  let ?t = "(open_table (Num 23))\<lparr>pageSize := 10\<rparr>"
  have "table_total ?t = Num (of_int 23)" "pageSize ?t \<in> set page_sizes"
    by (simp_all add: open_table_def fetchBlocksData_def page_sizes_def)
  from pages_partition [OF _ _ this] obtain k where k: "totalPages ?t = Some (of_int k)"
      "concat (map (\<lambda>i. page_blocks (?t\<lparr>pageIndex := of_int i\<rparr>)) [0..k - 1]) = [1..23]"
    by auto
  have "totalPages ?t = Some 3" by code_simp
  with k(1) have "of_int k = (of_int 3 :: rat)" by (simp only: option.inject of_int_numeral)
  then have "k = 3" by (simp only: of_int_eq_iff)
  with k show ?thesis by simp
qed



end
