(* ===== verification/Reslens_Profile.thy ===== *)
theory Reslens_Profile
  imports Reslens_Metrics
begin

text \<open>
  CPU profiles in the ResLens middleware: \<^verbatim>\<open>utils/pprofConverter.js\<close> reads the text of \<^verbatim>\<open>go tool pprof\<close> and writes a
  report, \<^verbatim>\<open>utils/profileAnalyzer.js\<close> sends it to a language model, and \<^verbatim>\<open>controllers/pyroscope.js\<close> serves both. The
  profile store, the program and the model are parameters.
\<close>

section \<open>Patterns\<close>

text \<open>
  One piece of a pattern at the start of a text: what it matches and the rest. In the patterns of this file the
  character after a repetition never belongs to its class, so the longest repetition is the only one.
\<close>

definition rep1 :: "(char \<Rightarrow> bool) \<Rightarrow> string \<Rightarrow> (string \<times> string) option" where
  "rep1 P s = (if takeWhile P s = [] then None else Some (takeWhile P s, dropWhile P s))"

definition lit :: "string \<Rightarrow> string \<Rightarrow> string option" where
  "lit p s = (if starts_with s p then Some (drop (length p) s) else None)"

definition in_float :: "char \<Rightarrow> bool" where
  "in_float c = (is_digit c \<or> c = CHR ''.'')"

definition line_terminator :: "char \<Rightarrow> bool" where
  "line_terminator c = (code c = 10 \<or> code c = 13)"

text \<open>\<^verbatim>\<open>(\d+)samples\<close> and \<^verbatim>\<open>([\d.]+)%\<close>\<close>

definition samples_at :: "string \<Rightarrow> (string \<times> string) option" where
  "samples_at s = Option.bind (rep1 is_digit s) (\<lambda>(ds, r). map_option (\<lambda>q. (ds, q)) (lit ''samples'' r))"

definition percent_at :: "string \<Rightarrow> (string \<times> string) option" where
  "percent_at s = Option.bind (rep1 in_float s) (\<lambda>(ds, r). map_option (\<lambda>q. (ds, q)) (lit ''%'' r))"

definition blanks :: "string \<Rightarrow> string option" where
  "blanks s = map_option snd (rep1 is_ws s)"

text \<open>The leftmost match.\<close>

fun search :: "(string \<Rightarrow> 'a option) \<Rightarrow> string \<Rightarrow> 'a option" where
  "search m [] = m []"
| "search m (c # s) = (case m (c # s) of Some x \<Rightarrow> Some x | None \<Rightarrow> search m s)"

section \<open>Reading the text\<close>

record profile_entry =
  flat_samples :: rat
  flat_percent :: jv
  sum_percent :: jv
  cum_samples :: rat
  cum_percent :: jv
  fn_name :: string

record metadata =
  time_text :: string
  total_samples :: rat
  shown_samples :: rat
  shown_percent :: jv
  dropped_nodes :: rat

definition int10 :: "string \<Rightarrow> rat" where
  "int10 ds = fl (of_nat (digits_val ds))"

text \<open>
  The pattern of a line. After the last blanks at least one character follows, because the line is trimmed.
\<close>

definition line_match :: "string \<Rightarrow> (string \<times> string \<times> string \<times> string \<times> string \<times> string) option" where
  "line_match s =
     Option.bind (samples_at s) (\<lambda>(a, s1). Option.bind (blanks s1) (\<lambda>s2.
     Option.bind (percent_at s2) (\<lambda>(b, s3). Option.bind (blanks s3) (\<lambda>s4.
     Option.bind (percent_at s4) (\<lambda>(c, s5). Option.bind (blanks s5) (\<lambda>s6.
     Option.bind (samples_at s6) (\<lambda>(d, s7). Option.bind (blanks s7) (\<lambda>s8.
     Option.bind (percent_at s8) (\<lambda>(e, s9). Option.bind (blanks s9) (\<lambda>t.
     let g = takeWhile (\<lambda>c. \<not> line_terminator c) t in if g = [] then None else Some (a, b, c, d, e, g)))))))))))"

definition line_entry :: "string \<Rightarrow> profile_entry option" where
  "line_entry line =
     map_option (\<lambda>(a, b, c, d, e, g).
       \<lparr>flat_samples = int10 a, flat_percent = parse_float b, sum_percent = parse_float c,
        cum_samples = int10 d, cum_percent = parse_float e, fn_name = trim g\<rparr>)
     (search line_match line)"

definition time_match :: "string \<Rightarrow> string option" where
  "time_match s = map_option (takeWhile (\<lambda>c. \<not> line_terminator c)) (lit ''Time: '' s)"

definition shown_match :: "string \<Rightarrow> (string \<times> string \<times> string) option" where
  "shown_match s =
     Option.bind (lit ''Showing nodes accounting for '' s) (\<lambda>s1. Option.bind (samples_at s1) (\<lambda>(a, s2).
     Option.bind (lit '', '' s2) (\<lambda>s3. Option.bind (percent_at s3) (\<lambda>(b, s4).
     Option.bind (lit '' of '' s4) (\<lambda>s5. Option.bind (samples_at s5) (\<lambda>(c, s6).
     map_option (\<lambda>_. (a, b, c)) (lit '' total'' s6)))))))"

definition dropped_match :: "string \<Rightarrow> string option" where
  "dropped_match s =
     Option.bind (lit ''Dropped '' s) (\<lambda>s1. Option.bind (rep1 is_digit s1) (\<lambda>(a, s2).
     Option.bind (lit '' nodes (cum <= '' s2) (\<lambda>s3. Option.bind (samples_at s3) (\<lambda>(b, s4).
     map_option (\<lambda>_. a) (lit '')'' s4)))))"

text \<open>The lines after the first one that starts with the column names; all of them if there is none.\<close>

definition is_heading :: "string \<Rightarrow> bool" where
  "is_heading l = starts_with (trim l) ''flat  flat%''"

definition data_lines :: "string list \<Rightarrow> string list" where
  "data_lines ls = (if list_ex is_heading ls then tl (dropWhile (\<lambda>l. \<not> is_heading l) ls) else ls)"

definition read_metadata :: "string \<Rightarrow> metadata" where
  "read_metadata content =
     (let sm = search shown_match content in
      \<lparr>time_text = (case search time_match content of Some t \<Rightarrow> t | None \<Rightarrow> ''Unknown''),
       total_samples = (case sm of Some (a, b, c) \<Rightarrow> int10 c | None \<Rightarrow> 0),
       shown_samples = (case sm of Some (a, b, c) \<Rightarrow> int10 a | None \<Rightarrow> 0),
       shown_percent = (case sm of Some (a, b, c) \<Rightarrow> parse_float b | None \<Rightarrow> Num 0),
       dropped_nodes = (case search dropped_match content of Some d \<Rightarrow> int10 d | None \<Rightarrow> 0)\<rparr>)"

definition parsePprofText :: "string \<Rightarrow> metadata \<times> profile_entry list" where
  "parsePprofText content =
     (read_metadata content,
      List.map_filter (\<lambda>l. if trim l = [] then None else line_entry (trim l))
        (data_lines (split_on newline content)))"

section \<open>Writing the report\<close>

definition entry_row :: "profile_entry \<Rightarrow> string" where
  "entry_row e = ''| '' @ show_num (flat_samples e) @ '' | '' @ js_text (flat_percent e) @ ''% | '' @
     js_text (sum_percent e) @ ''% | '' @ show_num (cum_samples e) @ '' | '' @ js_text (cum_percent e) @
     ''% | `'' @ fn_name e @ ''` |'' @ [newline]"

definition top_by :: "(profile_entry \<Rightarrow> rat) \<Rightarrow> profile_entry list \<Rightarrow> profile_entry list" where
  "top_by key es = take 5 (sort_key (\<lambda>e. - key e) es)"

definition numbered_lines :: "(profile_entry \<Rightarrow> jv) \<Rightarrow> profile_entry list \<Rightarrow> string" where
  "numbered_lines pct es =
     concat (map (\<lambda>(i, e). show_nat (Suc i) @ ''. `'' @ fn_name e @ ''` - '' @ js_text (pct e) @ ''% of total time'' @ [newline])
       (enumerate 0 es))"

definition toMarkdown :: "metadata \<times> profile_entry list \<Rightarrow> string" where
  "toMarkdown d = (case d of (m, es) \<Rightarrow>
     ''# CPU Profile Analysis'' @ [newline, newline] @
     ''**Time:** '' @ time_text m @ [newline, newline] @
     ''**Samples:** '' @ show_num (shown_samples m) @ '' of '' @ show_num (total_samples m) @ '' ('' @
       js_text (shown_percent m) @ ''%)'' @ [newline, newline] @
     ''**Dropped Nodes:** '' @ show_num (dropped_nodes m) @ [newline, newline] @
     ''## Profile Data'' @ [newline, newline] @
     ''| Flat Samples | Flat % | Sum % | Cum Samples | Cum % | Function |'' @ [newline] @
     ''|-------------|--------|-------|-------------|-------|----------|'' @ [newline] @
     concat (map entry_row es) @
     [newline] @ ''## Performance Insights'' @ [newline, newline] @
     ''### Top Functions by Self Time'' @ [newline, newline] @
     numbered_lines flat_percent (top_by flat_samples es) @
     [newline] @ ''### Top Functions by Cumulative Time'' @ [newline, newline] @
     numbered_lines cum_percent (top_by cum_samples es))"

text \<open>\<open>exec\<close> runs a command and gives its standard output.\<close>

definition convertPprofToMarkdown :: "(string \<Rightarrow> string res) \<Rightarrow> string \<Rightarrow> string res" where
  "convertPprofToMarkdown exec profilePath =
     (case exec (''go tool pprof -text '' @ profilePath) of
        Inr stdout \<Rightarrow> Inr (toMarkdown (parsePprofText stdout))
      | Inl err \<Rightarrow> Inl (Error (''Failed to convert profile: '' @ err_message err)))"

section \<open>Analysis\<close>

definition profile_prompt :: "string \<Rightarrow> string" where
  "profile_prompt md = text_lines
     [(0, ''You are an expert performance engineer. Please analyze this CPU profile data and provide insights:''),
      (0, ''1. What are the main performance bottlenecks?''),
      (0, ''2. Which functions or areas of code need optimization?''),
      (0, ''3. What specific recommendations would you make to improve performance?''),
      (0, []), (0, ''Profile data:''), (0, md), (0, []),
      (0, ''Please provide a concise, actionable analysis based on this profile data.''), (0, [])]"

definition model_request :: "string \<Rightarrow> jv" where
  "model_request md =
     Obj [(''contents'', Arr [Obj [(''role'', Str ''user''), (''parts'', Arr [Obj [(''text'', Str (profile_prompt md))]])]]),
          (''generationConfig'', Obj [(''temperature'', Num (fl (1 / 5))), (''maxOutputTokens'', Num 2000)])]"

definition analyzeProfileContent :: "env \<Rightarrow> (string \<Rightarrow> string \<Rightarrow> jv \<Rightarrow> string res) \<Rightarrow> string \<Rightarrow> string res" where
  "analyzeProfileContent e generate md =
     (case bind_res (getEnv e ''GOOGLE_API_KEY'' None) (\<lambda>apiKey. generate apiKey ''gemini-1.5-flash'' (model_request md)) of
        Inr t \<Rightarrow> Inr t
      | Inl err \<Rightarrow> Inl (Error (''Failed to analyze profile: '' @ err_message err)))"

section \<open>Handlers\<close>

definition getProfilingData :: "url_parser \<Rightarrow> env \<Rightarrow> jv http \<Rightarrow> string option \<Rightarrow> string option \<Rightarrow> string option \<Rightarrow>
    string option \<Rightarrow> jv sent_reply res" where
  "getProfilingData parse e get qry from until format =
     bind_res (profile_url parse e qry from until (default_text ''json'' format)) (\<lambda>u.
       Inr (case get u of
              Inr v \<Rightarrow> Sent v
            | Inl err \<Rightarrow> Failed 500 (Obj [(''error'',
                Str (if err_message err = [] then ''An error occurred while fetching profiling data''
                     else err_message err))])))"

text \<open>The middleware's directory of temporary files, by path.\<close>

type_synonym tmp_files = "string \<rightharpoonup> string"

datatype explanation = Markdown string | Unparsable | Unavailable string

definition profile_path :: "string \<Rightarrow> int \<Rightarrow> string" where
  "profile_path dir timestamp = dir @ ''/profile-'' @ show_int timestamp @ ''.pprof''"

text \<open>
  \<open>exec\<close> may depend on the files; the \<^verbatim>\<open>finally\<close> clause removes the profile on every path out of the inner block.
\<close>

definition explainFlamegraph :: "url_parser \<Rightarrow> env \<Rightarrow> string http \<Rightarrow> (tmp_files \<Rightarrow> string \<Rightarrow> string res) \<Rightarrow>
    (string \<Rightarrow> string \<Rightarrow> jv \<Rightarrow> string res) \<Rightarrow> string \<Rightarrow> int \<Rightarrow> string option \<Rightarrow> string option \<Rightarrow> string option \<Rightarrow>
    string option \<Rightarrow> bool \<Rightarrow> tmp_files \<Rightarrow> explanation res \<times> tmp_files" where
  "explainFlamegraph parse e get exec generate dir timestamp qry from until format test f =
     (case profile_url parse e qry from until (default_text ''pprof'' format) of
        Inl err \<Rightarrow> (Inl err, f)
      | Inr u \<Rightarrow>
          if test
          then (case f (dir @ ''/dummy_analysis.md'') of
                  Some t \<Rightarrow> (Inr (Markdown t), f)
                | None \<Rightarrow> (Inl (Error ''ENOENT: no such file or directory''), f))
          else
            (case get u of
               Inl err \<Rightarrow> (Inr (Unavailable (if err_message err = [] then ''Error fetching profiling data''
                                            else err_message err)), f)
             | Inr bytes \<Rightarrow>
                 (let path = profile_path dir timestamp; f1 = f(path \<mapsto> bytes);
                      answer = (case convertPprofToMarkdown (exec f1) path of
                                  Inl _ \<Rightarrow> Unparsable
                                | Inr markdown \<Rightarrow>
                                    (case analyzeProfileContent e generate markdown of
                                       Inr insights \<Rightarrow> Markdown insights
                                     | Inl _ \<Rightarrow> Markdown markdown))
                  in (Inr answer, f1(path := None)))))"

section \<open>Facts about the patterns\<close>

lemma rep1_append:
  "a \<noteq> [] \<Longrightarrow> list_all P a \<Longrightarrow> r = [] \<or> \<not> P (hd r) \<Longrightarrow> rep1 P (a @ r) = Some (a, r)"
proof -
  assume a: "a \<noteq> []" "list_all P a" "r = [] \<or> \<not> P (hd r)"
  have "takeWhile P (a @ r) = a @ takeWhile P r" "dropWhile P (a @ r) = dropWhile P r"
    using a(2) by (auto simp: list_all_iff takeWhile_append2 dropWhile_append2)
  moreover have "takeWhile P r = []" "dropWhile P r = r" using a(3) by (cases r; auto)+
  ultimately show ?thesis using a(1) by (simp add: rep1_def)
qed

lemma lit_append [simp]: "lit p (p @ r) = Some r"
  by (simp add: lit_def)

lemma samples_at_print: "samples_at (show_nat n @ ''samples'' @ r) = Some (show_nat n, r)"
proof -
  have "rep1 is_digit (show_nat n @ ''samples'' @ r) = Some (show_nat n, ''samples'' @ r)"
    using show_nat_digits [of n] by (intro rep1_append) (auto simp: list_all_iff is_digit_def)
  then show ?thesis by (simp only: samples_at_def Option.bind.simps prod.case lit_append option.map)
qed

lemma percent_at_print:
  assumes "p \<noteq> []" "list_all in_float p"
  shows "percent_at (p @ ''%'' @ r) = Some (p, r)"
proof -
  have "rep1 in_float (p @ ''%'' @ r) = Some (p, ''%'' @ r)"
    using assms by (intro rep1_append) (auto simp: in_float_def is_digit_def)
  then show ?thesis by (simp only: percent_at_def Option.bind.simps prod.case lit_append option.map)
qed

lemma blanks_append: "g \<noteq> [] \<Longrightarrow> blank_text g \<Longrightarrow> r \<noteq> [] \<Longrightarrow> \<not> is_ws (hd r) \<Longrightarrow> blanks (g @ r) = Some r"
  by (simp add: blanks_def rep1_append blank_text_def)

lemma search_here: "m s = Some x \<Longrightarrow> search m s = Some x"
  by (cases s) simp_all

lemma in_float_not_ws: "in_float c \<Longrightarrow> \<not> is_ws c"
  by (auto simp: in_float_def is_digit_def is_ws_def)

text \<open>A row of the text: the values as they are printed, and a line that shows them with any blanks between.\<close>

record pprof_row =
  row_flat :: nat
  row_flat_pct :: string
  row_sum_pct :: string
  row_cum :: nat
  row_cum_pct :: string
  row_name :: string

definition row_ok :: "pprof_row \<Rightarrow> bool" where
  "row_ok r = (list_all (\<lambda>p. p \<noteq> [] \<and> list_all in_float p) [row_flat_pct r, row_sum_pct r, row_cum_pct r]
     \<and> row_name r \<noteq> [] \<and> \<not> is_ws (hd (row_name r)) \<and> \<not> is_ws (last (row_name r))
     \<and> list_all (\<lambda>c. \<not> line_terminator c) (row_name r))"

definition row_core :: "pprof_row \<Rightarrow> string \<Rightarrow> string \<Rightarrow> string \<Rightarrow> string \<Rightarrow> string \<Rightarrow> string" where
  "row_core r g1 g2 g3 g4 g5 =
     show_nat (row_flat r) @ ''samples'' @ g1 @ row_flat_pct r @ ''%'' @ g2 @ row_sum_pct r @ ''%'' @ g3 @
     show_nat (row_cum r) @ ''samples'' @ g4 @ row_cum_pct r @ ''%'' @ g5 @ row_name r"

definition shows_row :: "pprof_row \<Rightarrow> string \<Rightarrow> bool" where
  "shows_row r t \<longleftrightarrow> newline \<notin> set t \<and> (\<exists>a z g1 g2 g3 g4 g5. blank_text a \<and> blank_text z
     \<and> list_all (\<lambda>g. g \<noteq> [] \<and> blank_text g) [g1, g2, g3, g4, g5] \<and> t = a @ row_core r g1 g2 g3 g4 g5 @ z)"

definition row_entry :: "pprof_row \<Rightarrow> profile_entry" where
  "row_entry r = \<lparr>flat_samples = fl (of_nat (row_flat r)), flat_percent = parse_float (row_flat_pct r),
     sum_percent = parse_float (row_sum_pct r), cum_samples = fl (of_nat (row_cum r)),
     cum_percent = parse_float (row_cum_pct r), fn_name = row_name r\<rparr>"

lemma show_nat_hd: "\<not> is_ws (hd (show_nat n @ s))"
proof -
  obtain c t where c: "show_nat n = c # t" by (metis show_nat_ne neq_Nil_conv)
  then have "is_digit c" using show_nat_digits [of n] by simp
  with c show ?thesis by (simp add: is_digit_not_ws)
qed

lemma float_hd: "p \<noteq> [] \<Longrightarrow> list_all in_float p \<Longrightarrow> \<not> is_ws (hd (p @ s))"
  by (cases p) (auto simp: in_float_not_ws)

lemma line_match_core:
  assumes "row_ok r" "list_all (\<lambda>g. g \<noteq> [] \<and> blank_text g) [g1, g2, g3, g4, g5]"
  shows "line_match (row_core r g1 g2 g3 g4 g5) =
    Some (show_nat (row_flat r), row_flat_pct r, row_sum_pct r, show_nat (row_cum r), row_cum_pct r, row_name r)"
proof -
  have p: "row_flat_pct r \<noteq> []" "list_all in_float (row_flat_pct r)" "row_sum_pct r \<noteq> []" "list_all in_float (row_sum_pct r)"
      "row_cum_pct r \<noteq> []" "list_all in_float (row_cum_pct r)"
    and n: "row_name r \<noteq> []" "\<not> is_ws (hd (row_name r))" "takeWhile (\<lambda>c. \<not> line_terminator c) (row_name r) = row_name r"
    using assms(1) by (auto simp: row_ok_def list_all_iff takeWhile_eq_all_conv)
  have g: "g1 \<noteq> []" "blank_text g1" "g2 \<noteq> []" "blank_text g2" "g3 \<noteq> []" "blank_text g3" "g4 \<noteq> []" "blank_text g4"
      "g5 \<noteq> []" "blank_text g5"
    using assms(2) by auto
  have ne: "p @ s \<noteq> []" if "p \<noteq> []" for p s :: string using that by simp
  note b = blanks_append [OF g(1,2) ne [OF p(1)] float_hd [OF p(1,2)]]
    blanks_append [OF g(3,4) ne [OF p(3)] float_hd [OF p(3,4)]]
    blanks_append [OF g(5,6) ne [OF show_nat_ne] show_nat_hd]
    blanks_append [OF g(7,8) ne [OF p(5)] float_hd [OF p(5,6)]]
    blanks_append [OF g(9,10) n(1,2)]
  show ?thesis
    unfolding row_core_def line_match_def
    by (simp only: samples_at_print percent_at_print [OF p(1,2)] percent_at_print [OF p(3,4)] percent_at_print [OF p(5,6)]
        b Option.bind.simps prod.case n(3) Let_def if_not_P n(1) not_False_eq_True)
qed

lemma line_entry_row:
  assumes "row_ok r" "shows_row r t"
  shows "line_entry (trim t) = Some (row_entry r)" "trim t \<noteq> []"
proof -
  obtain a z g1 g2 g3 g4 g5 where t: "blank_text a" "blank_text z"
      "list_all (\<lambda>g. g \<noteq> [] \<and> blank_text g) [g1, g2, g3, g4, g5]" "t = a @ row_core r g1 g2 g3 g4 g5 @ z"
    using assms(2) by (auto simp: shows_row_def)
  let ?c = "row_core r g1 g2 g3 g4 g5"
  have n: "row_name r \<noteq> []" "\<not> is_ws (hd (row_name r))" "\<not> is_ws (last (row_name r))"
    using assms(1) by (auto simp: row_ok_def)
  have "?c \<noteq> []" "\<not> is_ws (hd ?c)" "\<not> is_ws (last ?c)"
    using n show_nat_hd unfolding row_core_def by (auto simp del: hd_append2 hd_append)
  then have tr: "trim t = ?c" using t by (simp add: trim_surround)
  have "search line_match ?c =
      Some (show_nat (row_flat r), row_flat_pct r, row_sum_pct r, show_nat (row_cum r), row_cum_pct r, row_name r)"
    by (rule search_here) (rule line_match_core [OF assms(1) t(3)])
  then show "line_entry (trim t) = Some (row_entry r)"
    using n by (simp add: line_entry_def tr row_entry_def int10_def trim_fixed)
  show "trim t \<noteq> []" using \<open>?c \<noteq> []\<close> tr by simp
qed

lemma read_rows:
  assumes "list_all row_ok rs" "list_all2 shows_row rs ls"
  shows "List.map_filter (\<lambda>l. if trim l = [] then None else line_entry (trim l)) ls = map row_entry rs"
  using assms(2,1)
proof (induction rule: list_all2_induct)
  case (Cons x xs y ys)
  then show ?case using line_entry_row [of x y] by (simp add: map_filter_simps)
qed (simp add: map_filter_simps)

lemma data_lines_after:
  assumes "list_all (\<lambda>l. \<not> is_heading l) hs" "is_heading h"
  shows "data_lines (hs @ h # ls) = ls"
  using assms by (simp add: data_lines_def list_all_iff dropWhile_append2)

section \<open>Facts about the report\<close>

lemma top_by_split:
  "\<exists>rest. mset es = mset (top_by key es) + mset rest
     \<and> (\<forall>x \<in> set (top_by key es). \<forall>y \<in> set rest. key y \<le> key x)"
proof -
  let ?s = "sort_key (\<lambda>e. - key e) es"
  have s: "sorted (map (\<lambda>e. - key e) (take 5 ?s @ drop 5 ?s))" by simp
  have "mset es = mset (take 5 ?s @ drop 5 ?s)" by simp
  then have m: "mset es = mset (take 5 ?s) + mset (drop 5 ?s)" by (simp only: mset_append)
  have "\<forall>x \<in> set (take 5 ?s). \<forall>y \<in> set (drop 5 ?s). - key x \<le> - key y"
    using s by (simp only: map_append sorted_append set_map ball_simps) blast
  then show ?thesis
    using m by (intro exI [of _ "drop 5 ?s"]) (simp add: top_by_def)
qed

section \<open>Properties\<close>

text \<open>
  A profile is read completely: of a text whose data part has one line per function in the format of
  \<^verbatim>\<open>go tool pprof -text\<close>, with any blanks between the columns, \<^verbatim>\<open>parsePprofText\<close> gives exactly one entry per line, in
  order, with the printed numbers and the name of the function.
\<close>

lemma pprof_rows_read:
  assumes "list_all row_ok rs" "list_all2 shows_row rs ls"
    and "list_all (\<lambda>l. \<not> is_heading l) hs" "is_heading h" "list_all (\<lambda>l. newline \<notin> set l) (h # hs)"
  shows "snd (parsePprofText (join [newline] (hs @ h # ls))) = map row_entry rs"
proof -
  have "list_all (\<lambda>l. newline \<notin> set l) ls"
    using assms(2) by (induction rule: list_all2_induct) (auto simp: shows_row_def)
  then have "split_on newline (join [newline] (hs @ h # ls)) = hs @ h # ls"
    using assms(5) by (intro split_on_join) (auto simp: list_all_iff)
  then show ?thesis
    by (simp add: parsePprofText_def data_lines_after [OF assms(3,4)] read_rows [OF assms(1,2)])
qed

definition sample_row :: pprof_row where
  "sample_row = \<lparr>row_flat = 5, row_flat_pct = ''2.5'', row_sum_pct = ''2.5'', row_cum = 7, row_cum_pct = ''3'',
     row_name = ''main.run (inline)''\<rparr>"

text \<open>
  The two rankings of the report list the right functions: each has at most five entries, in descending
  order, they are entries of the profile, and no entry left out has more samples than one listed.
\<close>

lemma report_rankings:
  "length (top_by key es) = min 5 (length es)
   \<and> sorted (rev (map key (top_by key es)))
   \<and> (\<exists>rest. mset es = mset (top_by key es) + mset rest
        \<and> (\<forall>x \<in> set (top_by key es). \<forall>y \<in> set rest. key y \<le> key x))"
proof -
  have "sorted (map (\<lambda>e. - key e) (top_by key es))"
    by (simp add: top_by_def sorted_wrt_take flip: take_map)
  then have "sorted_wrt (\<lambda>x y. y \<le> x) (map key (top_by key es))"
    by (simp add: sorted_wrt_map)
  then have "sorted (rev (map key (top_by key es)))" by (simp add: sorted_wrt_rev)
  then show ?thesis using top_by_split [of es key] by (auto simp: top_by_def)
qed

text \<open>
  Explaining a profile leaves no file behind and always answers once the address is known: whatever the
  store, the program and the model do, the temporary files are as before, a failure of the store gives its
  message, a profile that cannot be read is reported as such, and a failing model is replaced by the
  plain report.
\<close>

lemma explain_leaves_no_file:
  assumes "f (profile_path dir timestamp) = None"
    and "profile_url parse e qry from until (default_text ''pprof'' format) = Inr u"
  shows "explainFlamegraph parse e get exec generate dir timestamp qry from until format False f =
    (Inr (case get u of
        Inl err \<Rightarrow> Unavailable (if err_message err = [] then ''Error fetching profiling data'' else err_message err)
      | Inr bytes \<Rightarrow>
          (case exec (f(profile_path dir timestamp \<mapsto> bytes)) (''go tool pprof -text '' @ profile_path dir timestamp) of
             Inl _ \<Rightarrow> Unparsable
           | Inr stdout \<Rightarrow> Markdown (case analyzeProfileContent e generate (toMarkdown (parsePprofText stdout)) of
                 Inr insights \<Rightarrow> insights
               | Inl _ \<Rightarrow> toMarkdown (parsePprofText stdout)))), f)"
proof -
  have "(f(profile_path dir timestamp \<mapsto> b))(profile_path dir timestamp := None) = f" for b
    using assms(1) by auto
  then show ?thesis
    by (auto simp: explainFlamegraph_def assms(2) convertPprofToMarkdown_def Let_def split: sum.splits)
qed

end
