(* ===== verification/Reslens_Flame.thy ===== *)
theory Reslens_Flame
  imports Reslens_Charts Reslens_Profile
begin

text \<open>
  The CPU page of the dashboard (\<^verbatim>\<open>graphs/cpuCard.tsx\<close>): the range selected in the CPU chart of \<open>Reslens_Charts\<close> becomes the
  range of the flame graph (\<^verbatim>\<open>graphs/flamegraph.tsx\<close>), which asks the middleware for a profile. The sample profile of the
  offline mode is a parameter; how a profile is drawn is left to the library.
\<close>

section \<open>The flame graph\<close>

record flame =
  clientName :: string
  profilingData :: jv
  flamegraphDisplayType :: string
  flamegraphInterval :: string
  flame_error :: jv
  flame_loading :: bool
  flame_asked :: "jv list"

definition new_flame :: "jv \<Rightarrow> flame" where
  "new_flame sample = \<lparr>clientName = ''cpp_client_1'', profilingData = sample, flamegraphDisplayType = ''both'', flamegraphInterval = ''now-5m'',
     flame_error = Str [], flame_loading = False, flame_asked = []\<rparr>"

text \<open>The range given by the page wins over the interval chosen in the menu.\<close>

definition flame_request :: "jv \<Rightarrow> jv \<Rightarrow> flame \<Rightarrow> jv" where
  "flame_request from until f =
     (let given = (truthy from \<and> truthy until)
      in Obj [(''query'', Str (clientName f)), (''from'', if given then from else Str (flamegraphInterval f)),
              (''until'', if given then until else Str ''now'')])"

text \<open>The effect, offline and online.\<close>

definition effect_profile :: "jv \<Rightarrow> bool \<Rightarrow> jv \<Rightarrow> jv \<Rightarrow> flame \<Rightarrow> flame" where
  "effect_profile sample offline from until f =
     (if offline then f\<lparr>profilingData := sample\<rparr>
      else f\<lparr>flame_loading := True, flame_asked := flame_asked f @ [flame_request from until f]\<rparr>)"

definition flame_answer :: "jv res \<Rightarrow> flame \<Rightarrow> flame" where
  "flame_answer reply f =
     (case reply of
        Inl err \<Rightarrow> f\<lparr>flame_error := Str (err_message err), flame_loading := False\<rparr>
      | Inr d \<Rightarrow>
          if truthy (oprop d ''error'') then f\<lparr>flame_error := oprop d ''error'', flame_loading := False\<rparr>
          else f\<lparr>profilingData := d, flame_loading := False\<rparr>)"

definition handleClientNameChange :: "string \<Rightarrow> flame \<Rightarrow> flame" where
  "handleClientNameChange v f = f\<lparr>clientName := v\<rparr>"

definition handleFlamegraphTypeChange :: "string \<Rightarrow> flame \<Rightarrow> flame" where
  "handleFlamegraphTypeChange v f = f\<lparr>flamegraphDisplayType := v\<rparr>"

definition handleFlamegraphIntervalChange :: "string \<Rightarrow> flame \<Rightarrow> flame" where
  "handleFlamegraphIntervalChange v f = f\<lparr>flamegraphInterval := v\<rparr>"

section \<open>The page\<close>

record cpu_page =
  cpu_chart :: cpu_graph
  flame_chart :: flame

definition page_effect :: "jv \<Rightarrow> bool \<Rightarrow> cpu_page \<Rightarrow> cpu_page" where
  "page_effect sample offline p =
     p\<lparr>flame_chart := effect_profile sample offline (date_from (cpu_chart p)) (date_until (cpu_chart p)) (flame_chart p)\<rparr>"

definition open_cpu_page :: "jv \<Rightarrow> bool \<Rightarrow> cpu_page" where
  "open_cpu_page sample offline = page_effect sample offline \<lparr>cpu_chart = new_cpu, flame_chart = new_flame sample\<rparr>"

text \<open>The menus are not shown next to an error; the button that refreshes is.\<close>

datatype page_event =
  CpuEvent cpu_event | ChooseClient string | ChooseType string | ChooseInterval string | RefreshFlame | FlameAnswer "jv res"

fun page_step :: "jv \<Rightarrow> bool \<Rightarrow> cpu_page \<Rightarrow> page_event \<Rightarrow> cpu_page" where
  "page_step sample offline p (CpuEvent e) =
     (if offline then p
      else let g = cpu_step (cpu_chart p) e; q = p\<lparr>cpu_chart := g\<rparr>
           in if date_from g = date_from (cpu_chart p) \<and> date_until g = date_until (cpu_chart p) then q
              else page_effect sample offline q)"
| "page_step sample offline p (ChooseClient v) =
     (if truthy (flame_error (flame_chart p)) \<or> v = clientName (flame_chart p) then p
      else page_effect sample offline (p\<lparr>flame_chart := handleClientNameChange v (flame_chart p)\<rparr>))"
| "page_step sample offline p (ChooseType v) =
     (if truthy (flame_error (flame_chart p)) then p
      else p\<lparr>flame_chart := handleFlamegraphTypeChange v (flame_chart p)\<rparr>)"
| "page_step sample offline p (ChooseInterval v) =
     (if truthy (flame_error (flame_chart p)) \<or> v = flamegraphInterval (flame_chart p) then p
      else page_effect sample offline (p\<lparr>flame_chart := handleFlamegraphIntervalChange v (flame_chart p)\<rparr>))"
| "page_step sample offline p RefreshFlame = page_effect sample offline p"
| "page_step sample offline p (FlameAnswer r) = p\<lparr>flame_chart := flame_answer r (flame_chart p)\<rparr>"

section \<open>Lemmas\<close>

text \<open>Once a range was selected or reset, the menu of intervals has no effect on the requests.\<close>

lemma interval_overridden:
  assumes "truthy from" "truthy until"
  shows "flame_request from until (handleFlamegraphIntervalChange v f) = flame_request from until f"
  using assms by (simp add: flame_request_def handleFlamegraphIntervalChange_def)

text \<open>No answer clears an error, so one failed request hides the flame graph for good.\<close>

definition flame_hidden :: "cpu_page \<Rightarrow> bool" where
  "flame_hidden p = truthy (flame_error (flame_chart p))"

fun named_answer :: "page_event \<Rightarrow> bool" where
  "named_answer (FlameAnswer (Inl err)) = (err_message err \<noteq> [])"
| "named_answer _ = True"

lemma page_effect_error [simp]: "flame_error (flame_chart (page_effect sample offline p)) = flame_error (flame_chart p)"
  by (simp add: page_effect_def effect_profile_def)

lemma flame_stays_hidden: "flame_hidden p \<Longrightarrow> named_answer e \<Longrightarrow> flame_hidden (page_step sample offline p e)"
  by (cases e rule: named_answer.cases)
    (simp_all add: flame_hidden_def flame_answer_def handleFlamegraphTypeChange_def Let_def split: sum.split)

interpretation hid: stepper "\<lambda>p e. if named_answer e then page_step sample offline p e else p" flame_hidden for sample offline
  by unfold_locales (simp add: flame_stays_hidden)

lemma zoomed:
  assumes "selected (graph g) = Some (a, b)"
  shows "date_from (cpu_step g (Mouse Up)) = Num a" "date_until (cpu_step g (Mouse Up)) = Num b"
    "left_x (graph (cpu_step g (Mouse Up))) = Some a" "right_x (graph (cpu_step g (Mouse Up))) = Some b"
  using assms by (simp_all add: cpu_zoom_def show_range_def split: prod.split)

section \<open>Properties\<close>

text \<open>
  C24: Zooming selects the profile. When the user releases the mouse over a range of the CPU chart that is not the current one, the
  chart shows exactly that range and exactly one profile is requested: of the chosen client and from the start to the end of the
  range, which Pyroscope gets, through the middleware, as the parameters of its URL.
\<close>

theorem zoom_selects_profile:
  assumes sel: "selected (graph (cpu_chart p)) = Some (a, b)" "a \<noteq> 0" "b \<noteq> 0"
      "(date_from (cpu_chart p), date_until (cpu_chart p)) \<noteq> (Num a, Num b)"
    and env: "getEnv e ''PYROSCOPE_BASE_URL'' None = Inr base" "parse base = Inr (front, [], fragment)"
    and q: "q = page_step sample False p (CpuEvent (Mouse Up))"
  shows "left_x (graph (cpu_chart q)) = Some a \<and> right_x (graph (cpu_chart q)) = Some b
    \<and> (\<exists>body u. flame_asked (flame_chart q) = flame_asked (flame_chart p) @ [body]
         \<and> getProfilingData parse e get (Some (js_text (oprop body ''query''))) (Some (js_text (oprop body ''from'')))
             (Some (js_text (oprop body ''until''))) None =
             Inr (case get (front @ ''?'' @ u @ fragment) of
                    Inr v \<Rightarrow> Sent v
                  | Inl err \<Rightarrow> Failed 500 (Obj [(''error'', Str (if err_message err = [] then ''An error occurred while fetching profiling data''
                      else err_message err))]))
         \<and> parse_query u = [(''query'', clientName (flame_chart p) @ ''.cpu''), (''from'', show_num a), (''until'', show_num b),
             (''format'', ''json'')])"
proof -
  let ?body = "Obj [(''query'', Str (clientName (flame_chart p))), (''from'', Num a), (''until'', Num b)]"
  let ?ps = "[(''query'', clientName (flame_chart p) @ ''.cpu''), (''from'', show_num a), (''until'', show_num b), (''format'', ''json'')]"
  let ?u = "join ''&'' (map form_pair ?ps)"
  note z = zoomed [OF sel(1)]
  have d: "q = page_effect sample False (p\<lparr>cpu_chart := cpu_step (cpu_chart p) (Mouse Up)\<rparr>)"
    using sel(4) z(1,2) q by (auto simp: Let_def simp del: cpu_step.simps)
  have "flame_asked (flame_chart q) = flame_asked (flame_chart p) @ [?body]"
    using sel(2,3) z(1,2) by (simp add: d page_effect_def effect_profile_def flame_request_def Let_def del: cpu_step.simps)
  moreover have "profile_url parse e (Some (clientName (flame_chart p))) (Some (show_num a)) (Some (show_num b)) ''json'' = Inr (front @ ''?'' @ ?u @ fragment)"
    using env by (simp add: profile_url_def default_text_def buildUrl_def)
  moreover have "parse_query ?u = ?ps" by (rule parse_query_join) simp
  moreover have "left_x (graph (cpu_chart q)) = Some a" "right_x (graph (cpu_chart q)) = Some b"
    using z(3,4) by (simp_all add: d page_effect_def del: cpu_step.simps)
  ultimately show ?thesis
    by (intro conjI exI [of _ ?body] exI [of _ ?u]) (simp_all add: getProfilingData_def own_def default_text_def)
qed

theorem zoom_selects_profile_witness:
  "\<exists>body u. flame_asked (flame_chart (foldl (page_step Null False) (open_cpu_page Null False)
        [CpuEvent (Mouse (Down (Some 100))), CpuEvent (Mouse (Move (Some 300))), CpuEvent (Mouse Up)])) =
      flame_asked (flame_chart (open_cpu_page Null False)) @ [body]
    \<and> parse_query u = [(''query'', ''cpp_client_1.cpu''), (''from'', show_num 100), (''until'', show_num 300), (''format'', ''json'')]"
proof -
  define p where "p = foldl (page_step Null False) (open_cpu_page Null False) [CpuEvent (Mouse (Down (Some 100))), CpuEvent (Mouse (Move (Some 300)))]"
  have p: "selected (graph (cpu_chart p)) = Some (100, 300)" "date_from (cpu_chart p) = Num 0" "flame_chart p = flame_chart (open_cpu_page Null False)"
    by (simp_all add: p_def open_cpu_page_def page_effect_def new_cpu_def new_timeline_def label_of_def selected_def)
  have n: "clientName (flame_chart p) = ''cpp_client_1''"
    by (simp add: p(3) open_cpu_page_def page_effect_def effect_profile_def new_flame_def)
  have env: "getEnv (\<lambda>_. Some ''http://p'') ''PYROSCOPE_BASE_URL'' None = Inr ''http://p''" by (simp add: getEnv_def)
  have "(date_from (cpu_chart p), date_until (cpu_chart p)) \<noteq> (Num 100, Num 300)" using p(2) by simp
  from zoom_selects_profile [OF p(1) _ _ this env, of "\<lambda>b. Inr (b, [], [])" _ _ _ Null "\<lambda>_. Inr Null", OF _ _ refl refl]
  obtain body u where w: "flame_asked (flame_chart (page_step Null False p (CpuEvent (Mouse Up)))) = flame_asked (flame_chart p) @ [body]"
      "parse_query u = [(''query'', clientName (flame_chart p) @ ''.cpu''), (''from'', show_num 100), (''until'', show_num 300), (''format'', ''json'')]"
    by auto
  have s: "page_step Null False p (CpuEvent (Mouse Up)) = foldl (page_step Null False) (open_cpu_page Null False)
      [CpuEvent (Mouse (Down (Some 100))), CpuEvent (Mouse (Move (Some 300))), CpuEvent (Mouse Up)]"
    unfolding p_def by (simp only: foldl.simps)
  have c: "''cpp_client_1'' @ ''.cpu'' = ''cpp_client_1.cpu''" by simp
  show ?thesis using w(1) [unfolded s p(3)] w(2) [unfolded n c] by blast
qed

end
