(* ===== verification/Orbit_Page.thy ===== *)
theory Orbit_Page
  imports JS_ISO
begin

text \<open>
  The page of the deployment tool Orbit (\<^verbatim>\<open>deployment/orbit/src/routes/+page.svelte\<close>). A handler invokes a command of the
  native part and changes the page when the answer arrives, so several may be under way at once and be answered in any order.
  The window controls and the markup are left out, and so is the ellipsis at the end of the texts of the log buttons.
\<close>

section \<open>The page\<close>

datatype command =
    Run_docker_container | Stop_docker_container | Start_crow | Stop_crow | Start_graphql | Stop_graphql
  | Start_resilientdb | Stop_resilientdb

record orbit =
  orbit_loading :: bool
  logMessage :: string
  crowRunning :: bool
  graphqlRunning :: bool
  resilientdbRunning :: bool
  startTimestamp :: "int option"
  elapsedTime :: string
  invoked :: "command list"

definition no_time :: string where
  "no_time = ''00:00:00''"

definition all_running :: "bool \<Rightarrow> orbit \<Rightarrow> orbit" where
  "all_running b p = p\<lparr>resilientdbRunning := b, crowRunning := b, graphqlRunning := b\<rparr>"

definition invoke :: "command \<Rightarrow> orbit \<Rightarrow> orbit" where
  "invoke c p = p\<lparr>invoked := invoked p @ [c]\<rparr>"

definition setupContainer :: "orbit \<Rightarrow> orbit" where
  "setupContainer p = invoke Run_docker_container (p\<lparr>logMessage := ''Setting up ResilientDB environment...''\<rparr>)"

definition open_orbit :: orbit where
  "open_orbit = setupContainer \<lparr>orbit_loading = True, logMessage = [], crowRunning = False, graphqlRunning = False,
     resilientdbRunning = False, startTimestamp = None, elapsedTime = no_time, invoked = []\<rparr>"

definition handleStopAllServices :: "orbit \<Rightarrow> orbit" where
  "handleStopAllServices p = invoke Stop_docker_container (p\<lparr>logMessage := ''Stopping all services...''\<rparr>)"

text \<open>The rest of each handler, after its command was answered at the given time.\<close>

definition started :: "int \<Rightarrow> string \<Rightarrow> orbit \<Rightarrow> orbit" where
  "started now r p = (all_running True (p\<lparr>logMessage := r\<rparr>))\<lparr>startTimestamp := Some now\<rparr>"

definition stopped :: "string \<Rightarrow> orbit \<Rightarrow> orbit" where
  "stopped r p = (all_running False (p\<lparr>logMessage := r\<rparr>))\<lparr>startTimestamp := None, elapsedTime := no_time\<rparr>"

fun succeeded :: "command \<Rightarrow> int \<Rightarrow> string \<Rightarrow> orbit \<Rightarrow> orbit" where
  "succeeded Run_docker_container now r p = (started now r p)\<lparr>orbit_loading := False\<rparr>"
| "succeeded Stop_docker_container now r p = stopped r p"
| "succeeded Start_crow now r p = p\<lparr>logMessage := r, crowRunning := True\<rparr>"
| "succeeded Stop_crow now r p = p\<lparr>logMessage := r, crowRunning := False\<rparr>"
| "succeeded Start_graphql now r p = p\<lparr>logMessage := r, graphqlRunning := True\<rparr>"
| "succeeded Stop_graphql now r p = p\<lparr>logMessage := r, graphqlRunning := False\<rparr>"
| "succeeded Start_resilientdb now r p = started now r p"
| "succeeded Stop_resilientdb now r p = stopped r p"

text \<open>Only the set-up catches an error; in the other handlers it is an unhandled rejection.\<close>

definition rejected :: "command \<Rightarrow> string \<Rightarrow> orbit \<Rightarrow> orbit" where
  "rejected c e p = (if c = Run_docker_container then p\<lparr>logMessage := ''Error: '' @ e, orbit_loading := False\<rparr> else p)"

definition answered :: "nat \<Rightarrow> string + string \<Rightarrow> int \<Rightarrow> orbit \<Rightarrow> orbit" where
  "answered i r now p =
     (if i < length (invoked p)
      then (let c = invoked p ! i; q = p\<lparr>invoked := take i (invoked p) @ drop (Suc i) (invoked p)\<rparr>
            in case r of Inr m \<Rightarrow> succeeded c now m q | Inl e \<Rightarrow> rejected c e q)
      else p)"

text \<open>The clock. The remainder has the sign of the dividend; the quotients are exact for the durations that occur.\<close>

definition js_mod :: "int \<Rightarrow> int \<Rightarrow> int" where
  "js_mod a m = (if a < 0 then - (- a mod m) else a mod m)"

definition two_digits :: "int \<Rightarrow> string" where
  "two_digits n = (let s = show_int n in replicate (2 - length s) (CHR ''0'') @ s)"

definition clock_text :: "int \<Rightarrow> string" where
  "clock_text diff =
     two_digits (diff div 3600000) @ '':'' @ two_digits (js_mod diff 3600000 div 60000) @ '':''
     @ two_digits (js_mod diff 60000 div 1000)"

definition tick :: "int \<Rightarrow> orbit \<Rightarrow> orbit" where
  "tick now p =
     (case startTimestamp p of
        Some s \<Rightarrow> if s \<noteq> 0 then p\<lparr>elapsedTime := clock_text (now - s)\<rparr> else p
      | None \<Rightarrow> p)"

text \<open>A button is shown in the state it is for; nothing but a message is shown while the page is loading.\<close>

datatype orbit_click = StopAll | ToggleCrow | ToggleGraphQL | ToggleResilientDB | Logs string

fun clicked :: "orbit_click \<Rightarrow> orbit \<Rightarrow> orbit" where
  "clicked StopAll p = handleStopAllServices p"
| "clicked ToggleCrow p = invoke (if crowRunning p then Stop_crow else Start_crow) p"
| "clicked ToggleGraphQL p = invoke (if graphqlRunning p then Stop_graphql else Start_graphql) p"
| "clicked ToggleResilientDB p = invoke (if resilientdbRunning p then Stop_resilientdb else Start_resilientdb) p"
| "clicked (Logs service) p = p\<lparr>logMessage := service @ '' logs''\<rparr>"

datatype orbit_event = Click orbit_click | Answered nat "string + string" int | Tick int

fun orbit_step :: "orbit \<Rightarrow> orbit_event \<Rightarrow> orbit" where
  "orbit_step p (Click c) = (if orbit_loading p then p else clicked c p)"
| "orbit_step p (Answered i r now) = answered i r now p"
| "orbit_step p (Tick now) = tick now p"

section \<open>Lemmas\<close>

lemma invoke_fields [simp]:
  "startTimestamp (invoke c p) = startTimestamp p" "resilientdbRunning (invoke c p) = resilientdbRunning p"
  "elapsedTime (invoke c p) = elapsedTime p" "crowRunning (invoke c p) = crowRunning p" "graphqlRunning (invoke c p) = graphqlRunning p"
  by (simp_all add: invoke_def)

lemma clicked_fields [simp]:
  "startTimestamp (clicked c p) = startTimestamp p" "resilientdbRunning (clicked c p) = resilientdbRunning p"
  "elapsedTime (clicked c p) = elapsedTime p" "crowRunning (clicked c p) = crowRunning p" "graphqlRunning (clicked c p) = graphqlRunning p"
  by (cases c; simp add: handleStopAllServices_def)+

definition clock_ok :: "orbit \<Rightarrow> bool" where
  "clock_ok p \<longleftrightarrow> (resilientdbRunning p \<longleftrightarrow> startTimestamp p \<noteq> None) \<and> (startTimestamp p = None \<longrightarrow> elapsedTime p = no_time)"

lemma clock_ok_other [simp]: "clock_ok (p\<lparr>invoked := x\<rparr>) = clock_ok p" "clock_ok (p\<lparr>logMessage := m\<rparr>) = clock_ok p"
    "clock_ok (p\<lparr>orbit_loading := b\<rparr>) = clock_ok p"
  by (simp_all add: clock_ok_def)

lemma succeeded_clock: "clock_ok p \<Longrightarrow> clock_ok (succeeded c now r p)"
  by (cases c) (simp_all add: clock_ok_def started_def stopped_def all_running_def)

lemma orbit_step_clock: "clock_ok p \<Longrightarrow> clock_ok (orbit_step p e)"
proof (cases e)
  case (Answered i r now)
  assume "clock_ok p"
  then show ?thesis
    using Answered succeeded_clock [of "p\<lparr>invoked := take i (invoked p) @ drop (Suc i) (invoked p)\<rparr>"]
    by (simp add: answered_def rejected_def Let_def split: sum.split)
qed (simp_all add: clock_ok_def tick_def split: option.split)

interpretation orb: stepper orbit_step clock_ok
  by unfold_locales (rule orbit_step_clock)

lemma open_orbit_clock: "clock_ok open_orbit"
  by (simp add: open_orbit_def setupContainer_def clock_ok_def)

lemma two_digits_pad: "0 \<le> n \<Longrightarrow> two_digits n = pad 2 (nat n)"
  by (simp add: two_digits_def pad_def show_int_def Let_def)

lemma div_mod_swap:
  fixes a :: int
  assumes "0 < b" "0 < c"
  shows "a mod (b * c) div b = a div b mod c"
  using assms zmod_zmult2_eq [of c a b] by simp

lemma clock_sum:
  fixes a :: int
  shows "a = x \<Longrightarrow> b = y \<Longrightarrow> c = z \<Longrightarrow> u = 60 * y + z \<Longrightarrow> 3600 * x + u = q \<Longrightarrow> 3600 * a + 60 * b + c = q"
  by simp

lemma clock_text_fields:
  assumes "0 \<le> diff"
  obtains h m s where "clock_text diff = pad 2 h @ '':'' @ pad 2 m @ '':'' @ pad 2 s" "m < 60" "s < 60"
    "int (3600 * h + 60 * m + s) = diff div 1000"
proof
  let ?h = "nat (diff div 3600000)" and ?m = "nat (diff mod 3600000 div 60000)" and ?s = "nat (diff mod 60000 div 1000)"
  have nn: "0 \<le> diff div 3600000" "0 \<le> diff mod 3600000 div 60000" "0 \<le> diff mod 60000 div 1000" using assms by simp_all
  show "clock_text diff = pad 2 ?h @ '':'' @ pad 2 ?m @ '':'' @ pad 2 ?s"
    using assms nn by (simp add: clock_text_def js_mod_def two_digits_pad)
  show "?m < 60" "?s < 60" by (simp_all add: nat_less_iff nn)
  define q where "q = diff div 1000"
  have 1: "diff div 3600000 = q div 3600" using zdiv_zmult2_eq [of 3600 diff 1000] by (simp add: q_def)
  have 2: "diff mod 3600000 div 60000 = q mod 3600 div 60"
    using div_mod_swap [of 1000 3600 diff] zdiv_zmult2_eq [of 60 "diff mod 3600000" 1000] by (simp add: q_def)
  have 3: "diff mod 60000 div 1000 = q mod 60" using div_mod_swap [of 1000 60 diff] by (simp add: q_def)
  have 4: "q mod 3600 = 60 * (q mod 3600 div 60) + q mod 60" using mult_div_mod_eq [of 60 "q mod 3600"] by (simp add: mod_mod_cancel)
  have "3600 * (diff div 3600000) + 60 * (diff mod 3600000 div 60000) + diff mod 60000 div 1000 = diff div 1000"
    unfolding q_def [symmetric] by (rule clock_sum [OF 1 2 3 4 mult_div_mod_eq])
  then show "int (3600 * ?h + 60 * ?m + ?s) = diff div 1000"
    by (simp only: of_nat_add of_nat_mult of_nat_numeral int_nat_eq nn if_True)
qed

lemma tick_shows_seconds:
  assumes "startTimestamp p = Some s" "0 < s" "s \<le> now"
  shows "\<exists>h m sec. elapsedTime (orbit_step p (Tick now)) = pad 2 h @ '':'' @ pad 2 m @ '':'' @ pad 2 sec
    \<and> m < 60 \<and> sec < 60 \<and> int (3600 * h + 60 * m + sec) = (now - s) div 1000"
proof -
  have "0 \<le> now - s" using assms by simp
  then obtain h m sec where "clock_text (now - s) = pad 2 h @ '':'' @ pad 2 m @ '':'' @ pad 2 sec" "m < 60" "sec < 60"
      "int (3600 * h + 60 * m + sec) = (now - s) div 1000"
    by (rule clock_text_fields)
  then show ?thesis using assms by (intro exI [of _ h] exI [of _ m] exI [of _ sec]) (simp add: tick_def)
qed

end
