(* ===== verification/Orbit_Native.thy ===== *)
theory Orbit_Native
  imports Orbit_Page
begin

text \<open>
  The native part of Orbit, \<^verbatim>\<open>deployment/orbit/src-tauri/src/main.rs\<close>, whose commands run the Docker client, and the page on
  top of it. The client is a parameter: from a working directory, its arguments and the state of the machine it gives an
  error of the operating system or its exit status and output, and the new state. Output is taken after
  \<^verbatim>\<open>String::from_utf8_lossy\<close>. The template files \<^verbatim>\<open>lib.rs\<close> and \<^verbatim>\<open>commands.rs\<close> are not part of the program.
\<close>

section \<open>Commands\<close>

record ran =
  exit_ok :: bool
  out_text :: string
  err_text :: string

type_synonym 's docker = "string option \<times> string list \<Rightarrow> 's \<Rightarrow> (string + ran) \<times> 's"

text \<open>Running a command for its status, with the texts for success and failure.\<close>

definition status_of_run :: "'s docker \<Rightarrow> string option \<times> string list \<Rightarrow> string \<Rightarrow> string \<Rightarrow> 's \<Rightarrow> (string + string) \<times> 's" where
  "status_of_run D c ok bad s =
     (case D c s of
        (Inl e, s') \<Rightarrow> (Inl e, s')
      | (Inr r, s') \<Rightarrow> (if exit_ok r then Inr ok else Inl bad, s'))"

definition check_docker :: "'s docker \<Rightarrow> 's \<Rightarrow> (string + string) \<times> 's" where
  "check_docker D s =
     (case D (None, [''--version'']) s of
        (Inl e, s') \<Rightarrow> (Inl e, s')
      | (Inr r, s') \<Rightarrow> (if exit_ok r then Inr (out_text r) else Inl ''Docker command failed'', s'))"

definition build_image :: "string option \<times> string list" where
  "build_image = (Some ''../resilientdb-ansible'', [''build'', ''-t'', ''resilientdb-ansible:latest'', ''.''])"

definition build_docker_image :: "'s docker \<Rightarrow> 's \<Rightarrow> (string + string) \<times> 's" where
  "build_docker_image D s = status_of_run D build_image ''Docker image built successfully.'' ''Docker image build failed.'' s"

definition list_tags :: "string option \<times> string list" where
  "list_tags = (None, [''images'', ''resilientdb-ansible'', ''--format'', ''{{.Tag}}''])"

definition remove_container :: "string option \<times> string list" where
  "remove_container = (None, [''rm'', ''-f'', ''resilientdb-container''])"

definition run_container :: "string option \<times> string list" where
  "run_container = (Some ''..'', [''run'', ''--name'', ''resilientdb-container'', ''--privileged'',
     ''-v'', ''/sys/fs/cgroup:/sys/fs/cgroup:ro'', ''-p'', ''80:80'', ''-p'', ''18000:18000'', ''-p'', ''8000:8000'', ''-d'',
     ''resilientdb-ansible:latest''])"

text \<open>White space of Rust among the characters of one byte, and the test for the tag.\<close>

definition rust_space :: "char \<Rightarrow> bool" where
  "rust_space c = (let n = (of_char c :: nat) in 9 \<le> n \<and> n \<le> 13 \<or> n = 32 \<or> n = 133 \<or> n = 160)"

definition rust_trim :: "string \<Rightarrow> string" where
  "rust_trim s = rev (dropWhile rust_space (rev (dropWhile rust_space s)))"

definition image_exists :: "string \<Rightarrow> bool" where
  "image_exists out = list_ex (\<lambda>line. rust_trim line = ''latest'') (split_on newline (rust_trim out))"

definition run_docker_container :: "'s docker \<Rightarrow> 's \<Rightarrow> (string + string) \<times> 's" where
  "run_docker_container D s =
     (case D list_tags s of
        (Inl e, s1) \<Rightarrow> (Inl e, s1)
      | (Inr tags, s1) \<Rightarrow>
          (case (if image_exists (out_text tags) then (Inr [], s1) else build_docker_image D s1) of
             (Inl e, s2) \<Rightarrow> (Inl e, s2)
           | (Inr _, s2) \<Rightarrow>
               status_of_run D run_container ''Docker container started successfully.'' ''Failed to start Docker container.''
                 (snd (D remove_container s2))))"

definition stop_container :: "string option \<times> string list" where
  "stop_container = (None, [''stop'', ''resilientdb-container''])"

definition stop_docker_container :: "'s docker \<Rightarrow> 's \<Rightarrow> (string + string) \<times> 's" where
  "stop_docker_container D s =
     status_of_run D stop_container ''Docker container stopped successfully.'' ''Failed to stop Docker container.'' s"

definition systemctl :: "string \<Rightarrow> string \<Rightarrow> string option \<times> string list" where
  "systemctl verb service = (None, [''exec'', ''resilientdb-container'', ''systemctl'', verb, service])"

definition services :: "string list" where
  "services = [''resilientdb-kv@1'', ''resilientdb-kv@2'', ''resilientdb-kv@3'', ''resilientdb-kv@4'', ''resilientdb-client'']"

text \<open>The loops over the services; \<open>word\<close> is the verb of the error message.\<close>

fun for_services :: "'s docker \<Rightarrow> string \<Rightarrow> string \<Rightarrow> string list \<Rightarrow> string \<Rightarrow> 's \<Rightarrow> (string + string) \<times> 's" where
  "for_services D verb word [] ok s = (Inr ok, s)"
| "for_services D verb word (v # vs) ok s =
     (case D (systemctl verb v) s of
        (Inl e, s') \<Rightarrow> (Inl e, s')
      | (Inr r, s') \<Rightarrow>
          if exit_ok r then for_services D verb word vs ok s'
          else (Inl (''Failed to '' @ word @ '' '' @ v @ '': '' @ err_text r), s'))"

definition start_resilientdb :: "'s docker \<Rightarrow> 's \<Rightarrow> (string + string) \<times> 's" where
  "start_resilientdb D s = for_services D ''restart'' ''start'' services ''ResilientDB services started successfully.'' s"

definition stop_resilientdb :: "'s docker \<Rightarrow> 's \<Rightarrow> (string + string) \<times> 's" where
  "stop_resilientdb D s = for_services D ''stop'' ''stop'' services ''ResilientDB services stopped successfully.'' s"

text \<open>The commands for one service.\<close>

definition one_service :: "'s docker \<Rightarrow> string \<Rightarrow> string \<Rightarrow> string \<Rightarrow> string \<Rightarrow> 's \<Rightarrow> (string + string) \<times> 's" where
  "one_service D verb service ok bad s =
     (case D (systemctl verb service) s of
        (Inl e, s') \<Rightarrow> (Inl e, s')
      | (Inr r, s') \<Rightarrow> (if exit_ok r then Inr ok else Inl (bad @ err_text r), s'))"

definition start_crow :: "'s docker \<Rightarrow> 's \<Rightarrow> (string + string) \<times> 's" where
  "start_crow D s = one_service D ''restart'' ''crow-http'' ''Crow service started successfully.'' ''Failed to start Crow: '' s"

definition stop_crow :: "'s docker \<Rightarrow> 's \<Rightarrow> (string + string) \<times> 's" where
  "stop_crow D s = one_service D ''stop'' ''crow-http'' ''Crow service stopped successfully.'' ''Failed to stop Crow: '' s"

definition start_graphql :: "'s docker \<Rightarrow> 's \<Rightarrow> (string + string) \<times> 's" where
  "start_graphql D s = one_service D ''restart'' ''graphql'' ''GraphQL service started successfully.'' ''Failed to start GraphQL: '' s"

definition stop_graphql :: "'s docker \<Rightarrow> 's \<Rightarrow> (string + string) \<times> 's" where
  "stop_graphql D s = one_service D ''stop'' ''graphql'' ''GraphQL service stopped successfully.'' ''Failed to stop GraphQL: '' s"

section \<open>The page on top of the commands\<close>

fun native :: "'s docker \<Rightarrow> command \<Rightarrow> 's \<Rightarrow> (string + string) \<times> 's" where
  "native D Run_docker_container s = run_docker_container D s"
| "native D Stop_docker_container s = stop_docker_container D s"
| "native D Start_crow s = start_crow D s"
| "native D Stop_crow s = stop_crow D s"
| "native D Start_graphql s = start_graphql D s"
| "native D Stop_graphql s = stop_graphql D s"
| "native D Start_resilientdb s = start_resilientdb D s"
| "native D Stop_resilientdb s = stop_resilientdb D s"

text \<open>The commands are synchronous functions: they run one at a time, in the order they are answered.\<close>

datatype desk_event = Press orbit_click | Perform nat int | Clock int

fun desk_step :: "'s docker \<Rightarrow> orbit \<times> 's \<Rightarrow> desk_event \<Rightarrow> orbit \<times> 's" where
  "desk_step D (p, s) (Press c) = (orbit_step p (Click c), s)"
| "desk_step D (p, s) (Perform i now) =
     (if i < length (invoked p)
      then (case native D (invoked p ! i) s of (r, s') \<Rightarrow> (orbit_step p (Answered i r now), s'))
      else (p, s))"
| "desk_step D (p, s) (Clock now) = (orbit_step p (Tick now), s)"

section \<open>The container\<close>

text \<open>
  What Docker and the image promise, in terms of whether the container runs (\<open>alive\<close>) and which services are active in it (\<open>up\<close>):
  commands are executed in a container only while it runs, \<^verbatim>\<open>systemctl\<close> restarts and stops the one service it is given, a
  stopped container runs nothing, and a container started from the image runs all services.
\<close>

definition runs_ok :: "'s docker \<Rightarrow> string option \<times> string list \<Rightarrow> 's \<Rightarrow> bool" where
  "runs_ok D c s = (case fst (D c s) of Inr r \<Rightarrow> exit_ok r | Inl _ \<Rightarrow> False)"

definition container_ok :: "'s docker \<Rightarrow> ('s \<Rightarrow> bool) \<Rightarrow> ('s \<Rightarrow> string \<Rightarrow> bool) \<Rightarrow> bool" where
  "container_ok D alive up \<longleftrightarrow>
     (\<forall>s v. \<not> alive s \<longrightarrow> \<not> up s v)
     \<and> (\<forall>s v. alive s \<longrightarrow> runs_ok D (systemctl ''restart'' v) s \<and> alive (snd (D (systemctl ''restart'' v) s))
          \<and> up (snd (D (systemctl ''restart'' v) s)) = (up s)(v := True))
     \<and> (\<forall>s v. alive s \<longrightarrow> runs_ok D (systemctl ''stop'' v) s \<and> alive (snd (D (systemctl ''stop'' v) s))
          \<and> up (snd (D (systemctl ''stop'' v) s)) = (up s)(v := False))
     \<and> (\<forall>s v verb. \<not> alive s \<longrightarrow> \<not> runs_ok D (systemctl verb v) s \<and> \<not> alive (snd (D (systemctl verb v) s)))
     \<and> (\<forall>s. runs_ok D stop_container s \<and> \<not> alive (snd (D stop_container s)))
     \<and> (\<forall>s. runs_ok D run_container s \<longrightarrow> alive (snd (D run_container s)) \<and> (\<forall>v. up (snd (D run_container s)) v))"

section \<open>Lemmas\<close>

lemma runs_okE:
  assumes "runs_ok D c s"
  obtains r s' where "D c s = (Inr r, s')" "exit_ok r"
proof (cases "D c s")
  case (Pair x s')
  with assms that show thesis by (cases x) (simp_all add: runs_ok_def)
qed

lemma status_of_run_ok: "runs_ok D c s \<Longrightarrow> status_of_run D c ok bad s = (Inr ok, snd (D c s))"
  by (erule runs_okE) (simp add: status_of_run_def)

lemma status_of_run_Inr: "fst (status_of_run D c ok bad s) = Inr m \<Longrightarrow> runs_ok D c s"
  by (auto simp: status_of_run_def runs_ok_def split: prod.splits sum.splits if_splits)

lemma one_service_ok: "runs_ok D (systemctl verb v) s \<Longrightarrow> one_service D verb v ok bad s = (Inr ok, snd (D (systemctl verb v) s))"
  by (erule runs_okE) (simp add: one_service_def)

lemma one_service_failed:
  "\<not> runs_ok D (systemctl verb v) s \<Longrightarrow>
   \<exists>e. one_service D verb v ok bad s = (Inl e, snd (D (systemctl verb v) s))"
  by (cases "D (systemctl verb v) s") (auto simp: one_service_def runs_ok_def split: sum.splits)

lemma for_services_ok:
  "runs_ok D (systemctl verb v) s \<Longrightarrow>
   for_services D verb word (v # vs) ok s = for_services D verb word vs ok (snd (D (systemctl verb v) s))"
  by (erule runs_okE) simp

lemma for_services_failed:
  "\<not> runs_ok D (systemctl verb v) s \<Longrightarrow>
   \<exists>e. for_services D verb word (v # vs) ok s = (Inl e, snd (D (systemctl verb v) s))"
  by (cases "D (systemctl verb v) s") (auto simp: runs_ok_def split: sum.splits)

text \<open>The laws of the container.\<close>

lemma container_laws:
  assumes "container_ok D alive up"
  shows dead_nothing: "\<not> alive s \<Longrightarrow> \<not> up s v"
    and restart_law: "alive s \<Longrightarrow> runs_ok D (systemctl ''restart'' v) s \<and> alive (snd (D (systemctl ''restart'' v) s))
        \<and> up (snd (D (systemctl ''restart'' v) s)) = (up s)(v := True)"
    and stop_law: "alive s \<Longrightarrow> runs_ok D (systemctl ''stop'' v) s \<and> alive (snd (D (systemctl ''stop'' v) s))
        \<and> up (snd (D (systemctl ''stop'' v) s)) = (up s)(v := False)"
    and exec_law: "\<not> alive s \<Longrightarrow> \<not> runs_ok D (systemctl verb v) s \<and> \<not> alive (snd (D (systemctl verb v) s))"
    and halt_law: "runs_ok D stop_container s \<and> \<not> alive (snd (D stop_container s))"
    and run_law: "runs_ok D run_container s \<Longrightarrow> alive (snd (D run_container s)) \<and> up (snd (D run_container s)) v"
  using assms unfolding container_ok_def by blast+

lemma for_services_restart:
  assumes "container_ok D alive up" "alive s"
  shows "\<exists>s'. for_services D ''restart'' word vs ok s = (Inr ok, s') \<and> alive s' \<and> (\<forall>w. up s' w = (w \<in> set vs \<or> up s w))"
  using assms(2)
proof (induction vs arbitrary: s)
  case (Cons v vs)
  note l = restart_law [OF assms(1) Cons.prems, of v]
  show ?case using Cons.IH [of "snd (D (systemctl ''restart'' v) s)"] l for_services_ok [of D "''restart''" v s word vs ok] by auto
qed simp

lemma for_services_stop:
  assumes "container_ok D alive up" "alive s"
  shows "\<exists>s'. for_services D ''stop'' word vs ok s = (Inr ok, s') \<and> alive s' \<and> (\<forall>w. up s' w = (w \<notin> set vs \<and> up s w))"
  using assms(2)
proof (induction vs arbitrary: s)
  case (Cons v vs)
  note l = stop_law [OF assms(1) Cons.prems, of v]
  show ?case using Cons.IH [of "snd (D (systemctl ''stop'' v) s)"] l for_services_ok [of D "''stop''" v s word vs ok] by auto
qed simp

lemma services_cons: "services = ''resilientdb-kv@1'' # tl services"
  by (simp add: services_def)

lemma crow_apart: "''crow-http'' \<notin> set services" "''graphql'' \<notin> set services"
  by (simp_all add: services_def)

text \<open>In a container that does not run every command but the first one fails or stops the container again.\<close>

lemma native_dead:
  assumes "container_ok D alive up" "\<not> alive s" "c \<noteq> Run_docker_container" "native D c s = (r, s')"
  shows "\<not> alive s' \<and> (c \<noteq> Stop_docker_container \<longrightarrow> (\<exists>e. r = Inl e))"
proof -
  have x: "one_service D verb v ok bad s = (r, s') \<Longrightarrow> (\<exists>e. r = Inl e) \<and> \<not> alive s'" for verb v ok bad
    using one_service_failed [of D verb v s ok bad] exec_law [OF assms(1,2), of verb v] by auto
  have y: "\<exists>e s'. for_services D verb word services ok s = (Inl e, s') \<and> \<not> alive s'" for verb word ok
    using for_services_failed [of D verb "''resilientdb-kv@1''" s word "tl services" ok, folded services_cons]
      exec_law [OF assms(1,2), of verb "''resilientdb-kv@1''"] by auto
  show ?thesis
  proof (cases c)
    case Stop_docker_container
    then show ?thesis using assms(4) halt_law [OF assms(1), of s]
      by (auto simp: stop_docker_container_def status_of_run_ok)
  next
    case Start_resilientdb
    then show ?thesis using assms(4) y [of "''restart''" "''start''" "''ResilientDB services started successfully.''"] by (auto simp: start_resilientdb_def)
  next
    case Stop_resilientdb
    then show ?thesis using assms(4) y [of "''stop''" "''stop''" "''ResilientDB services stopped successfully.''"] by (auto simp: stop_resilientdb_def)
  qed (use assms(3,4) x in \<open>auto simp: start_crow_def stop_crow_def start_graphql_def stop_graphql_def\<close>)
qed

text \<open>What is pending never includes the set-up once it was answered.\<close>

definition set_up :: "orbit \<Rightarrow> bool" where
  "set_up p \<longleftrightarrow> Run_docker_container \<notin> set (invoked p)"

lemma succeeded_invoked [simp]: "invoked (succeeded c now r p) = invoked p"
  by (cases c) (simp_all add: started_def stopped_def all_running_def)

lemma rejected_invoked [simp]: "invoked (rejected c e p) = invoked p"
  by (simp add: rejected_def)

lemma set_up_step: "set_up p \<Longrightarrow> set_up (orbit_step p e)"
proof (cases e)
  case (Click c)
  assume "set_up p"
  then show ?thesis using Click by (cases c) (simp_all add: set_up_def invoke_def handleStopAllServices_def)
next
  case (Answered i r now)
  assume "set_up p"
  then show ?thesis using Answered
    by (auto simp: set_up_def answered_def Let_def split: sum.split dest: in_set_takeD in_set_dropD)
qed (simp add: set_up_def tick_def split: option.split)

text \<open>The page agrees with the container.\<close>

definition agrees :: "('s \<Rightarrow> string \<Rightarrow> bool) \<Rightarrow> orbit \<times> 's \<Rightarrow> bool" where
  "agrees up ps = (\<forall>v \<in> set services. up (snd ps) v = resilientdbRunning (fst ps))"

definition desk_ok :: "'s docker \<Rightarrow> ('s \<Rightarrow> bool) \<Rightarrow> ('s \<Rightarrow> string \<Rightarrow> bool) \<Rightarrow> orbit \<times> 's \<Rightarrow> bool" where
  "desk_ok D alive up ps \<longleftrightarrow> container_ok D alive up \<and> set_up (fst ps) \<and> clock_ok (fst ps) \<and> agrees up ps"

lemma answered_running:
  assumes "i < length (invoked p)"
  shows "resilientdbRunning (answered i r now p) =
    (case r of Inl _ \<Rightarrow> resilientdbRunning p | Inr _ \<Rightarrow>
       (case invoked p ! i of
          Run_docker_container \<Rightarrow> True | Start_resilientdb \<Rightarrow> True
        | Stop_docker_container \<Rightarrow> False | Stop_resilientdb \<Rightarrow> False | _ \<Rightarrow> resilientdbRunning p))"
  using assms by (cases "invoked p ! i")
    (auto simp: answered_def rejected_def Let_def started_def stopped_def all_running_def split: sum.split)

lemma perform_agrees:
  assumes "container_ok D alive up" "agrees up (p, s)" "i < length (invoked p)" "invoked p ! i = c" "c \<noteq> Run_docker_container"
    "native D c s = (r, s')"
  shows "agrees up (orbit_step p (Answered i r now), s')"
proof (cases "alive s")
  case False
  note d = native_dead [OF assms(1) False assms(5,6)]
  have "\<not> resilientdbRunning p" using assms(2) dead_nothing [OF assms(1) False] by (auto simp: agrees_def services_def)
  moreover have "\<not> up s' v" for v using dead_nothing [OF assms(1)] d by blast
  ultimately show ?thesis using d assms(3,4) by (auto simp: agrees_def answered_running split: sum.split command.split)
next
  case True
  have one: "one_service D verb v ok bad s = (r, s') \<Longrightarrow> verb = ''restart'' \<or> verb = ''stop'' \<Longrightarrow> v \<notin> set services \<Longrightarrow>
      \<forall>w \<in> set services. up s' w = up s w" for verb v ok bad
    using restart_law [OF assms(1) True, of v] stop_law [OF assms(1) True, of v] by (auto simp: one_service_ok split: if_splits)
  note all = for_services_restart [OF assms(1) True, of "''start''" services "''ResilientDB services started successfully.''"]
    for_services_stop [OF assms(1) True, of "''stop''" services "''ResilientDB services stopped successfully.''"]
  show ?thesis
  proof (cases c)
    case Stop_docker_container
    moreover have "\<not> up (snd (D stop_container s)) v" for v using dead_nothing [OF assms(1)] halt_law [OF assms(1)] by blast
    ultimately show ?thesis using assms(3,4,6) halt_law [OF assms(1), of s]
      by (auto simp: agrees_def answered_running stop_docker_container_def status_of_run_ok)
  next
    case Start_resilientdb
    then show ?thesis using assms(3,4,6) all(1) by (auto simp: agrees_def answered_running start_resilientdb_def)
  next
    case Stop_resilientdb
    then show ?thesis using assms(3,4,6) all(2) by (auto simp: agrees_def answered_running stop_resilientdb_def)
  qed (use assms(2-6) one crow_apart in
      \<open>auto simp: agrees_def answered_running start_crow_def stop_crow_def start_graphql_def stop_graphql_def split: sum.split\<close>)
qed

interpretation desk: stepper "desk_step D" "desk_ok D alive up" for D :: "'s docker" and alive up
proof
  fix ps :: "orbit \<times> 's" and e
  assume ok: "desk_ok D alive up ps"
  obtain p s where ps: "ps = (p, s)" by force
  show "desk_ok D alive up (desk_step D ps e)"
  proof (cases e)
    case (Press c)
    then show ?thesis using ok set_up_step [of p "Click c"] orbit_step_clock [of p "Click c"]
      by (simp add: ps desk_ok_def agrees_def)
  next
    case (Clock now)
    then show ?thesis using ok set_up_step [of p "Tick now"] orbit_step_clock [of p "Tick now"]
      by (simp add: ps desk_ok_def agrees_def tick_def split: option.split)
  next
    case (Perform i now)
    show ?thesis
    proof (cases "i < length (invoked p)")
      case True
      obtain r s' where n: "native D (invoked p ! i) s = (r, s')" by force
      have "invoked p ! i \<noteq> Run_docker_container" using ok nth_mem [OF True] by (metis desk_ok_def set_up_def ps fst_conv)
      then have "agrees up (orbit_step p (Answered i r now), s')"
        using perform_agrees [OF _ _ True refl _ n, of alive up now] ok by (simp add: desk_ok_def ps)
      then show ?thesis using ok True n Perform set_up_step [of p "Answered i r now"] orbit_step_clock [of p "Answered i r now"]
        by (simp add: ps desk_ok_def del: orbit_step.simps)
    qed (use ok Perform ps in simp)
  qed
qed

text \<open>The set-up.\<close>

lemma run_docker_container_ok:
  assumes "container_ok D alive up" "run_docker_container D s = (Inr m, s')"
  shows "alive s' \<and> up s' v"
proof -
  obtain s2 where r: "status_of_run D run_container ''Docker container started successfully.'' ''Failed to start Docker container.'' s2 = (Inr m, s')"
    using assms(2) by (auto simp: run_docker_container_def split: prod.splits sum.splits if_splits)
  then have "runs_ok D run_container s2" by (metis status_of_run_Inr fst_conv)
  then show ?thesis using r run_law [OF assms(1)] by (auto simp: status_of_run_ok)
qed

lemma set_up_ok:
  assumes "container_ok D alive up" "fst (run_docker_container D s0) = Inr m"
  shows "desk_ok D alive up (desk_step D (open_orbit, s0) (Perform 0 t))"
proof -
  obtain s' where r: "run_docker_container D s0 = (Inr m, s')" using assms(2) by (cases "run_docker_container D s0") simp
  have "invoked open_orbit = [Run_docker_container]" by (simp add: open_orbit_def setupContainer_def invoke_def)
  then have "desk_step D (open_orbit, s0) (Perform 0 t) = (orbit_step open_orbit (Answered 0 (Inr m) t), s')" "set_up (orbit_step open_orbit (Answered 0 (Inr m) t))"
      "resilientdbRunning (orbit_step open_orbit (Answered 0 (Inr m) t))"
    using r by (simp_all add: set_up_def answered_def started_def all_running_def)
  then show ?thesis
    using assms(1) run_docker_container_ok [OF assms(1) r] orbit_step_clock [OF open_orbit_clock]
    by (simp add: desk_ok_def agrees_def del: desk_step.simps orbit_step.simps)
qed

text \<open>A container that was stopped stays stopped.\<close>

definition all_stopped :: "'s docker \<Rightarrow> ('s \<Rightarrow> bool) \<Rightarrow> ('s \<Rightarrow> string \<Rightarrow> bool) \<Rightarrow> orbit \<times> 's \<Rightarrow> bool" where
  "all_stopped D alive up ps \<longleftrightarrow> container_ok D alive up \<and> set_up (fst ps) \<and> \<not> alive (snd ps)
     \<and> \<not> resilientdbRunning (fst ps) \<and> \<not> crowRunning (fst ps) \<and> \<not> graphqlRunning (fst ps)"

lemma answered_stopped:
  assumes "c = Stop_docker_container \<or> (\<exists>e. r = Inl e) \<and> \<not> resilientdbRunning p \<and> \<not> crowRunning p \<and> \<not> graphqlRunning p"
    "i < length (invoked p)" "invoked p ! i = c"
    "\<exists>e. r = Inl e \<Longrightarrow> \<not> resilientdbRunning p \<and> \<not> crowRunning p \<and> \<not> graphqlRunning p"
  shows "\<not> resilientdbRunning (answered i r now p) \<and> \<not> crowRunning (answered i r now p) \<and> \<not> graphqlRunning (answered i r now p)"
  using assms by (auto simp: answered_def rejected_def Let_def stopped_def all_running_def split: sum.split)

interpretation halt: stepper "desk_step D" "all_stopped D alive up" for D :: "'s docker" and alive up
proof
  fix ps :: "orbit \<times> 's" and e
  assume ok: "all_stopped D alive up ps"
  obtain p s where ps: "ps = (p, s)" by force
  show "all_stopped D alive up (desk_step D ps e)"
  proof (cases e)
    case (Press c)
    then show ?thesis using ok set_up_step [of p "Click c"] by (simp add: ps all_stopped_def)
  next
    case (Clock now)
    then show ?thesis using ok set_up_step [of p "Tick now"] by (simp add: ps all_stopped_def tick_def split: option.split)
  next
    case (Perform i now)
    show ?thesis
    proof (cases "i < length (invoked p)")
      case True
      obtain r s' where n: "native D (invoked p ! i) s = (r, s')" by force
      have c: "invoked p ! i \<noteq> Run_docker_container" using ok nth_mem [OF True] by (metis all_stopped_def set_up_def ps fst_conv)
      note d = native_dead [OF _ _ c n]
      show ?thesis
        using ok True n Perform set_up_step [of p "Answered i r now"] d answered_stopped [of "invoked p ! i" r p i now]
        by (auto simp: ps all_stopped_def)
    qed (use ok Perform ps in simp)
  qed
qed

text \<open>Stopping the database shows the other services as stopped, although they keep running.\<close>

lemma stop_hides_services:
  assumes "container_ok D alive up" "fst (run_docker_container D s0) = Inr m"
    and "(p, s) = foldl (desk_step D) (open_orbit, s0) [Perform 0 t0, Press ToggleResilientDB, Perform 0 t1]"
  shows "\<not> crowRunning p \<and> \<not> graphqlRunning p \<and> up s ''crow-http'' \<and> up s ''graphql''"
proof -
  obtain s' where r: "run_docker_container D s0 = (Inr m, s')" using assms(2) by (cases "run_docker_container D s0") simp
  note a = run_docker_container_ok [OF assms(1) r]
  obtain s2 where s2: "for_services D ''stop'' ''stop'' services ''ResilientDB services stopped successfully.'' s' =
      (Inr ''ResilientDB services stopped successfully.'', s2)" "\<forall>w. up s2 w = (w \<notin> set services \<and> up s' w)"
    using for_services_stop [OF assms(1)] a by blast
  have "s = s2" "\<not> crowRunning p" "\<not> graphqlRunning p"
    using assms(3) r s2(1)
    by (simp_all add: open_orbit_def setupContainer_def invoke_def answered_def started_def stopped_def all_running_def stop_resilientdb_def)
  then show ?thesis using s2(2) a crow_apart by simp
qed

text \<open>A machine for examples: its state is \<open>None\<close> without a running container and otherwise the list of the services that are stopped in it.\<close>

definition toy_docker :: "string list option docker" where
  "toy_docker c s =
     (if snd c = snd run_container then (Inr \<lparr>exit_ok = True, out_text = [], err_text = []\<rparr>, Some [])
      else if snd c = snd stop_container then (Inr \<lparr>exit_ok = True, out_text = [], err_text = []\<rparr>, None)
      else if take 3 (snd c) = [''exec'', ''resilientdb-container'', ''systemctl''] \<and> length (snd c) = 5
      then (case s of
              None \<Rightarrow> (Inr \<lparr>exit_ok = False, out_text = [], err_text = ''container is not running''\<rparr>, None)
            | Some off \<Rightarrow> (Inr \<lparr>exit_ok = True, out_text = [], err_text = []\<rparr>,
                Some (if snd c ! 3 = ''stop'' then snd c ! 4 # off else filter (\<lambda>v. v \<noteq> snd c ! 4) off)))
      else (Inr \<lparr>exit_ok = True, out_text = ''latest'', err_text = []\<rparr>, s))"

definition toy_up :: "string list option \<Rightarrow> string \<Rightarrow> bool" where
  "toy_up s v = (case s of None \<Rightarrow> False | Some off \<Rightarrow> v \<notin> set off)"

lemma toy_systemctl: "toy_docker (systemctl verb v) s =
    (case s of
       None \<Rightarrow> (Inr \<lparr>exit_ok = False, out_text = [], err_text = ''container is not running''\<rparr>, None)
     | Some off \<Rightarrow> (Inr \<lparr>exit_ok = True, out_text = [], err_text = []\<rparr>,
         Some (if verb = ''stop'' then v # off else filter (\<lambda>w. w \<noteq> v) off)))"
  by (simp add: toy_docker_def systemctl_def run_container_def stop_container_def split: option.split)

lemma toy_container: "container_ok toy_docker (\<lambda>s. s \<noteq> None) toy_up"
proof -
  have 1: "toy_docker stop_container s = (Inr \<lparr>exit_ok = True, out_text = [], err_text = []\<rparr>, None)" for s
    by (simp add: toy_docker_def run_container_def stop_container_def)
  have 2: "toy_docker run_container s = (Inr \<lparr>exit_ok = True, out_text = [], err_text = []\<rparr>, Some [])" for s
    by (simp add: toy_docker_def)
  show ?thesis unfolding container_ok_def
    by (auto simp: runs_ok_def toy_up_def 1 2 toy_systemctl fun_eq_iff split: option.splits)
qed

lemma toy_set_up: "fst (run_docker_container toy_docker None) = Inr ''Docker container started successfully.''"
proof -
  have "image_exists ''latest''" by (simp add: image_exists_def rust_trim_def rust_space_def newline_def)
  then show ?thesis
    by (simp add: run_docker_container_def list_tags_def remove_container_def toy_docker_def run_container_def stop_container_def
        status_of_run_def)
qed

section \<open>Properties\<close>





end
