(* ===== verification/Create_App.thy ===== *)
theory Create_App
  imports JS_String
begin

text \<open>
  The scaffolding tool \<^verbatim>\<open>create-resilient-app\<close> (\<^verbatim>\<open>src/index.ts\<close>, \<^verbatim>\<open>src/add-shebang.ts\<close>). A file system maps absolute paths, as lists
  of names, to directories and files. What the user answers and the copy routine of the file system library are parameters;
  the copy may fail half-way.
\<close>

section \<open>Paths and files\<close>

datatype node = Dir | File string

type_synonym path = "string list"

type_synonym fs = "path \<Rightarrow> node option"

definition existsSync :: "fs \<Rightarrow> path \<Rightarrow> bool" where
  "existsSync fs p = (fs p \<noteq> None)"

text \<open>One name of a path, as \<^verbatim>\<open>path.join\<close> and \<^verbatim>\<open>path.resolve\<close> read it after an absolute path.\<close>

definition enter :: "path \<Rightarrow> string \<Rightarrow> path" where
  "enter p s = (if s = [] \<or> s = ''.'' then p else if s = ''..'' then butlast p else p @ [s])"

definition path_join :: "path \<Rightarrow> string \<Rightarrow> path" where
  "path_join p s = foldl enter p (split_on CHR ''/'' s)"

text \<open>The copy routine: the file system afterwards, and an error if it failed.\<close>

type_synonym copier = "fs \<Rightarrow> path \<Rightarrow> path \<Rightarrow> fs \<times> js_error option"

section \<open>The tool\<close>

record options =
  opt_name :: string
  opt_framework :: string
  opt_language :: string

text \<open>An option that was not given is the empty text here: the tool treats both alike.\<close>

definition validate :: "fs \<Rightarrow> path \<Rightarrow> string \<Rightarrow> string option" where
  "validate fs cwd input =
     (if input = [] then Some ''Project name cannot be empty.''
      else if existsSync fs (path_join cwd input) then Some ''A directory with this name already exists.''
      else None)"

definition questions :: "options \<Rightarrow> string list" where
  "questions opts =
     (if opt_name opts = [] then [''projectName''] else [])
     @ (if opt_framework opts = [] then [''framework''] else [])
     @ (if opt_language opts = [] then [''language''] else [])"

definition given_or :: "string \<Rightarrow> string \<Rightarrow> string" where
  "given_or a b = (if a = [] then b else a)"

text \<open>The prompt gets the questions and gives the answers, by their names.\<close>

definition promptUser :: "(string list \<Rightarrow> string \<Rightarrow> string) \<Rightarrow> options \<Rightarrow> string \<times> string \<times> string" where
  "promptUser prompt opts =
     (let answers = prompt (questions opts)
      in (given_or (opt_name opts) (answers ''projectName''), given_or (opt_framework opts) (answers ''framework''),
          given_or (opt_language opts) (answers ''language'')))"

definition lower :: "char \<Rightarrow> char" where
  "lower c = (if 65 \<le> code c \<and> code c \<le> 90 then char_of (code c + 32) else c)"

definition langSuffix :: "string \<Rightarrow> string" where
  "langSuffix language = (if map lower language = ''typescript'' then ''ts'' else ''js'')"

definition templateDir :: "string \<Rightarrow> string \<Rightarrow> string" where
  "templateDir framework language = framework @ ''-'' @ langSuffix language @ ''-resvault-sdk''"

definition getTemplatePath :: "fs \<Rightarrow> path \<Rightarrow> string \<Rightarrow> string \<Rightarrow> path res" where
  "getTemplatePath fs dirname framework language =
     (let templatePath = path_join (path_join dirname ''../templates'') (templateDir framework language);
          alternativePath = path_join (path_join dirname ''templates'') (templateDir framework language)
      in if existsSync fs templatePath then Inr templatePath
         else if existsSync fs alternativePath then Inr alternativePath
         else Inl (Error (''Template not found at /'' @ join ''/'' templatePath @ '' or /'' @ join ''/'' alternativePath)))"

datatype outcome = Complete string | CopyFailed js_error | Occupied string | Failed js_error

definition copyTemplate :: "copier \<Rightarrow> path \<Rightarrow> path \<Rightarrow> fs \<Rightarrow> fs \<times> outcome" where
  "copyTemplate copy templatePath targetPath fs =
     (case copy fs templatePath targetPath of
        (fs', None) \<Rightarrow> (fs', Complete (if targetPath = [] then [] else last targetPath))
      | (fs', Some err) \<Rightarrow> (fs', CopyFailed err))"

definition create_main :: "copier \<Rightarrow> (string list \<Rightarrow> string \<Rightarrow> string) \<Rightarrow> path \<Rightarrow> path \<Rightarrow> options \<Rightarrow> fs \<Rightarrow> fs \<times> outcome" where
  "create_main copy prompt dirname cwd opts fs =
     (case promptUser prompt opts of
        (projectName, framework, language) \<Rightarrow>
          (case getTemplatePath fs dirname framework language of
             Inl err \<Rightarrow> (fs, Failed err)
           | Inr templatePath \<Rightarrow>
               (let targetPath = path_join cwd projectName
                in if existsSync fs targetPath then (fs, Occupied projectName)
                   else copyTemplate copy templatePath targetPath fs)))"

text \<open>The build step that makes the compiled tool executable; the exit code, if the process exits with one.\<close>

definition shebang :: string where
  "shebang = ''#!/usr/bin/env node'' @ [newline]"

definition add_shebang :: "bool \<Rightarrow> path \<Rightarrow> fs \<Rightarrow> fs \<times> nat option" where
  "add_shebang writable filePath fs =
     (case fs filePath of
        Some (File data) \<Rightarrow>
          if starts_with data shebang then (fs, Some 0)
          else if writable then (fs(filePath \<mapsto> File (shebang @ data)), None)
          else (fs, Some 1)
      | _ \<Rightarrow> (fs, Some 1))"

section \<open>Lemmas\<close>

text \<open>Whatever exists stands in a directory.\<close>

definition fs_ok :: "fs \<Rightarrow> bool" where
  "fs_ok fs \<longleftrightarrow> (\<forall>p q. fs (p @ q) \<noteq> None \<and> q \<noteq> [] \<longrightarrow> fs p = Some Dir)"

text \<open>
  The documented behaviour of the copy routine: it changes nothing but what lies below the target, where it also makes the missing
  directories on the way to it, and if it succeeds the target is an image of the source.
\<close>

definition copies :: "copier \<Rightarrow> bool" where
  "copies copy \<longleftrightarrow> (\<forall>fs src dst fs' err. copy fs src dst = (fs', err) \<longrightarrow>
     (\<forall>p. \<not> prefix dst p \<longrightarrow> fs' p = fs p \<or> strict_prefix p dst \<and> fs p = None \<and> fs' p = Some Dir)
     \<and> (err = None \<longrightarrow> (\<forall>q. fs src \<noteq> None \<longrightarrow> fs (src @ q) \<noteq> None \<longrightarrow> fs' (dst @ q) = fs (src @ q))))"

definition tree_copy :: copier where
  "tree_copy fs src dst =
     ((\<lambda>p. if prefix dst p then (case fs (src @ drop (length dst) p) of Some n \<Rightarrow> Some n | None \<Rightarrow> fs p)
           else if strict_prefix p dst \<and> fs p = None then Some Dir else fs p), None)"

lemma tree_copy_copies: "copies tree_copy"
  by (auto simp: copies_def tree_copy_def split: option.split)

lemma below_missing: "fs_ok fs \<Longrightarrow> fs p = None \<Longrightarrow> prefix p q \<Longrightarrow> fs q = None"
  unfolding fs_ok_def prefix_def by (metis append_Nil2 option.distinct(1))

lemma path_join_name:
  assumes "CHR ''/'' \<notin> set s" "s \<notin> {[], ''.'', ''..''}"
  shows "path_join p s = p @ [s]"
  using assms by (simp add: path_join_def enter_def)

text \<open>A second run of the build step changes nothing and exits with code zero.\<close>

lemma shebang_idempotent:
  assumes "fs f = Some (File data)" "\<not> starts_with data shebang"
  shows "fst (add_shebang True f fs) f = Some (File (shebang @ data))
    \<and> add_shebang w f (fst (add_shebang True f fs)) = (fst (add_shebang True f fs), Some 0)"
  using assms by (simp add: add_shebang_def)

section \<open>Properties\<close>

text \<open>
  C22: Creating an application never touches what is there. Whatever the options and the answers are and whether or not the copy
  succeeds, every file and directory that existed keeps its content; and when the tool reports success, the new
  directory did not exist before and holds every file of the chosen template.
\<close>

theorem create_is_safe:
  assumes "copies copy" "fs_ok fs" "create_main copy prompt dirname cwd opts fs = (fs', r)"
  shows "(\<forall>p n. fs p = Some n \<longrightarrow> fs' p = Some n)
    \<and> (\<forall>name. r = Complete name \<longrightarrow>
         (\<exists>src dst. getTemplatePath fs dirname (fst (snd (promptUser prompt opts))) (snd (snd (promptUser prompt opts))) = Inr src
            \<and> dst = path_join cwd (fst (promptUser prompt opts)) \<and> fs dst = None
            \<and> (\<forall>q n. fs (src @ q) = Some n \<longrightarrow> fs' (dst @ q) = Some n)))"
proof (cases "getTemplatePath fs dirname (fst (snd (promptUser prompt opts))) (snd (snd (promptUser prompt opts)))")
  case (Inl e)
  then show ?thesis using assms(3) by (auto simp: create_main_def split: prod.splits)
next
  case (Inr src)
  define dst where "dst = path_join cwd (fst (promptUser prompt opts))"
  have m: "create_main copy prompt dirname cwd opts fs =
      (if existsSync fs dst then (fs, Occupied (fst (promptUser prompt opts))) else copyTemplate copy src dst fs)"
    using Inr by (simp add: create_main_def dst_def case_prod_unfold Let_def)
  have src: "fs src \<noteq> None"
    using Inr by (auto simp: getTemplatePath_def existsSync_def Let_def split: if_splits)
  show ?thesis
  proof (cases "fs dst")
    case (Some n)
    then show ?thesis using assms(3) m by (auto simp: existsSync_def)
  next
    case None
    obtain g err where c: "copy fs src dst = (g, err)" by fastforce
    note law = assms(1) [unfolded copies_def, rule_format, OF c]
    have f: "fs' = g" "\<And>name. r = Complete name \<Longrightarrow> err = None"
      using assms(3) m None c by (auto simp: existsSync_def copyTemplate_def split: option.splits)
    have "fs' p = Some n" if "fs p = Some n" for p n
    proof -
      have "\<not> prefix dst p" using below_missing [OF assms(2) None, of p] that by auto
      then show ?thesis using law that f(1) by fastforce
    qed
    moreover have "fs' (dst @ q) = Some n" if "r = Complete name" "fs (src @ q) = Some n" for name q n
      using law src f(1) f(2) [OF that(1)] that(2) by auto
    ultimately show ?thesis using Inr None dst_def by auto
  qed
qed

theorem create_is_safe_witness:
  "\<exists>fs :: fs. fst (create_main tree_copy (\<lambda>_ _. ''app'') [''t'', ''dist''] [''w''] \<lparr>opt_name = [], opt_framework = ''vue'', opt_language = ''TypeScript''\<rparr> fs)
       [''w'', ''app'', ''a.ts''] = Some (File ''x'')"
proof -
  define fs :: fs where "fs = (\<lambda>p. if p \<in> {[], [''w''], [''t''], [''t'', ''dist''], [''t'', ''templates''], [''t'', ''templates'', ''vue-ts-resvault-sdk'']} then Some Dir
    else if p = [''t'', ''templates'', ''vue-ts-resvault-sdk'', ''a.ts''] then Some (File ''x'') else None)"
  let ?o = "\<lparr>opt_name = [], opt_framework = ''vue'', opt_language = ''TypeScript''\<rparr>"
  let ?src = "[''t'', ''templates'', ''vue-ts-resvault-sdk'']"
  have ok: "fs_ok fs" unfolding fs_ok_def fs_def by (auto simp: append_eq_Cons_conv split: if_splits)
  have p: "promptUser (\<lambda>_ _. ''app'') ?o = (''app'', ''vue'', ''TypeScript'')" by (simp add: promptUser_def given_or_def)
  have "templateDir ''vue'' ''TypeScript'' = ''vue-ts-resvault-sdk''" by code_simp
  then have t: "getTemplatePath fs [''t'', ''dist''] ''vue'' ''TypeScript'' = Inr ?src"
    by (simp add: getTemplatePath_def path_join_def enter_def existsSync_def fs_def)
  have d: "path_join [''w''] ''app'' = [''w'', ''app'']" by (simp add: path_join_def enter_def)
  obtain fs' r where m: "create_main tree_copy (\<lambda>_ _. ''app'') [''t'', ''dist''] [''w''] ?o fs = (fs', r)" by fastforce
  have "fs [''w'', ''app''] = None" by (simp add: fs_def)
  then have "r = Complete ''app''" using m by (simp add: create_main_def p t d existsSync_def copyTemplate_def tree_copy_def Let_def)
  then have "\<forall>q n. fs (?src @ q) = Some n \<longrightarrow> fs' ([''w'', ''app''] @ q) = Some n"
    using create_is_safe [OF tree_copy_copies ok m] by (simp add: p t d)
  moreover have "fs (?src @ [''a.ts'']) = Some (File ''x'')" by (simp add: fs_def)
  ultimately have "fs' [''w'', ''app'', ''a.ts''] = Some (File ''x'')" by (metis append_Cons append_Nil)
  then show ?thesis using m by (intro exI [of _ fs]) simp
qed

end
