(* ===== verification/Badge_Lines.thy ===== *)
theory Badge_Lines
  imports JS_String "HOL-Library.Word"
begin

text \<open>
  The script behind the lines-of-code badge, \<^verbatim>\<open>src/index.js\<close>: counting the lines of a file from the chunks of its
  stream, at most ten files at a time through \<^verbatim>\<open>throttle\<close>, and adding up the counts. The pattern matcher, the file
  system, the badge renderer and the number format of the locale are parameters. A call of a throttled function is
  either waiting for the promise of an earlier call, running, or settled; the promises are named by the number of their
  call. Which of the calls that can go on does so next is the choice of a schedule.
\<close>

section \<open>Counting the lines of a file\<close>

datatype stream_event = Data "8 word list" | End | Failed string

text \<open>\<^verbatim>\<open>chunk.indexOf(10, k)\<close>, and the loop that looks for the next line feed from where the last one was.\<close>

definition index_from :: "8 word list \<Rightarrow> nat \<Rightarrow> nat option" where
  "index_from chunk k = find (\<lambda>i. chunk ! i = 10) [k..<length chunk]"

lemma index_from_Some: "index_from chunk k = Some i \<Longrightarrow> k \<le> i \<and> i < length chunk \<and> chunk ! i = 10"
  by (auto simp: index_from_def find_Some_iff)

function count_feeds :: "8 word list \<Rightarrow> nat \<Rightarrow> nat \<Rightarrow> nat" where
  "count_feeds chunk k count =
     (case index_from chunk k of None \<Rightarrow> count | Some i \<Rightarrow> count_feeds chunk (Suc i) (Suc count))"
  by pat_completeness auto
termination
  by (relation "measure (\<lambda>(chunk, k, _). length chunk - k)") (auto dest!: index_from_Some)

declare count_feeds.simps [simp del]

fun count_events :: "stream_event list \<Rightarrow> nat \<Rightarrow> nat res option" where
  "count_events [] count = None"
| "count_events (Data chunk # es) count = count_events es (count_feeds chunk 0 count)"
| "count_events (End # es) count = Some (Inr count)"
| "count_events (Failed m # es) count = Some (Inl (Error m))"

definition countLines :: "('f \<Rightarrow> stream_event list) \<Rightarrow> 'f \<Rightarrow> nat res option" where
  "countLines createReadStream fullPath = count_events (createReadStream fullPath) 1"

section \<open>Throttled calls\<close>

datatype 'r status = Waiting | Running | Settled "'r res"

record ('a, 'r) throttled =
  idx :: nat
  queue :: "nat option list"
  calls :: "(nat option \<times> 'a \<times> 'r status) list"

definition throttle :: "nat \<Rightarrow> ('a, 'r) throttled" where
  "throttle limit = \<lparr>idx = 0, queue = replicate limit None, calls = []\<rparr>"

definition throttled_call :: "nat \<Rightarrow> 'a \<Rightarrow> ('a, 'r) throttled \<Rightarrow> ('a, 'r) throttled" where
  "throttled_call limit a s =
     (let offset = idx s mod limit; blocker = queue s ! offset
      in \<lparr>idx = idx s + 1, queue = (queue s)[offset := Some (idx s)],
          calls = calls s @ [(blocker, a, if blocker = None then Running else Waiting)]\<rparr>)"

definition status_of :: "('a, 'r) throttled \<Rightarrow> nat \<Rightarrow> 'r status" where
  "status_of s i = snd (snd (calls s ! i))"

fun is_settled :: "'r status \<Rightarrow> bool" where
  "is_settled (Settled _) = True"
| "is_settled _ = False"

text \<open>
  A waiting call starts its callback once the promise of its blocker is resolved, which happens in the \<^verbatim>\<open>finally\<close>
  block of that call; a running one settles when its callback has, \<open>f a\<close> being what it gives in the end.
\<close>

definition can_advance :: "('a \<Rightarrow> 'r res option) \<Rightarrow> ('a, 'r) throttled \<Rightarrow> nat \<Rightarrow> bool" where
  "can_advance f s i =
     (i < length (calls s) \<and>
      (case calls s ! i of
         (Some b, a, Waiting) \<Rightarrow> is_settled (status_of s b)
       | (None, a, Waiting) \<Rightarrow> True
       | (_, a, Running) \<Rightarrow> f a \<noteq> None
       | (_, a, Settled _) \<Rightarrow> False))"

definition advance :: "('a \<Rightarrow> 'r res option) \<Rightarrow> nat \<Rightarrow> ('a, 'r) throttled \<Rightarrow> ('a, 'r) throttled" where
  "advance f i s =
     (if can_advance f s i
      then case calls s ! i of
          (b, a, Waiting) \<Rightarrow> s\<lparr>calls := (calls s)[i := (b, a, Running)]\<rparr>
        | (b, a, Running) \<Rightarrow>
            (case f a of Some r \<Rightarrow> s\<lparr>calls := (calls s)[i := (b, a, Settled r)]\<rparr> | None \<Rightarrow> s)
        | (b, a, Settled _) \<Rightarrow> s
      else s)"

text \<open>Calls may arrive and go on in any order.\<close>

datatype 'a throttle_event = Arrive 'a | Advance nat

fun throttle_step :: "nat \<Rightarrow> ('a \<Rightarrow> 'r res option) \<Rightarrow> ('a, 'r) throttled \<Rightarrow> 'a throttle_event \<Rightarrow> ('a, 'r) throttled" where
  "throttle_step limit f s (Arrive a) = throttled_call limit a s"
| "throttle_step limit f s (Advance i) = advance f i s"

text \<open>A schedule: at each turn, which of the calls that can go on does.\<close>

fun drive :: "('a \<Rightarrow> 'r res option) \<Rightarrow> nat list \<Rightarrow> ('a, 'r) throttled \<Rightarrow> ('a, 'r) throttled" where
  "drive f [] s = s"
| "drive f (p # ps) s =
     (case filter (can_advance f s) [0..<length (calls s)] of
        [] \<Rightarrow> s
      | i # js \<Rightarrow> drive f ps (advance f ((i # js) ! (p mod length (i # js))) s))"

fun settled_results :: "(nat option \<times> 'a \<times> 'r status) list \<Rightarrow> 'r res list option" where
  "settled_results [] = Some []"
| "settled_results ((_, _, Settled r) # cs) = map_option ((#) r) (settled_results cs)"
| "settled_results (_ # cs) = None"

section \<open>The badge\<close>

text \<open>
  The matched files are named relative to \<open>dir\<close>, and opened by these names. A file that cannot be read
  counts for nothing. The result is pending while a call is.
\<close>

definition getFiles :: "(string \<Rightarrow> string list \<Rightarrow> string list \<Rightarrow> string list res) \<Rightarrow> (string \<Rightarrow> stream_event list) \<Rightarrow>
    nat list \<Rightarrow> string \<Rightarrow> string list \<Rightarrow> string list \<Rightarrow> (nat \<times> nat \<times> nat) res option" where
  "getFiles glob createReadStream schedule dir patterns negative =
     (case glob dir patterns negative of
        Inl e \<Rightarrow> Some (Inl e)
      | Inr files \<Rightarrow>
          map_option
            (\<lambda>rs. Inr (foldl (\<lambda>lines r. lines + (case r of Inl _ \<Rightarrow> 0 | Inr n \<Rightarrow> n)) 0 rs, 0, length files))
            (settled_results (calls (drive (countLines createReadStream) schedule
               (foldl (\<lambda>s f. throttled_call 10 f s) (throttle 10) files)))))"

definition input_list :: "string option \<Rightarrow> string list" where
  "input_list v = filter (\<lambda>s. s \<noteq> []) (map trim (split_str ''|'' [] (case v of Some t \<Rightarrow> t | None \<Rightarrow> [])))"

definition makeBadge :: "(string \<Rightarrow> string \<Rightarrow> string) \<Rightarrow> string \<Rightarrow> string" where
  "makeBadge badgen text = badgen ''lines of code'' text"

datatype fs_op = Mkdir string | WriteFile string string

record badge_inputs =
  in_directory :: "string option"
  in_badge :: "string option"
  in_patterns :: "string option"
  in_ignore :: "string option"

definition input_or :: "string option \<Rightarrow> string \<Rightarrow> string" where
  "input_or v dflt = (case v of Some (c # s) \<Rightarrow> c # s | _ \<Rightarrow> dflt)"

definition badge_main :: "(string \<Rightarrow> string list \<Rightarrow> string list \<Rightarrow> string list res) \<Rightarrow> (string \<Rightarrow> stream_event list) \<Rightarrow>
    (string \<Rightarrow> string \<Rightarrow> string) \<Rightarrow> (nat \<Rightarrow> string) \<Rightarrow> (string \<Rightarrow> string) \<Rightarrow> nat list \<Rightarrow> badge_inputs \<Rightarrow> fs_op list res option" where
  "badge_main glob createReadStream badgen toLocaleString dirname schedule inp =
     (let badge = input_or (in_badge inp) ''./badge.svg'' in
      map_option (\<lambda>r. bind_res r (\<lambda>(lines, ignored, counted).
          Inr [Mkdir (dirname badge), WriteFile badge (makeBadge badgen (toLocaleString lines))]))
        (getFiles glob createReadStream schedule (input_or (in_directory inp) ''./'')
           (input_list (in_patterns inp)) (input_list (in_ignore inp))))"

section \<open>Lemmas\<close>

definition feeds :: "8 word list \<Rightarrow> nat" where
  "feeds bs = length (filter (\<lambda>b. b = 10) bs)"

lemma feeds_Nil [simp]: "feeds [] = 0"
  by (simp add: feeds_def)

lemma index_from_rec:
  "index_from chunk k = (if k < length chunk then if chunk ! k = 10 then Some k else index_from chunk (Suc k) else None)"
  by (simp add: index_from_def upt_rec [of k])

lemma feeds_drop:
  "feeds (drop k chunk) = (if k < length chunk then (if chunk ! k = 10 then 1 else 0) + feeds (drop (Suc k) chunk) else 0)"
  by (simp add: feeds_def flip: Cons_nth_drop_Suc)

lemma count_feeds_eq: "count_feeds chunk k count = count + feeds (drop k chunk)"
proof (induction "length chunk - k" arbitrary: k count)
  case 0
  then show ?case by (simp add: count_feeds.simps [of chunk k] index_from_rec [of chunk k] feeds_drop [of k])
next
  case (Suc n)
  then have k: "k < length chunk" "n = length chunk - Suc k" by simp_all
  note IH = Suc(1) [OF k(2)]
  show ?case
  proof (cases "chunk ! k = 10")
    case True
    then show ?thesis using k(1) IH by (simp add: count_feeds.simps [of chunk k] index_from_rec [of chunk k] feeds_drop [of k])
  next
    case False
    then have "count_feeds chunk k count = count_feeds chunk (Suc k) count"
      using k(1) by (simp add: count_feeds.simps [of chunk k] count_feeds.simps [of chunk "Suc k"] index_from_rec [of chunk k])
    with False show ?thesis using k(1) IH by (simp add: feeds_drop [of k])
  qed
qed

text \<open>
  A stream delivers a file: its bytes in some chunks and the end, or an error at some point if it cannot be read.
\<close>

fun delivers :: "stream_event list \<Rightarrow> 8 word list option \<Rightarrow> bool" where
  "delivers [] c = False"
| "delivers (Data chunk # es) None = delivers es None"
| "delivers (Data chunk # es) (Some bs) =
     (take (length chunk) bs = chunk \<and> delivers es (Some (drop (length chunk) bs)))"
| "delivers (End # es) c = (es = [] \<and> c = Some [])"
| "delivers (Failed m # es) c = (es = [] \<and> c = None)"

definition lines_of :: "8 word list option \<Rightarrow> nat" where
  "lines_of c = (case c of None \<Rightarrow> 0 | Some bs \<Rightarrow> 1 + feeds bs)"

lemma count_events_delivers:
  "delivers es c \<Longrightarrow> (\<exists>r. count_events es n = Some r \<and>
     (case c of None \<Rightarrow> \<not> is_ok r | Some bs \<Rightarrow> r = Inr (n + feeds bs)))"
proof (induction es c arbitrary: n rule: delivers.induct)
  case (3 chunk es bs)
  then have d: "take (length chunk) bs = chunk" "delivers es (Some (drop (length chunk) bs))" by simp_all
  have "feeds bs = feeds chunk + feeds (drop (length chunk) bs)"
    using append_take_drop_id [of "length chunk" bs] unfolding d(1) feeds_def by (metis filter_append length_append)
  then show ?case using 3(1) [OF d(2), of "n + feeds chunk"] by (simp add: count_feeds_eq)
qed (auto simp: count_feeds_eq feeds_def)

lemma countLines_delivers:
  assumes "delivers (read f) c"
  obtains r where "countLines read f = Some r" "(case r of Inl _ \<Rightarrow> 0 | Inr n \<Rightarrow> n) = lines_of c"
proof -
  obtain r where r: "count_events (read f) 1 = Some r" "case c of None \<Rightarrow> \<not> is_ok r | Some bs \<Rightarrow> r = Inr (1 + feeds bs)"
    using count_events_delivers [OF assms, of 1] by blast
  have "(case r of Inl _ \<Rightarrow> 0 | Inr n \<Rightarrow> n) = lines_of c"
    using r(2) by (cases c; cases r) (auto simp: lines_of_def)
  then show thesis using that r(1) by (simp add: countLines_def)
qed

text \<open>
  The invariant of a throttled function. Slot \<open>k\<close> of the queue holds the last call with that remainder; a call waits for
  the one \<open>limit\<close> calls before it, and has not started before that one has settled.
\<close>

definition slots_ok :: "nat \<Rightarrow> ('a, 'r) throttled \<Rightarrow> bool" where
  "slots_ok limit s \<longleftrightarrow> length (queue s) = limit \<and> idx s = length (calls s)
     \<and> (\<forall>k < limit. case queue s ! k of
          None \<Rightarrow> idx s \<le> k
        | Some j \<Rightarrow> j < idx s \<and> idx s \<le> j + limit \<and> j mod limit = k)"

definition ordered :: "nat \<Rightarrow> ('a, 'r) throttled \<Rightarrow> bool" where
  "ordered limit s \<longleftrightarrow> (\<forall>i < length (calls s).
       fst (calls s ! i) = (if i < limit then None else Some (i - limit))
     \<and> (i < limit \<longrightarrow> status_of s i \<noteq> Waiting)
     \<and> (limit \<le> i \<longrightarrow> status_of s i \<noteq> Waiting \<longrightarrow> is_settled (status_of s (i - limit))))"

lemma throttle_ok: "slots_ok limit (throttle limit)" "ordered limit (throttle limit)"
  by (simp_all add: slots_ok_def ordered_def throttle_def)

text \<open>A number in the window of the last \<open>limit\<close> calls is determined by its remainder.\<close>

lemma window_mod:
  assumes "j < n" "n \<le> j + limit" "j mod limit = n mod (limit :: nat)"
  shows "n = j + limit"
proof -
  have "limit dvd n - j" using assms(1,3) mod_eq_dvd_iff_nat [of j n limit] by simp
  moreover have "0 < n - j" "n - j \<le> limit" using assms(1,2) by simp_all
  ultimately have "n - j = limit" using dvd_imp_le by (metis le_antisym)
  with assms(1) show ?thesis by simp
qed

lemma blocker_of_call:
  assumes "slots_ok limit s" "0 < limit"
  shows "queue s ! (idx s mod limit) = (if idx s < limit then None else Some (idx s - limit))"
proof -
  let ?k = "idx s mod limit"
  have k: "?k < limit" using assms(2) by simp
  show ?thesis
  proof (cases "queue s ! ?k")
    case None
    then have "idx s \<le> ?k" using assms(1) k by (auto simp: slots_ok_def)
    then have "idx s < limit" using k by simp
    with None show ?thesis by simp
  next
    case (Some j)
    then have "j < idx s" "idx s \<le> j + limit" "j mod limit = ?k" using assms(1) k by (auto simp: slots_ok_def)
    then have "idx s = j + limit" by (rule window_mod)
    with Some show ?thesis by simp
  qed
qed

lemma call_fields:
  "idx (throttled_call limit a s) = idx s + 1" "queue (throttled_call limit a s) = (queue s)[idx s mod limit := Some (idx s)]"
  "length (calls (throttled_call limit a s)) = length (calls s) + 1"
  by (simp_all add: throttled_call_def Let_def)

lemma call_slots: "slots_ok limit s \<Longrightarrow> 0 < limit \<Longrightarrow> slots_ok limit (throttled_call limit a s)"
proof -
  assume s: "slots_ok limit s" and l: "0 < limit"
  have "case (queue s)[idx s mod limit := Some (idx s)] ! k of
          None \<Rightarrow> idx s + 1 \<le> k
        | Some j \<Rightarrow> j < idx s + 1 \<and> idx s + 1 \<le> j + limit \<and> j mod limit = k" if k: "k < limit" for k
  proof (cases "k = idx s mod limit")
    case True
    then show ?thesis using s l k by (simp add: slots_ok_def)
  next
    case False
    then have e: "(queue s)[idx s mod limit := Some (idx s)] ! k = queue s ! k" by simp
    show ?thesis
    proof (cases "queue s ! k")
      case None
      then have "idx s \<le> k" using s k by (auto simp: slots_ok_def)
      moreover have "idx s \<noteq> k" using False k by auto
      ultimately show ?thesis using e None by simp
    next
      case (Some j)
      then have j: "j < idx s" "idx s \<le> j + limit" "j mod limit = k" using s k by (auto simp: slots_ok_def)
      have "idx s \<noteq> j + limit" using False j(3) by auto
      with j e Some show ?thesis by simp
    qed
  qed
  moreover have "length (queue s) = limit" "idx s = length (calls s)" using s by (simp_all add: slots_ok_def)
  ultimately show ?thesis unfolding slots_ok_def call_fields by simp
qed

lemma call_ordered:
  assumes "slots_ok limit s" "ordered limit s" "0 < limit"
  shows "ordered limit (throttled_call limit a s)"
proof -
  have n: "idx s = length (calls s)" using assms(1) by (simp add: slots_ok_def)
  have b: "queue s ! (idx s mod limit) = (if idx s < limit then None else Some (idx s - limit))"
    by (rule blocker_of_call [OF assms(1,3)])
  have c: "calls (throttled_call limit a s) = calls s @ [(if idx s < limit then None else Some (idx s - limit), a,
      if idx s < limit then Running else Waiting)]"
    by (simp add: throttled_call_def b Let_def)
  show ?thesis
    using assms(2) unfolding ordered_def status_of_def c by (auto simp: nth_append n less_Suc_eq)
qed

lemma advance_cases:
  obtains (same) "advance f i s = s"
  | (resume) b a where "can_advance f s i" "calls s ! i = (b, a, Waiting)" "i < length (calls s)" "\<forall>j. b = Some j \<longrightarrow> is_settled (status_of s j)"
      "advance f i s = s\<lparr>calls := (calls s)[i := (b, a, Running)]\<rparr>"
  | (settle) b a r where "can_advance f s i" "calls s ! i = (b, a, Running)" "i < length (calls s)" "f a = Some r"
      "advance f i s = s\<lparr>calls := (calls s)[i := (b, a, Settled r)]\<rparr>"
proof (cases "can_advance f s i")
  case False
  then show ?thesis using same by (simp add: advance_def)
next
  case True
  obtain b a st where c: "calls s ! i = (b, a, st)" by (cases "calls s ! i")
  have "i < length (calls s)" using True by (simp add: can_advance_def)
  then show ?thesis using True resume [OF True] settle [OF True] c
    by (cases st; cases b) (auto simp: can_advance_def advance_def)
qed

lemma advance_fields:
  "idx (advance f i s) = idx s" "queue (advance f i s) = queue s" "length (calls (advance f i s)) = length (calls s)"
  by (cases rule: advance_cases [of f i s]; simp)+

lemma advance_slots: "slots_ok limit s \<Longrightarrow> slots_ok limit (advance f i s)"
  unfolding slots_ok_def advance_fields .

lemma status_update: "status_of (s\<lparr>calls := (calls s)[i := (b, a, st)]\<rparr>) j =
    (if j = i \<and> i < length (calls s) then st else status_of s j)"
  by (cases "i < length (calls s)") (auto simp: status_of_def nth_list_update list_update_beyond not_less)

lemma advance_ordered:
  assumes "ordered limit s"
  shows "ordered limit (advance f i s)"
proof (cases rule: advance_cases [of f i s])
  case (resume b a)
  have b: "b = (if i < limit then None else Some (i - limit))" using assms resume(2,3) by (auto simp: ordered_def)
  then show ?thesis
    using assms resume(3,4) unfolding resume(5) ordered_def
    by (auto simp: status_update nth_list_update) (use resume(2) in \<open>auto simp: status_of_def\<close>)
next
  case (settle b a r)
  have b: "b = (if i < limit then None else Some (i - limit))" "status_of s i = Running"
    using assms settle(2,3) by (auto simp: ordered_def status_of_def)
  then show ?thesis
    using assms settle(3) unfolding settle(5) ordered_def
    by (auto simp: status_update nth_list_update)
qed (use assms in simp)

interpretation thr: stepper "throttle_step limit f" "\<lambda>s. 0 < limit \<longrightarrow> slots_ok limit s \<and> ordered limit s"
    for limit and f :: "'a \<Rightarrow> 'r res option"
proof
  fix s :: "('a, 'r) throttled" and e
  assume "0 < limit \<longrightarrow> slots_ok limit s \<and> ordered limit s"
  then show "0 < limit \<longrightarrow> slots_ok limit (throttle_step limit f s e) \<and> ordered limit (throttle_step limit f s e)"
    by (cases e) (simp_all add: call_slots call_ordered advance_slots advance_ordered)
qed

lemma settled_before:
  assumes "ordered limit s" "status_of s (i + m * limit) \<noteq> Waiting" "i + m * limit < length (calls s)" "0 < m" "0 < limit"
  shows "is_settled (status_of s i)"
  using assms(2-4)
proof (induction m)
  case (Suc m)
  let ?j = "i + m * limit"
  have "is_settled (status_of s ?j)"
    using assms(1) Suc.prems(1,2) by (auto simp: ordered_def dest!: spec [of _ "i + Suc m * limit"])
  moreover from this have "status_of s ?j \<noteq> Waiting" by auto
  ultimately show ?case using Suc.IH Suc.prems(2) by (cases "m = 0") auto
qed simp

definition running :: "('a, 'r) throttled \<Rightarrow> nat set" where
  "running s = {i. i < length (calls s) \<and> status_of s i = Running}"

lemma slot_order:
  assumes "ordered limit s" "0 < limit" "i < j" "j < length (calls s)" "i mod limit = j mod limit" "status_of s j \<noteq> Waiting"
  shows "is_settled (status_of s i)"
proof -
  have "limit dvd j - i" using assms(3,5) mod_eq_dvd_iff_nat [of i j limit] by simp
  then obtain m where "j - i = m * limit" by (metis dvdE mult.commute)
  then have m: "j = i + m * limit" using assms(3) by simp
  then have "0 < m" using assms(3) by (cases m) simp_all
  then show ?thesis using settled_before [OF assms(1), of i m] assms m by simp
qed

lemma running_distinct:
  assumes "ordered limit s" "0 < limit"
  shows "inj_on (\<lambda>i. i mod limit) (running s)"
proof -
  have lt: False if "i \<in> running s" "j \<in> running s" "i mod limit = j mod limit" "i < j" for i j
    using slot_order [OF assms that(4)] that by (simp add: running_def)
  show ?thesis by (rule inj_onI) (use lt in \<open>metis linorder_neqE_nat\<close>)
qed

text \<open>Each step of a call brings the end closer, and the earliest unsettled call can always take one.\<close>

fun work :: "'r status \<Rightarrow> nat" where
  "work Waiting = 2"
| "work Running = 1"
| "work (Settled _) = 0"

definition work_left :: "('a, 'r) throttled \<Rightarrow> nat" where
  "work_left s = sum_list (map (\<lambda>c. work (snd (snd c))) (calls s))"

lemma work_left_update:
  assumes "i < length (calls s)"
  shows "work_left (s\<lparr>calls := (calls s)[i := (b, a, st)]\<rparr>) + work (status_of s i) = work_left s + work st"
proof -
  let ?w = "map (\<lambda>c. work (snd (snd c))) (calls s)"
  have "sum_list (?w[i := work st]) + ?w ! i = sum_list ?w + work st"
    using assms elem_le_sum_list [of i ?w] by (simp add: sum_list_update)
  then show ?thesis using assms by (simp add: work_left_def status_of_def map_update)
qed

lemma advance_works:
  assumes "can_advance f s i"
  shows "Suc (work_left (advance f i s)) = work_left s"
proof (cases rule: advance_cases [of f i s])
  case same
  obtain b a st where c: "calls s ! i = (b, a, st)" by (cases "calls s ! i")
  have i: "i < length (calls s)" using assms by (simp add: can_advance_def)
  have False
  proof (cases st)
    case Waiting
    then have "status_of (advance f i s) i = Running" using assms c i by (simp add: advance_def status_of_def)
    then show False using Waiting c by (simp add: same status_of_def)
  next
    case Running
    moreover obtain r where "f a = Some r" using Running assms c by (auto simp: can_advance_def split: option.splits)
    ultimately have "status_of (advance f i s) i = Settled r" using assms c i by (simp add: advance_def status_of_def)
    then show False using Running c by (simp add: same status_of_def)
  qed (use assms c in \<open>auto simp: can_advance_def split: option.splits\<close>)
  then show ?thesis ..
next
  case (resume b a)
  then show ?thesis using work_left_update [of i s b a Running] by (simp add: status_of_def)
next
  case (settle b a r)
  then show ?thesis using work_left_update [of i s b a "Settled r"] by (simp add: status_of_def)
qed

text \<open>What the calls were made with, and that a settled one has the outcome of its callback.\<close>

definition call_args :: "('a, 'r) throttled \<Rightarrow> 'a list" where
  "call_args s = map (\<lambda>c. fst (snd c)) (calls s)"

definition outcomes_ok :: "('a \<Rightarrow> 'r res option) \<Rightarrow> ('a, 'r) throttled \<Rightarrow> bool" where
  "outcomes_ok f s \<longleftrightarrow> (\<forall>(b, a, st) \<in> set (calls s). \<forall>r. st = Settled r \<longrightarrow> f a = Some r)"

lemma args_advance: "call_args (advance f i s) = call_args s"
  by (cases rule: advance_cases [of f i s]) (auto simp: call_args_def map_update intro!: list_update_same_conv [THEN iffD2])

lemma outcomes_advance:
  assumes "outcomes_ok f s"
  shows "outcomes_ok f (advance f i s)"
proof (cases rule: advance_cases [of f i s])
  case (resume b a)
  have "set ((calls s)[i := (b, a, Running)]) \<subseteq> insert (b, a, Running) (set (calls s))" by (rule set_update_subset_insert)
  with assms show ?thesis unfolding resume(5) by (fastforce simp: outcomes_ok_def)
next
  case (settle b a r)
  have "set ((calls s)[i := (b, a, Settled r)]) \<subseteq> insert (b, a, Settled r) (set (calls s))" by (rule set_update_subset_insert)
  with assms settle(4) show ?thesis unfolding settle(5) by (fastforce simp: outcomes_ok_def)
qed (use assms in simp)

lemma all_settled:
  assumes "outcomes_ok f s" "\<forall>i < length (calls s). is_settled (status_of s i)"
  shows "settled_results (calls s) = Some (map (\<lambda>a. the (f a)) (call_args s))"
proof -
  have "settled_results cs = Some (map (\<lambda>c. the (f (fst (snd c)))) cs)"
    if "\<forall>(b, a, st) \<in> set cs. is_settled st \<and> (\<forall>r. st = Settled r \<longrightarrow> f a = Some r)" for cs
    using that
  proof (induction cs)
    case (Cons c cs)
    obtain b a st where c: "c = (b, a, st)" by (cases c)
    then obtain r where "st = Settled r" "f a = Some r" using Cons.prems by (cases st) auto
    then show ?case using Cons c by simp
  qed simp
  moreover have "\<forall>(b, a, st) \<in> set (calls s). is_settled st \<and> (\<forall>r. st = Settled r \<longrightarrow> f a = Some r)"
    using assms by (fastforce simp: outcomes_ok_def status_of_def in_set_conv_nth)
  ultimately show ?thesis by (simp add: call_args_def)
qed

lemma some_can_advance:
  assumes "ordered limit s" "0 < limit" "\<forall>a \<in> set (call_args s). f a \<noteq> None"
    and "i < length (calls s)" "\<not> is_settled (status_of s i)"
  shows "\<exists>j < length (calls s). can_advance f s j"
proof -
  define P where "P = (\<lambda>j. j < length (calls s) \<and> \<not> is_settled (status_of s j))"
  define j where "j = (LEAST j. P j)"
  have j: "P j" "\<And>k. k < j \<Longrightarrow> \<not> P k" unfolding j_def by (rule LeastI [of P i], use assms P_def in simp) (rule not_less_Least)
  obtain b a st where c: "calls s ! j = (b, a, st)" by (cases "calls s ! j")
  have l: "j < length (calls s)" using j(1) by (simp add: P_def)
  have a: "f a \<noteq> None" using assms(3) c nth_mem [OF l] by (force simp: call_args_def)
  have b: "b = (if j < limit then None else Some (j - limit))" using assms(1) c l by (auto simp: ordered_def)
  have "can_advance f s j"
  proof (cases st)
    case Waiting
    then have "limit \<le> j" using assms(1) c l by (force simp: ordered_def status_of_def)
    then have "is_settled (status_of s (j - limit))" using j(2) [of "j - limit"] l assms(2) by (simp add: P_def)
    then show ?thesis using Waiting c l b \<open>limit \<le> j\<close> by (simp add: can_advance_def)
  next
    case Running
    then show ?thesis using c l a by (cases b) (simp_all add: can_advance_def)
  next
    case (Settled r)
    then show ?thesis using j(1) c by (simp add: P_def status_of_def)
  qed
  with l show ?thesis by blast
qed

lemma drive_completes:
  assumes "ordered limit s" "0 < limit" "\<forall>a \<in> set (call_args s). f a \<noteq> None" "outcomes_ok f s" "work_left s \<le> length ps"
  shows "settled_results (calls (drive f ps s)) = Some (map (\<lambda>a. the (f a)) (call_args s))"
  using assms
proof (induction ps arbitrary: s)
  case Nil
  have "is_settled (status_of s i)" if "i < length (calls s)" for i
  proof -
    have "work (status_of s i) \<le> work_left s"
      using that member_le_sum_list [of "work (status_of s i)" "map (\<lambda>c. work (snd (snd c))) (calls s)"]
      by (auto simp: work_left_def status_of_def)
    then show ?thesis using Nil.prems(5) by (cases "status_of s i") simp_all
  qed
  then show ?case using all_settled Nil.prems(4) by auto
next
  case (Cons p ps)
  let ?js = "filter (can_advance f s) [0..<length (calls s)]"
  show ?case
  proof (cases ?js)
    case Nil
    then have "\<not> (\<exists>j < length (calls s). can_advance f s j)" by (auto simp: filter_empty_conv)
    then have "\<forall>i < length (calls s). is_settled (status_of s i)"
      using some_can_advance [OF Cons.prems(1-3)] by blast
    then show ?thesis using Nil all_settled [OF Cons.prems(4)] by simp
  next
    case (Cons i js)
    define k where "k = (i # js) ! (p mod length (i # js))"
    have "k \<in> set ?js" unfolding k_def Cons by (rule nth_mem) simp
    then have k: "can_advance f s k" by simp
    have "drive f (p # ps) s = drive f ps (advance f k s)" using Cons by (simp add: k_def)
    moreover have "work_left (advance f k s) \<le> length ps" using advance_works [OF k] Cons.prems(5) by simp
    ultimately show ?thesis
      using Cons.IH [of "advance f k s"] Cons.prems by (simp add: args_advance advance_ordered outcomes_advance)
  qed
qed

lemma calls_made:
  assumes "0 < limit" and t: "t = foldl (\<lambda>s a. throttled_call limit a s) (throttle limit) xs"
  shows "ordered limit t \<and> call_args t = xs \<and> outcomes_ok f t \<and> work_left t \<le> 2 * length xs"
proof -
  have "foldl (\<lambda>s a. throttled_call limit a s) s xs = foldl (throttle_step limit f) s (map Arrive xs)" for s
    by (induction xs arbitrary: s) simp_all
  then have "ordered limit t" using thr.run_inv [of limit "throttle limit" f "map Arrive xs"] assms by (simp add: throttle_ok)
  moreover have "call_args t = xs \<and> outcomes_ok f t \<and> work_left t \<le> 2 * length xs"
    unfolding t
    by (induction xs rule: rev_induct)
      (auto simp: throttle_def call_args_def outcomes_ok_def work_left_def throttled_call_def Let_def)
  ultimately show ?thesis by simp
qed

lemma foldl_sum: "foldl (\<lambda>n r. n + g r) (m :: nat) rs = m + sum_list (map g rs)"
  by (induction rs arbitrary: m) simp_all

section \<open>Properties\<close>

text \<open>
  C17: A throttled function never runs more than \<open>limit\<close> of its calls at a time, in whatever order calls arrive, start and
  settle; and calls that share a slot run in the order they were made.
\<close>

theorem throttle_limits:
  assumes "0 < limit" and s: "s = foldl (throttle_step limit f) (throttle limit) es"
  shows "card (running s) \<le> limit
    \<and> (\<forall>i j. i < j \<and> j < length (calls s) \<and> i mod limit = j mod limit \<and> status_of s j \<noteq> Waiting \<longrightarrow> is_settled (status_of s i))"
proof
  have o: "ordered limit s" using thr.run_inv [of limit "throttle limit" f es] assms by (simp add: throttle_ok)
  have "(\<lambda>i. i mod limit) ` running s \<subseteq> {..<limit}" using assms(1) by auto
  then have "card ((\<lambda>i. i mod limit) ` running s) \<le> limit" using card_mono [of "{..<limit}"] by fastforce
  then show "card (running s) \<le> limit" by (simp add: card_image [OF running_distinct [OF o assms(1)]])
  show "\<forall>i j. i < j \<and> j < length (calls s) \<and> i mod limit = j mod limit \<and> status_of s j \<noteq> Waiting \<longrightarrow> is_settled (status_of s i)"
    using slot_order [OF o assms(1)] by blast
qed

theorem throttle_limits_witness:
  "card (running (foldl (throttle_step 1 (\<lambda>a. Some (Inr a))) (throttle 1) [Arrive (5 :: nat), Arrive 6, Advance 0, Advance 1])) \<le> 1"
  using throttle_limits [of 1, OF _ refl, of "\<lambda>a. Some (Inr a)" "[Arrive (5 :: nat), Arrive 6, Advance 0, Advance 1]"] by simp

text \<open>
  The badge shows the number of lines. Whatever the chunks the files are read in and whatever the order in which the
  throttled reads go on, after two steps per file the count is complete: one line more than line feeds for every file
  that can be read and none for the others, summed over the matched files.
\<close>

lemma badge_counts_lines:
  assumes "glob dir patterns negative = Inr files" "\<forall>f \<in> set files. delivers (read f) (contents f)"
    and "2 * length files \<le> length schedule"
  shows "getFiles glob read schedule dir patterns negative =
    Some (Inr (sum_list (map (\<lambda>f. lines_of (contents f)) files), 0, length files))"
proof -
  define t :: "(string, nat) throttled" where "t = foldl (\<lambda>s f. throttled_call 10 f s) (throttle 10) files"
  have t: "ordered 10 t" "call_args t = files" "outcomes_ok (countLines read) t" "work_left t \<le> length schedule"
    using calls_made [OF _ t_def, of "countLines read"] assms(3) by simp_all
  have l: "\<exists>r. countLines read f = Some r \<and> (case r of Inl _ \<Rightarrow> 0 | Inr n \<Rightarrow> n) = lines_of (contents f)" if "f \<in> set files" for f
    using countLines_delivers [of read f "contents f"] assms(2) that by blast
  then have "\<forall>f \<in> set (call_args t). countLines read f \<noteq> None" unfolding t(2) by fastforce
  from drive_completes [OF t(1) _ this t(3,4)]
  have "settled_results (calls (drive (countLines read) schedule t)) = Some (map (\<lambda>f. the (countLines read f)) files)"
    by (simp add: t(2))
  moreover have "sum_list (map (\<lambda>f. case the (countLines read f) of Inl _ \<Rightarrow> 0 | Inr n \<Rightarrow> n) files)
      = sum_list (map (\<lambda>f. lines_of (contents f)) files)"
    by (rule arg_cong [of _ _ sum_list]) (use l in force)
  ultimately show ?thesis
    using assms(1) by (simp add: getFiles_def foldl_sum comp_def flip: t_def)
qed

end
