(* ===== verification/Vault_Base64.thy ===== *)
theory Vault_Base64
  imports JS_String "HOL-Library.Word"
begin

text \<open>
  The helpers at the top of \<^verbatim>\<open>resvault/public/background.js\<close> that turn buffers into Base64 text and
  back, over the browser's \<^verbatim>\<open>btoa\<close> and \<^verbatim>\<open>atob\<close>. Buffers are lists of 8-bit words.
\<close>

type_synonym bytes = "8 word list"

section \<open>btoa and atob\<close>

definition b64char :: "nat \<Rightarrow> char" where
  "b64char n = (if n < 26 then char_of (65 + n) else if n < 52 then char_of (71 + n)
     else if n < 62 then char_of (n - 4) else if n = 62 then CHR ''+'' else CHR ''/'')"

definition b64val :: "char \<Rightarrow> nat option" where
  "b64val c = (if 65 \<le> code c \<and> code c \<le> 90 then Some (code c - 65)
     else if 97 \<le> code c \<and> code c \<le> 122 then Some (code c - 71)
     else if is_digit c then Some (code c + 4)
     else if c = CHR ''+'' then Some 62 else if c = CHR ''/'' then Some 63 else None)"

fun b64_core :: "string \<Rightarrow> string" where
  "b64_core [] = []"
| "b64_core [a] = [b64char (code a div 4), b64char (code a mod 4 * 16)]"
| "b64_core [a, b] =
     [b64char (code a div 4), b64char (code a mod 4 * 16 + code b div 16),
      b64char (code b mod 16 * 4)]"
| "b64_core (a # b # c # s) =
     [b64char (code a div 4), b64char (code a mod 4 * 16 + code b div 16),
      b64char (code b mod 16 * 4 + code c div 64), b64char (code c mod 64)] @ b64_core s"

definition b64_pad :: "string \<Rightarrow> string" where
  "b64_pad s = (if length s mod 3 = 1 then ''=='' else if length s mod 3 = 2 then ''='' else [])"

definition btoa :: "string \<Rightarrow> string" where
  "btoa s = b64_core s @ b64_pad s"

text \<open>
  \<^verbatim>\<open>atob\<close> drops ASCII whitespace, then up to two padding characters if the length is a multiple of
  four; \<^term>\<open>None\<close> is the \<^verbatim>\<open>InvalidCharacterError\<close> it throws.
\<close>

definition ascii_ws :: "char \<Rightarrow> bool" where
  "ascii_ws c = (code c \<in> {9, 10, 12, 13, 32})"

definition strip_pad :: "string \<Rightarrow> string" where
  "strip_pad s =
     (if length s mod 4 = 0
      then (if ends_with s ''=='' then take (length s - 2) s
            else if ends_with s ''='' then take (length s - 1) s else s)
      else s)"

fun b64_decode :: "string \<Rightarrow> string option" where
  "b64_decode [] = Some []"
| "b64_decode [p] = None"
| "b64_decode [p, q] =
     (case (b64val p, b64val q) of
        (Some x, Some y) \<Rightarrow> Some [char_of (x * 4 + y div 16)] | _ \<Rightarrow> None)"
| "b64_decode [p, q, r] =
     (case (b64val p, b64val q, b64val r) of
        (Some x, Some y, Some z) \<Rightarrow>
          Some [char_of (x * 4 + y div 16), char_of (y mod 16 * 16 + z div 4)]
      | _ \<Rightarrow> None)"
| "b64_decode (p # q # r # t # s) =
     (case (b64val p, b64val q, b64val r, b64val t) of
        (Some x, Some y, Some z, Some w) \<Rightarrow>
          map_option (\<lambda>u. char_of (x * 4 + y div 16) # char_of (y mod 16 * 16 + z div 4) #
              char_of (z mod 4 * 64 + w) # u) (b64_decode s)
      | _ \<Rightarrow> None)"

definition atob :: "string \<Rightarrow> string option" where
  "atob s = b64_decode (strip_pad (filter (\<lambda>c. \<not> ascii_ws c) s))"

section \<open>The buffer helpers\<close>

definition arrayBufferToBase64 :: "bytes \<Rightarrow> string" where
  "arrayBufferToBase64 buffer = btoa (map (\<lambda>b. char_of (unat b)) buffer)"

definition base64ToArrayBuffer :: "string \<Rightarrow> bytes option" where
  "base64ToArrayBuffer base64 = map_option (map (\<lambda>c. of_nat (code c))) (atob base64)"

definition uint8ArrayToBase64 :: "bytes \<Rightarrow> string" where
  "uint8ArrayToBase64 a = arrayBufferToBase64 a"

definition base64ToUint8Array :: "string \<Rightarrow> bytes option" where
  "base64ToUint8Array base64 = base64ToArrayBuffer base64"

section \<open>Round trip\<close>

lemma b64char_code:
  "n < 64 \<Longrightarrow> code (b64char n) = (if n < 26 then 65 + n else if n < 52 then 71 + n
     else if n < 62 then n - 4 else if n = 62 then 43 else 47)"
  by (simp add: b64char_def)

lemma b64val_char [simp]: "n < 64 \<Longrightarrow> b64val (b64char n) = Some n"
proof -
  assume n: "n < 64"
  consider "n < 26" | "26 \<le> n" "n < 52" | "52 \<le> n" "n < 62" | "n = 62" | "n = 63"
    using n by linarith
  then show ?thesis
    by cases (auto simp: b64val_def is_digit_def b64char_code, simp_all add: b64char_def)
qed

lemma b64char_plain: "n < 64 \<Longrightarrow> \<not> ascii_ws (b64char n) \<and> b64char n \<noteq> CHR ''=''"
proof -
  assume n: "n < 64"
  then have "code (b64char n) \<notin> {9, 10, 12, 13, 32} \<and> code (b64char n) \<noteq> 61"
    by (auto simp: b64char_code)
  then show ?thesis by (auto simp: ascii_ws_def)
qed

lemma pack:
  fixes a b n :: nat
  assumes "b < n"
  shows "(a * n + b) div n = a" "(a * n + b) mod n = b"
  using assms by simp_all

lemma nibbles:
  fixes x :: nat
  assumes "x < 256"
  shows "x div 4 < 64" "x mod 4 < 4" "x div 16 < 16" "x mod 16 < 16" "x div 64 < 4" "x mod 64 < 64"
  using assms by auto

lemma nibble_bounds:
  fixes x y :: nat
  assumes "x < 256" "y < 256"
  shows "x div 4 < 64" "x mod 4 * 16 < 64" "x mod 4 * 16 + y div 16 < 64"
    "x mod 16 * 4 < 64" "x mod 16 * 4 + y div 64 < 64" "x mod 64 < 64"
  using nibbles [OF assms(1)] nibbles [OF assms(2)] by linarith+

lemma nibble_inverse:
  fixes x y z :: nat
  assumes "x < 256" "y < 256" "z < 256"
  shows "x div 4 * 4 + x mod 4 * 16 div 16 = x"
    "x div 4 * 4 + (x mod 4 * 16 + y div 16) div 16 = x"
    "(x mod 4 * 16 + y div 16) mod 16 * 16 + (y mod 16 * 4) div 4 = y"
    "(x mod 4 * 16 + y div 16) mod 16 * 16 + (y mod 16 * 4 + z div 64) div 4 = y"
    "(y mod 16 * 4 + z div 64) mod 4 * 64 + z mod 64 = z"
  using assms by (simp_all only: pack nibbles div_mult_mod_eq nonzero_mult_div_cancel_right)

lemmas code_bounds = nibble_bounds [OF code_less code_less]

lemmas code_inverse = nibble_inverse [OF code_less code_less code_less]

lemma b64_core_plain: "\<forall>c \<in> set (b64_core s). \<not> ascii_ws c \<and> c \<noteq> CHR ''=''"
  by (induction s rule: b64_core.induct)
    (simp_all only: b64_core.simps list.set Un_iff set_append ball_simps ball_Un b64char_plain
      code_bounds simp_thms)

lemma b64_decode_core: "b64_decode (b64_core s) = Some s"
  by (induction s rule: b64_core.induct) (simp_all only: b64_core.simps b64_decode.simps b64val_char code_bounds option.case prod.case
      code_inverse append_Cons append_Nil char_of_char option.map)

lemma length_b64_core:
  "length (b64_core s) = 4 * (length s div 3) + (if length s mod 3 = 0 then 0 else length s mod 3 + 1)"
  by (induction s rule: b64_core.induct) simp_all

lemma ends_with_suffix: "ends_with s p \<longleftrightarrow> suffix p s"
  by (simp add: ends_with_def starts_with_prefix suffix_to_prefix)

lemma length_btoa: "length (b64_core s @ b64_pad s) = 4 * ((length s + 2) div 3)"
proof -
  obtain q r where n: "length s = r + q * 3" "r < 3"
    by (metis mod_div_mult_eq mod_less_divisor zero_less_numeral)
  then have l: "length s div 3 = q" "length s mod 3 = r" by simp_all
  consider "r = 0" | "r = 1" | "r = 2" using n(2) by linarith
  then show ?thesis
    by cases (simp_all add: length_b64_core b64_pad_def l, simp_all add: n)
qed

lemma strip_pad_btoa: "strip_pad (b64_core s @ b64_pad s) = b64_core s"
proof -
  have n: "CHR ''='' \<notin> set (b64_core s)" using b64_core_plain [of s] by blast
  then have "\<not> suffix ''='' (b64_core s)" "\<not> suffix ''=='' (b64_core s)"
    "\<not> suffix ''=='' (b64_core s @ ''='')"
    by (auto simp: suffix_def append_eq_append_conv2 append_eq_Cons_conv)
  moreover have "suffix ''=='' (b64_core s @ ''=='')" "suffix ''='' (b64_core s @ ''='')"
    by (simp_all add: suffix_def)
  moreover have "length (b64_core s @ b64_pad s) mod 4 = 0" by (simp only: length_btoa) simp
  ultimately show ?thesis
    by (simp add: strip_pad_def b64_pad_def ends_with_suffix split: if_splits)
qed

lemma atob_btoa: "atob (btoa s) = Some s"
proof -
  have "filter (\<lambda>c. \<not> ascii_ws c) (btoa s) = b64_core s @ b64_pad s"
    unfolding btoa_def using b64_core_plain [of s]
    by (simp add: filter_True) (simp add: b64_pad_def ascii_ws_def)
  then show ?thesis by (simp add: atob_def strip_pad_btoa b64_decode_core)
qed

interpretation b64: codec btoa atob "\<lambda>_. True"
  by unfold_locales (rule atob_btoa)

lemma base64_roundtrip_bytes: "base64ToArrayBuffer (arrayBufferToBase64 bs) = Some bs"
proof -
  have "of_nat (code (char_of (unat b))) = b" for b :: "8 word"
    using take_bit_word_eq_self [of 8 b] by (simp add: unsigned_take_bit_eq [symmetric] flip: take_bit_eq_mod [of 8, simplified])
  then show ?thesis
    by (simp add: base64ToArrayBuffer_def arrayBufferToBase64_def b64.dec_enc o_def map_idI)
qed

interpretation buf: codec arrayBufferToBase64 base64ToArrayBuffer "\<lambda>_. True"
  by unfold_locales (rule base64_roundtrip_bytes)

section \<open>Properties\<close>

text \<open>
  C28: Decoding the Base64 text of any buffer gives the buffer back, so different buffers have different
  texts; the text is made of alphabet characters and padding, four characters per started group of
  three bytes.
\<close>

theorem base64_roundtrip:
  "base64ToArrayBuffer (arrayBufferToBase64 bs) = Some bs
   \<and> (arrayBufferToBase64 bs = arrayBufferToBase64 cs \<longrightarrow> bs = cs)
   \<and> length (arrayBufferToBase64 bs) = 4 * ((length bs + 2) div 3)"
proof -
  have "length (arrayBufferToBase64 bs) = 4 * ((length bs + 2) div 3)"
    by (simp only: arrayBufferToBase64_def btoa_def length_btoa length_map)
  then show ?thesis
    using buf.dec_enc [of bs] buf.enc_inj [of bs cs] by simp
qed

theorem base64_roundtrip_witness:
  "base64ToArrayBuffer (arrayBufferToBase64 [77, 97, 110, 1]) = Some [77, 97, 110, 1]
   \<and> length (arrayBufferToBase64 [77, 97, 110, 1]) = 8"
  using base64_roundtrip [of "[77, 97, 110, 1]" "[77, 97, 110, 1]"] by simp

end
