(* ===== verification/Vault_Crypto.thy ===== *)
theory Vault_Crypto
  imports Vault_Base64 JS_Number
begin

text \<open>
  The remaining helpers of \<^verbatim>\<open>resvault/public/background.js\<close>: encryption and decryption of a stored value,
  the host name of a page, escaping for GraphQL string literals, and version 4 UUIDs.

  The browser's own services are the fields of \<open>web\<close>: AES-GCM and key export of
  \<^verbatim>\<open>crypto.subtle\<close>, \<^verbatim>\<open>TextEncoder\<close> and \<^verbatim>\<open>TextDecoder\<close>, and the host name of a parsed \<^verbatim>\<open>URL\<close>.
  \<open>web_ok\<close> says what is relied on: decryption undoes encryption under the same key and initialisation
  vector, importing undoes exporting, decoding undoes encoding.
\<close>

record ('k, 'j) web =
  aes_encrypt :: "'k \<Rightarrow> bytes \<Rightarrow> bytes \<Rightarrow> bytes res"
  aes_decrypt :: "'k \<Rightarrow> bytes \<Rightarrow> bytes \<Rightarrow> bytes res"
  export_key :: "'k \<Rightarrow> 'j res"
  import_key :: "'j \<Rightarrow> 'k res"
  text_encode :: "string \<Rightarrow> bytes"
  text_decode :: "bytes \<Rightarrow> string"
  url_hostname :: "string \<Rightarrow> string option"

definition web_ok :: "('k, 'j) web \<Rightarrow> bool" where
  "web_ok W \<longleftrightarrow>
     (\<forall>k iv m c. aes_encrypt W k iv m = Inr c \<longrightarrow> aes_decrypt W k iv c = Inr m)
   \<and> (\<forall>k j. export_key W k = Inr j \<longrightarrow> import_key W j = Inr k)
   \<and> (\<forall>s. text_decode W (text_encode W s) = s)"

section \<open>Encryption of stored values\<close>

record enc =
  ciphertext :: string
  iv :: string

text \<open>The initialisation vector drawn by \<^verbatim>\<open>getRandomValues\<close> is the argument \<open>v\<close>.\<close>

definition encryptData :: "('k, 'j) web \<Rightarrow> bytes \<Rightarrow> string \<Rightarrow> 'k \<Rightarrow> enc res" where
  "encryptData W v data key =
     bind_res (aes_encrypt W key v (text_encode W data)) (\<lambda>encrypted.
       Inr \<lparr>ciphertext = arrayBufferToBase64 encrypted, iv = uint8ArrayToBase64 v\<rparr>)"

definition of_base64 :: "bytes option \<Rightarrow> bytes res" where
  "of_base64 b = (case b of None \<Rightarrow> Inl (Error ''InvalidCharacterError'') | Some bs \<Rightarrow> Inr bs)"

definition decryptData :: "('k, 'j) web \<Rightarrow> string \<Rightarrow> string \<Rightarrow> 'k \<Rightarrow> string res" where
  "decryptData W ciphertextBase64 ivBase64 key =
     bind_res (of_base64 (base64ToArrayBuffer ciphertextBase64)) (\<lambda>c.
     bind_res (of_base64 (base64ToUint8Array ivBase64)) (\<lambda>v.
     bind_res (aes_decrypt W key v c) (\<lambda>decrypted.
       Inr (text_decode W decrypted))))"

lemma decrypt_encrypt:
  assumes "web_ok W" "encryptData W v s k = Inr e"
  shows "decryptData W (ciphertext e) (iv e) k = Inr s"
proof -
  obtain c where c: "aes_encrypt W k v (text_encode W s) = Inr c"
      "e = \<lparr>ciphertext = arrayBufferToBase64 c, iv = uint8ArrayToBase64 v\<rparr>"
    using assms(2) by (auto simp: encryptData_def bind_res_Inr_iff)
  moreover have "aes_decrypt W k v c = Inr (text_encode W s)" "text_decode W (text_encode W s) = s"
    using assms(1) c(1) by (auto simp: web_ok_def)
  ultimately show ?thesis
    by (simp add: decryptData_def of_base64_def base64_roundtrip_bytes uint8ArrayToBase64_def
        base64ToUint8Array_def)
qed

section \<open>Host names\<close>

definition getBaseDomain :: "('k, 'j) web \<Rightarrow> string \<Rightarrow> string" where
  "getBaseDomain W url = (case url_hostname W url of Some h \<Rightarrow> h | None \<Rightarrow> [])"

section \<open>GraphQL string literals\<close>

text \<open>\<^verbatim>\<open>str.replace(/c/g, r)\<close> for a one-character pattern.\<close>

definition replace_char :: "char \<Rightarrow> string \<Rightarrow> string \<Rightarrow> string" where
  "replace_char c r s = concat (map (\<lambda>d. if d = c then r else [d]) s)"

definition escape_string :: "string \<Rightarrow> string" where
  "escape_string s =
     replace_char dquote [backslash, dquote] (replace_char backslash [backslash, backslash] s)"

fun escapeGraphQLString :: "jv \<Rightarrow> string" where
  "escapeGraphQLString (Str s) = escape_string s"
| "escapeGraphQLString _ = []"

text \<open>
  The lexer of the GraphQL specification on the body of a quoted string: it ends at the first quote
  that no backslash escapes and may not contain a line terminator. Of the escapes, the two that
  \<^const>\<open>escape_string\<close> produces are kept; any other is refused here.
\<close>

fun gql_string :: "string \<Rightarrow> (string \<times> string) option" where
  "gql_string [] = None"
| "gql_string (c # s) =
     (if c = dquote then Some ([], s)
      else if c = backslash then
        (case s of
           [] \<Rightarrow> None
         | d # t \<Rightarrow> if d = dquote \<or> d = backslash
                    then map_option (\<lambda>(u, r). (d # u, r)) (gql_string t) else None)
      else if code c = 10 \<or> code c = 13 then None
      else map_option (\<lambda>(u, r). (c # u, r)) (gql_string s))"

lemma escape_simps:
  "escape_string [] = []"
  "escape_string (c # s) =
     (if c = dquote then [backslash, dquote] else if c = backslash then [backslash, backslash] else [c])
     @ escape_string s"
  by (auto simp: escape_string_def replace_char_def char_defs)

lemma gql_string_escape:
  "\<forall>c \<in> set s. code c \<noteq> 10 \<and> code c \<noteq> 13 \<Longrightarrow>
   gql_string (escape_string s @ dquote # rest) = Some (s, rest)"
  by (induction s) (auto simp: escape_simps char_defs)

section \<open>UUIDs\<close>

text \<open>
  The template text is the string \<^verbatim>\<open>[1e7] + -1e3 + -4e3 + -8e3 + -1e11\<close> evaluates to. Each of its
  characters 0, 1 and 8 is replaced, drawing one random byte: \<^verbatim>\<open>c ^ (byte & (15 >> c / 4))\<close> in
  hexadecimal, where the shift count \<^verbatim>\<open>c / 4\<close> is truncated.
\<close>

definition hex_digit :: "nat \<Rightarrow> char" where
  "hex_digit n = (if n < 10 then char_of (48 + n) else char_of (87 + n))"

definition uuid_template :: string where
  "uuid_template = ''10000000-1000-4000-8000-100000000000''"

unbundle bit_operations_syntax

definition uuid_digit :: "nat \<Rightarrow> 8 word \<Rightarrow> char" where
  "uuid_digit c byte =
     hex_digit (unat (of_nat c XOR (byte AND drop_bit (c div 4) (15 :: 8 word))))"

text \<open>\<open>rnd i\<close> is the byte of the i-th call to \<^verbatim>\<open>getRandomValues\<close>.\<close>

fun fill_uuid :: "string \<Rightarrow> (nat \<Rightarrow> 8 word) \<Rightarrow> nat \<Rightarrow> string" where
  "fill_uuid [] rnd i = []"
| "fill_uuid (c # s) rnd i =
     (if c = CHR ''0'' \<or> c = CHR ''1'' \<or> c = CHR ''8''
      then uuid_digit (code c - 48) (rnd i) # fill_uuid s rnd (Suc i)
      else c # fill_uuid s rnd i)"

definition generateUUID :: "(nat \<Rightarrow> 8 word) \<Rightarrow> string" where
  "generateUUID rnd = fill_uuid uuid_template rnd 0"

text \<open>\<^verbatim>\<open>s.replace(/[^a-zA-Z0-9]/g, '')\<close>\<close>

definition is_alnum :: "char \<Rightarrow> bool" where
  "is_alnum c = (is_digit c \<or> 65 \<le> code c \<and> code c \<le> 90 \<or> 97 \<le> code c \<and> code c \<le> 122)"

definition only_alnum :: "string \<Rightarrow> string" where
  "only_alnum s = filter is_alnum s"

definition lower_hex :: "char \<Rightarrow> bool" where
  "lower_hex c = (is_digit c \<or> 97 \<le> code c \<and> code c \<le> 102)"

lemma hex_digit_lower: "n < 16 \<Longrightarrow> lower_hex (hex_digit n)"
  by (auto simp: hex_digit_def lower_hex_def is_digit_def)

lemma lower_hex_alnum: "lower_hex c \<Longrightarrow> is_alnum c"
  by (auto simp: lower_hex_def is_alnum_def)

lemma and_15_cases:
  fixes b :: "8 word"
  shows "unat (b AND 15) < 16" and "unat (b AND 3) < 4"
proof -
  have "b AND 15 = take_bit 4 b" "b AND 3 = take_bit 2 b"
    by (simp_all add: take_bit_eq_mask mask_eq_exp_minus_1)
  then show "unat (b AND 15) < 16" "unat (b AND 3) < 4"
    by (simp_all only: unsigned_take_bit_eq, simp_all add: take_bit_eq_mod)
qed

lemma uuid_digit_8: "uuid_digit 8 b \<in> set ''89ab''"
proof -
  define n where "n = unat (b AND 3)"
  have b: "b AND 3 = of_nat n" by (simp add: n_def)
  have "n = 0 \<or> n = 1 \<or> n = 2 \<or> n = 3" using and_15_cases(2) [of b] by (auto simp: n_def)
  then show ?thesis
    by (elim disjE) (simp_all add: uuid_digit_def b hex_digit_def char_of_def bit_0)
qed

lemma uuid_digit_low: "c = 0 \<or> c = 1 \<Longrightarrow> lower_hex (uuid_digit c b)"
proof -
  assume c: "c = 0 \<or> c = 1"
  define n where "n = unat (b AND 15)"
  have b: "b AND 15 = of_nat n" by (simp add: n_def)
  have n: "n < 16" using and_15_cases(1) [of b] by (simp add: n_def)
  have "unat (1 XOR (of_nat n :: 8 word)) < 16"
  proof -
    have "n \<in> set [0..<16]" using n by simp
    then show ?thesis by (simp add: upt_rec) (elim disjE, simp_all)
  qed
  moreover have "unat (of_nat n :: 8 word) = n" by (simp add: n_def)
  ultimately show ?thesis using c n by (auto simp: uuid_digit_def b intro!: hex_digit_lower)
qed

definition uuid_pos :: "char \<Rightarrow> char \<Rightarrow> bool" where
  "uuid_pos c d = (if c = CHR ''0'' \<or> c = CHR ''1'' then lower_hex d
     else if c = CHR ''8'' then d \<in> set ''89ab'' else d = c)"

lemma fill_uuid_pos: "list_all2 uuid_pos s (fill_uuid s rnd i)"
proof (induction s arbitrary: i)
  case (Cons c s)
  have "lower_hex (uuid_digit 0 b)" "lower_hex (uuid_digit (Suc 0) b)" for b
    by (simp_all add: uuid_digit_low)
  moreover have "uuid_digit 8 b \<in> set ''89ab''" for b by (rule uuid_digit_8)
  ultimately show ?case using Cons by (auto simp: uuid_pos_def simp del: set_simps)
qed simp

lemma uuid_pos_alnum: "uuid_pos c d \<Longrightarrow> is_alnum d = is_alnum c"
  by (auto simp: uuid_pos_def lower_hex_alnum split: if_splits)
    (auto simp: is_alnum_def is_digit_def)

lemma length_only_alnum:
  "list_all2 uuid_pos s t \<Longrightarrow> length (only_alnum t) = length (only_alnum s)"
  by (induction rule: list_all2_induct) (auto simp: only_alnum_def uuid_pos_alnum)

section \<open>Properties\<close>

text \<open>
  C33: A generated identifier is a version 4 UUID whatever bytes are drawn: 36 characters, hyphens at
  positions 8, 13, 18 and 23, the version digit 4, a variant digit among 8, 9, a and b, lower-case
  hexadecimal digits elsewhere; without the hyphens it is 32 alphanumeric characters.
\<close>

theorem generateUUID_v4:
  "length (generateUUID rnd) = 36
   \<and> (\<forall>i < 36. if i = 8 \<or> i = 13 \<or> i = 18 \<or> i = 23 then generateUUID rnd ! i = CHR ''-''
               else lower_hex (generateUUID rnd ! i))
   \<and> generateUUID rnd ! 14 = CHR ''4''
   \<and> generateUUID rnd ! 19 \<in> set ''89ab''
   \<and> length (only_alnum (generateUUID rnd)) = 32"
proof -
  let ?g = "generateUUID rnd"
  have l: "list_all2 uuid_pos uuid_template ?g"
    by (simp add: generateUUID_def fill_uuid_pos)
  have n: "length uuid_template = 36" "length (only_alnum uuid_template) = 32"
    by (simp_all add: uuid_template_def only_alnum_def is_alnum_def is_digit_def)
  have p: "uuid_pos (uuid_template ! i) (?g ! i)" if "i < 36" for i
    using l that n by (simp add: list_all2_conv_all_nth)
  have "if i = 8 \<or> i = 13 \<or> i = 18 \<or> i = 23 then ?g ! i = CHR ''-'' else lower_hex (?g ! i)"
    if "i < 36" for i
  proof -
    have "i \<in> set [0..<36]" using that by simp
    then show ?thesis using p [OF that]
      by (auto simp: upt_rec uuid_template_def uuid_pos_def lower_hex_def is_digit_def)
  qed
  moreover have "?g ! 14 = CHR ''4''" "?g ! 19 \<in> set ''89ab''"
    using p [of 14] p [of 19] by (simp_all add: uuid_template_def uuid_pos_def)
  moreover have "length ?g = 36" "length (only_alnum ?g) = 32"
    using list_all2_lengthD [OF l] length_only_alnum [OF l] n by simp_all
  ultimately show ?thesis by blast
qed

theorem generateUUID_v4_witness:
  "generateUUID (\<lambda>_. 255) = ''efffffff-efff-4fff-bfff-efffffffffff''
   \<and> generateUUID (\<lambda>_. 255) ! 19 \<in> set ''89ab''"
proof -
  have "generateUUID (\<lambda>_. 255) = ''efffffff-efff-4fff-bfff-efffffffffff''"
    by (simp add: generateUUID_def uuid_template_def uuid_digit_def hex_digit_def char_of_def bit_0)
  with generateUUID_v4 [of "\<lambda>_. 255"] show ?thesis by blast
qed



end
