(* ===== verification/Vault_Background.thy ===== *)
theory Vault_Background
  imports Vault_Crypto
begin

text \<open>
  The service worker of the ResVault extension, \<^verbatim>\<open>resvault/public/background.js\<close>: the stored keys per
  host name and net, and one handler per message. A handler returns the value it passes to
  \<^verbatim>\<open>sendResponse\<close>; the ones that talk to a node thread the list of requests sent so far, on which the
  reply of the network may depend. Request bodies are the values given to \<^verbatim>\<open>JSON.stringify\<close>.
\<close>

section \<open>Storage\<close>

record 'j entry =
  publicKey :: enc
  privateKey :: enc
  url :: enc
  exportedKey :: 'j

record 'j storage =
  keys :: "(string, (string, 'j entry) omap) omap"
  connectedNets :: "(string, string) omap"
  faviconUrls :: "(string, string) omap"

definition key_entry :: "'j storage \<Rightarrow> string \<Rightarrow> string \<Rightarrow> 'j entry option" where
  "key_entry st d n = (case map_of (keys st) d of None \<Rightarrow> None | Some m \<Rightarrow> map_of m n)"

definition failure :: "string \<Rightarrow> jv" where
  "failure m = Obj [(''success'', Bool False), (''error'', Str m)]"

definition success :: jv where
  "success = Obj [(''success'', Bool True)]"

section \<open>Storing and removing keys\<close>

text \<open>
  Every handler that writes first reads the storage and then writes what it computed from that copy:
  the callbacks below are the part between the two.
\<close>

definition storeKeys_cb :: "string \<Rightarrow> string \<Rightarrow> 'j entry \<Rightarrow> 'j storage \<Rightarrow> 'j storage" where
  "storeKeys_cb domain net e st =
     (let m = (case map_of (keys st) domain of None \<Rightarrow> [] | Some m \<Rightarrow> m)
      in st\<lparr>keys := oset domain (oset net e m) (keys st),
            connectedNets := oset domain net (connectedNets st)\<rparr>)"

definition disconnectKeys_cb :: "string \<Rightarrow> string \<Rightarrow> 'j storage \<Rightarrow> 'j storage option" where
  "disconnectKeys_cb domain net st =
     (case map_of (keys st) domain of
        None \<Rightarrow> None
      | Some m \<Rightarrow>
          if map_of m net = None then None
          else (let m' = odel net m;
                    ks = (if m' = [] then odel domain (keys st) else oset domain m' (keys st));
                    cs = (if map_of (connectedNets st) domain = Some net
                          then odel domain (connectedNets st) else connectedNets st)
                in Some (st\<lparr>keys := ks, connectedNets := cs\<rparr>)))"

definition updateFavicon_cb :: "string \<Rightarrow> string \<Rightarrow> 'j storage \<Rightarrow> 'j storage" where
  "updateFavicon_cb domain icon st = st\<lparr>faviconUrls := oset domain icon (faviconUrls st)\<rparr>"

text \<open>
  \<open>key\<close> is the outcome of \<^verbatim>\<open>generateKey\<close>, \<open>v1\<close> to \<open>v3\<close> the initialisation vectors.
\<close>

definition seal_entry :: "('k, 'j) web \<Rightarrow> 'k res \<Rightarrow> bytes \<times> bytes \<times> bytes \<Rightarrow>
    string \<Rightarrow> string \<Rightarrow> string \<Rightarrow> 'j entry res" where
  "seal_entry W key vs pk sk u =
     (case vs of (v1, v2, v3) \<Rightarrow>
      bind_res key (\<lambda>k.
      bind_res (encryptData W v1 pk k) (\<lambda>epk.
      bind_res (encryptData W v2 sk k) (\<lambda>esk.
      bind_res (encryptData W v3 u k) (\<lambda>eu.
      bind_res (export_key W k) (\<lambda>j.
        Inr \<lparr>publicKey = epk, privateKey = esk, url = eu, exportedKey = j\<rparr>))))))"

definition storeKeys :: "('k, 'j) web \<Rightarrow> 'k res \<Rightarrow> bytes \<times> bytes \<times> bytes \<Rightarrow> string \<Rightarrow> string \<Rightarrow>
    string \<Rightarrow> string \<Rightarrow> string \<Rightarrow> 'j storage \<Rightarrow> jv \<times> 'j storage" where
  "storeKeys W key vs domain net pk sk u st =
     (case seal_entry W key vs pk sk u of
        Inl e \<Rightarrow> (failure (err_message e), st)
      | Inr en \<Rightarrow> (success, storeKeys_cb domain net en st))"

definition disconnectKeys :: "string \<Rightarrow> string \<Rightarrow> 'j storage \<Rightarrow> jv \<times> 'j storage" where
  "disconnectKeys domain net st =
     (case disconnectKeys_cb domain net st of
        Some st' \<Rightarrow> (success, st')
      | None \<Rightarrow> (failure ''No keys found to disconnect'', st))"

text \<open>A tab update: the status, the address and the icon of the tab.\<close>

definition updateFaviconUrl :: "('k, 'j) web \<Rightarrow> string \<Rightarrow> string option \<Rightarrow> string option \<Rightarrow>
    'j storage \<Rightarrow> 'j storage" where
  "updateFaviconUrl W status tab_url favIconUrl st =
     (case (tab_url, favIconUrl) of
        (Some u, Some icon) \<Rightarrow>
          if status = ''complete'' \<and> u \<noteq> [] \<and> getBaseDomain W u \<noteq> [] \<and> icon \<noteq> []
          then updateFavicon_cb (getBaseDomain W u) icon st else st
      | _ \<Rightarrow> st)"

section \<open>Reading\<close>

definition unlock :: "('k, 'j) web \<Rightarrow> 'j entry \<Rightarrow> (string \<times> string \<times> string) res" where
  "unlock W e =
     bind_res (import_key W (exportedKey e)) (\<lambda>k.
     bind_res (decryptData W (ciphertext (publicKey e)) (iv (publicKey e)) k) (\<lambda>pk.
     bind_res (decryptData W (ciphertext (privateKey e)) (iv (privateKey e)) k) (\<lambda>sk.
     bind_res (decryptData W (ciphertext (url e)) (iv (url e)) k) (\<lambda>u.
       Inr (pk, sk, u)))))"

definition unlock_url :: "('k, 'j) web \<Rightarrow> 'j entry \<Rightarrow> string res" where
  "unlock_url W e =
     bind_res (import_key W (exportedKey e)) (\<lambda>k.
       decryptData W (ciphertext (url e)) (iv (url e)) k)"

definition requestData :: "('k, 'j) web \<Rightarrow> string \<Rightarrow> string \<Rightarrow> 'j storage \<Rightarrow> jv" where
  "requestData W domain net st =
     (let icon = (case map_of (faviconUrls st) domain of None \<Rightarrow> [] | Some f \<Rightarrow> f)
      in case key_entry st domain net of
           None \<Rightarrow> Obj [(''error'', Str ''No keys found for domain and net''), (''faviconUrl'', Str icon)]
         | Some e \<Rightarrow>
             (case unlock W e of
                Inl _ \<Rightarrow> Obj [(''error'', Str ''Failed to decrypt data''), (''faviconUrl'', Str icon)]
              | Inr (pk, sk, u) \<Rightarrow>
                  Obj [(''publicKey'', Str pk), (''privateKey'', Str sk), (''url'', Str u),
                       (''faviconUrl'', Str icon)]))"

definition getConnectedNet :: "string \<Rightarrow> 'j storage \<Rightarrow> jv" where
  "getConnectedNet domain st =
     (case map_of (connectedNets st) domain of
        Some (c # n) \<Rightarrow> Obj [(''net'', Str (c # n))]
      | _ \<Rightarrow> Obj [(''error'', Str ''No connected net for domain'')])"

section \<open>Handlers in any interleaving\<close>

text \<open>
  Storage is read and written asynchronously, so between the read and the write of one handler other
  handlers may write. A step of the worker either starts a handler, which takes a copy of the storage,
  or finishes a pending one, which writes the fields it computed from its copy.
\<close>

datatype 'j update = Store string string "'j entry" | Disconnect string string | Favicon string string

record 'j worker =
  store :: "'j storage"
  pending :: "('j update \<times> 'j storage) list"

fun commit :: "'j update \<Rightarrow> 'j storage \<Rightarrow> 'j storage \<Rightarrow> 'j storage" where
  "commit (Store d n e) copy st =
     (let r = storeKeys_cb d n e copy in st\<lparr>keys := keys r, connectedNets := connectedNets r\<rparr>)"
| "commit (Disconnect d n) copy st =
     (case disconnectKeys_cb d n copy of
        None \<Rightarrow> st
      | Some r \<Rightarrow> st\<lparr>keys := keys r, connectedNets := connectedNets r\<rparr>)"
| "commit (Favicon d i) copy st =
     st\<lparr>faviconUrls := faviconUrls (updateFavicon_cb d i copy)\<rparr>"

inductive vault_step :: "'j worker \<Rightarrow> 'j worker \<Rightarrow> bool" where
  begin_op: "vault_step w (w\<lparr>pending := pending w @ [(a, store w)]\<rparr>)"
| end_op: "pending w = ps @ (a, copy) # qs \<Longrightarrow>
     vault_step w \<lparr>store = commit a copy (store w), pending = ps @ qs\<rparr>"

inductive_cases vault_stepE: "vault_step w w'"

definition fresh_worker :: "'j worker" where
  "fresh_worker = \<lparr>store = \<lparr>keys = [], connectedNets = [], faviconUrls = []\<rparr>, pending = []\<rparr>"

text \<open>
  The storage invariant: object keys are distinct, no host name has an empty table, and the net a host
  name is connected to has an entry.
\<close>

definition vault_ok :: "'j storage \<Rightarrow> bool" where
  "vault_ok st \<longleftrightarrow>
     owf (keys st) \<and> owf (connectedNets st)
     \<and> (\<forall>d m. map_of (keys st) d = Some m \<longrightarrow> owf m \<and> m \<noteq> [])
     \<and> (\<forall>d n. map_of (connectedNets st) d = Some n \<longrightarrow> key_entry st d n \<noteq> None)"

section \<open>Lemmas\<close>

lemma key_entry_cong: "keys st = keys st' \<Longrightarrow> key_entry st = key_entry st'"
  by (simp add: key_entry_def fun_eq_iff)

lemma vault_ok_cong:
  "keys st = keys st' \<Longrightarrow> connectedNets st = connectedNets st' \<Longrightarrow> vault_ok st = vault_ok st'"
  unfolding vault_ok_def by (metis key_entry_cong)

lemma key_entry_store:
  "key_entry (storeKeys_cb d n e st) a b = (if a = d \<and> b = n then Some e else key_entry st a b)"
  by (auto simp: key_entry_def storeKeys_cb_def Let_def split: option.splits)

lemma connected_store:
  "map_of (connectedNets (storeKeys_cb d n e st)) = (map_of (connectedNets st))(d \<mapsto> n)"
  by (simp add: storeKeys_cb_def Let_def)

lemma odel_empty_other: "odel n m = [] \<Longrightarrow> b \<noteq> n \<Longrightarrow> map_of m b = None"
  by (metis domIff odel_empty_iff)

lemma key_entry_disconnect:
  assumes "disconnectKeys_cb d n st = Some st'"
  shows "key_entry st' a b = (if a = d \<and> b = n then None else key_entry st a b)"
  using assms
  by (auto simp: key_entry_def disconnectKeys_cb_def Let_def odel_empty_other
      split: option.splits if_splits)

lemma connected_disconnect:
  assumes "disconnectKeys_cb d n st = Some st'"
  shows "map_of (connectedNets st') a =
    (if a = d \<and> map_of (connectedNets st) d = Some n then None else map_of (connectedNets st) a)"
  using assms
  by (auto simp: disconnectKeys_cb_def Let_def split: option.splits if_splits)

lemma disconnect_None: "disconnectKeys_cb d n st = None \<longleftrightarrow> key_entry st d n = None"
  by (auto simp: disconnectKeys_cb_def key_entry_def Let_def split: option.splits)

lemma oset_ne [simp]: "oset k v m \<noteq> []"
  by (cases m) (auto split: prod.splits if_splits)

lemma tables_ok:
  "vault_ok st \<Longrightarrow> map_of (keys st) d = Some m \<Longrightarrow> owf m \<and> m \<noteq> []"
  by (simp add: vault_ok_def)

lemma storeKeys_cb_ok:
  assumes "vault_ok st"
  shows "vault_ok (storeKeys_cb d n e st)"
proof -
  have "owf m \<and> m \<noteq> []" if "map_of (keys (storeKeys_cb d n e st)) a = Some m" for a m
  proof (cases "a = d")
    case True
    with that tables_ok [OF assms, of d] show ?thesis
      by (cases "map_of (keys st) d") (auto simp: storeKeys_cb_def simp del: oset.simps)
  next
    case False
    with that tables_ok [OF assms, of a] show ?thesis by (simp add: storeKeys_cb_def Let_def)
  qed
  then show ?thesis
    using assms
    by (auto simp: vault_ok_def key_entry_store connected_store)
      (auto simp: storeKeys_cb_def Let_def)
qed

lemma disconnectKeys_cb_ok:
  assumes "vault_ok st" and d: "disconnectKeys_cb d n st = Some st'"
  shows "vault_ok st'"
proof -
  have "owf m \<and> m \<noteq> []" if "map_of (keys st') a = Some m" for a m
    using d that tables_ok [OF assms(1), of a] tables_ok [OF assms(1), of d]
    by (cases "a = d")
      (auto simp: disconnectKeys_cb_def Let_def split: if_splits option.splits)
  moreover have "owf (keys st')" "owf (connectedNets st')"
    using assms
    by (auto simp: disconnectKeys_cb_def vault_ok_def Let_def split: if_splits option.splits)
  ultimately show ?thesis
    using assms(1) by (auto simp: vault_ok_def key_entry_disconnect [OF d] connected_disconnect [OF d])
qed

lemma commit_ok: "vault_ok copy \<Longrightarrow> vault_ok st \<Longrightarrow> vault_ok (commit a copy st)"
proof (cases a)
  case (Store d n e)
  assume "vault_ok copy"
  then have "vault_ok (storeKeys_cb d n e copy)" by (rule storeKeys_cb_ok)
  then show ?thesis by (subst vault_ok_cong [of _ "storeKeys_cb d n e copy"]) (simp_all add: Store Let_def)
next
  case (Disconnect d n)
  assume ok: "vault_ok copy" "vault_ok st"
  show ?thesis
  proof (cases "disconnectKeys_cb d n copy")
    case (Some r)
    then have "vault_ok r" using ok(1) disconnectKeys_cb_ok by blast
    then show ?thesis by (subst vault_ok_cong [of _ r]) (simp_all add: Disconnect Some)
  qed (simp add: Disconnect ok)
next
  case (Favicon d i)
  assume "vault_ok st"
  then show ?thesis by (subst vault_ok_cong [of _ st]) (simp_all add: Favicon)
qed

definition worker_ok :: "'j worker \<Rightarrow> bool" where
  "worker_ok w \<longleftrightarrow> vault_ok (store w) \<and> (\<forall>(a, copy) \<in> set (pending w). vault_ok copy)"

lemma vault_step_ok: "vault_step w w' \<Longrightarrow> worker_ok w \<Longrightarrow> worker_ok w'"
  by (induction rule: vault_step.induct) (auto simp: worker_ok_def commit_ok)

lemma reachable_ok: "vault_step\<^sup>*\<^sup>* w w' \<Longrightarrow> worker_ok w \<Longrightarrow> worker_ok w'"
  by (induction rule: rtranclp_induct) (auto intro: vault_step_ok)

lemma fresh_ok: "worker_ok fresh_worker"
  by (simp add: worker_ok_def fresh_worker_def vault_ok_def)

lemma unlock_sealed:
  assumes "web_ok W" "seal_entry W key vs pk sk u = Inr e"
  shows "unlock W e = Inr (pk, sk, u)"
  using assms
  by (auto simp: seal_entry_def unlock_def bind_res_Inr_iff decrypt_encrypt web_ok_def
      split: prod.splits)

lemma key_entry_commit:
  "key_entry (commit (Store d n e) st st) a b = (if a = d \<and> b = n then Some e else key_entry st a b)"
  "key_entry (commit (Disconnect d n) st st) a b = (if a = d \<and> b = n then None else key_entry st a b)"
  "key_entry (commit (Favicon d i) st st) a b = key_entry st a b"
proof -
  show "key_entry (commit (Store d n e) st st) a b = (if a = d \<and> b = n then Some e else key_entry st a b)"
    by (simp add: Let_def flip: key_entry_store) (simp add: key_entry_def)
  show "key_entry (commit (Disconnect d n) st st) a b = (if a = d \<and> b = n then None else key_entry st a b)"
  proof (cases "disconnectKeys_cb d n st")
    case (Some r)
    then show ?thesis
      by (simp flip: key_entry_disconnect [OF Some]) (simp add: key_entry_def)
  next
    case None
    then show ?thesis using disconnect_None [of d n st] by simp
  qed
  show "key_entry (commit (Favicon d i) st st) a b = key_entry st a b"
    by (simp add: key_entry_def)
qed

text \<open>The update concerns the entry of a host name and a net.\<close>

fun touches :: "'j update \<Rightarrow> string \<Rightarrow> string \<Rightarrow> bool" where
  "touches (Store d n e) a b = (a = d \<and> b = n)"
| "touches (Disconnect d n) a b = (a = d \<and> b = n)"
| "touches (Favicon d i) a b = False"

lemma key_entry_untouched: "\<not> touches u a b \<Longrightarrow> key_entry (commit u st st) a b = key_entry st a b"
  by (cases u) (auto simp only: key_entry_commit touches.simps if_False)

text \<open>Handlers that run one after the other.\<close>

definition run_updates :: "'j storage \<Rightarrow> 'j update list \<Rightarrow> 'j storage" where
  "run_updates st us = foldl (\<lambda>s u. commit u s s) st us"

interpretation vault: stepper "\<lambda>s u. commit u s s" vault_ok
  by unfold_locales (rule commit_ok)

lemma run_untouched:
  "\<forall>u \<in> set us. \<not> touches u a b \<Longrightarrow> key_entry (run_updates st us) a b = key_entry st a b"
  by (induction us arbitrary: st) (simp_all add: run_updates_def key_entry_untouched)

section \<open>Properties\<close>

text \<open>
  Keys that were stored stay retrievable. If \<^verbatim>\<open>storeKeys\<close> answers with success, then after any
  sequence of further stores, disconnections and icon updates that concern other entries,
  \<^verbatim>\<open>requestData\<close> for the same host name and net returns exactly the public key, private key and
  address that were stored.
\<close>

lemma stored_keys_retrievable:
  assumes "web_ok W"
    and "storeKeys W key vs domain net pk sk u st = (success, st')"
    and "\<forall>a \<in> set us. \<not> touches a domain net"
  shows "\<exists>icon. requestData W domain net (run_updates st' us) =
    Obj [(''publicKey'', Str pk), (''privateKey'', Str sk), (''url'', Str u), (''faviconUrl'', Str icon)]"
proof -
  obtain e where e: "seal_entry W key vs pk sk u = Inr e" "st' = storeKeys_cb domain net e st"
    using assms(2) by (auto simp: storeKeys_def failure_def success_def split: sum.splits)
  then have "key_entry (run_updates st' us) domain net = Some e"
    by (simp add: run_untouched [OF assms(3)] key_entry_store)
  then show ?thesis
    by (simp add: requestData_def Let_def unlock_sealed [OF assms(1) e(1)])
qed

definition plain_web :: "(unit, unit) web" where
  "plain_web = \<lparr>aes_encrypt = (\<lambda>_ v m. Inr (v @ m)), aes_decrypt = (\<lambda>_ v c. Inr (drop (length v) c)),
     export_key = (\<lambda>_. Inr ()), import_key = (\<lambda>_. Inr ()),
     text_encode = map (\<lambda>c. of_nat (code c)), text_decode = map (\<lambda>b. char_of (unat b)),
     url_hostname = (\<lambda>u. Some u)\<rparr>"

definition sample_entry :: "unit entry" where
  "sample_entry = (let x = \<lparr>ciphertext = ''AAAA'', iv = ''AAAA''\<rparr>
     in \<lparr>publicKey = x, privateKey = x, url = x, exportedKey = ()\<rparr>)"

lemma plain_web_ok: "web_ok plain_web"
proof -
  have "char_of (unat (word_of_nat (code c) :: 8 word)) = c" for c
    by (simp add: unsigned_of_nat take_bit_eq_mod)
  then show ?thesis by (simp add: web_ok_def plain_web_def o_def map_idI)
qed

definition empty_storage :: "'j storage" where
  "empty_storage = \<lparr>keys = [], connectedNets = [], faviconUrls = []\<rparr>"

text \<open>
  C8: The storage invariant holds in every state the worker can reach from an empty storage, in every
  interleaving of the reads and writes of concurrent handlers: a host name recorded as connected to a net has
  keys for that net, and no host name keeps an empty table.
\<close>

theorem vault_invariant:
  assumes "vault_step\<^sup>*\<^sup>* fresh_worker w"
  shows "(\<forall>d n. map_of (connectedNets (store w)) d = Some n \<longrightarrow> key_entry (store w) d n \<noteq> None)
       \<and> (\<forall>d. map_of (keys (store w)) d \<noteq> Some [])
       \<and> owf (keys (store w)) \<and> owf (connectedNets (store w))"
  using reachable_ok [OF assms fresh_ok] by (auto simp: worker_ok_def vault_ok_def)

lemma fresh_runs:
  "vault_step\<^sup>*\<^sup>* fresh_worker
     \<lparr>store = commit (Store d n e) empty_storage empty_storage, pending = []\<rparr>"
proof -
  let ?w = "\<lparr>store = empty_storage, pending = [(Store d n e, empty_storage)]\<rparr>"
  have 1: "vault_step fresh_worker ?w"
    using begin_op [of fresh_worker "Store d n e"] by (simp add: fresh_worker_def empty_storage_def)
  have 2: "vault_step ?w \<lparr>store = commit (Store d n e) empty_storage empty_storage, pending = []\<rparr>"
    using end_op [of ?w "[]" "Store d n e" empty_storage "[]"] by simp
  show ?thesis
    by (rule converse_rtranclp_into_rtranclp [of vault_step, OF 1]) (rule r_into_rtranclp [of vault_step, OF 2])
qed

theorem vault_invariant_witness:
  "map_of (connectedNets (commit (Store ''a.io'' ''net'' sample_entry) empty_storage empty_storage)) ''a.io''
     = Some ''net''
   \<and> key_entry (commit (Store ''a.io'' ''net'' sample_entry) empty_storage empty_storage) ''a.io'' ''net'' \<noteq> None"
proof -
  have c: "map_of (connectedNets (commit (Store ''a.io'' ''net'' sample_entry) empty_storage empty_storage)) ''a.io''
     = Some ''net''"
    by (simp add: storeKeys_cb_def Let_def empty_storage_def)
  with vault_invariant [OF fresh_runs [of "''a.io''" "''net''" sample_entry]] show ?thesis
    by (metis (no_types, lifting) worker.select_convs(1))
qed

text \<open>
  Disconnecting removes one entry and nothing else. If the entry exists, \<^verbatim>\<open>disconnectKeys\<close> succeeds,
  afterwards \<^verbatim>\<open>requestData\<close> reports that there are no keys for it, the host name is no longer
  connected to that net, and every other entry is unchanged; if it does not exist, the handler fails and
  leaves the storage as it was.
\<close>

lemma disconnect_spec:
  fixes st :: "'j storage" and W :: "('k, 'j) web"
  shows "let r = disconnectKeys domain net st in if key_entry st domain net = None
         then r = (failure ''No keys found to disconnect'', st)
         else fst r = success
            \<and> oprop (requestData W domain net (snd r)) ''error'' = Str ''No keys found for domain and net''
            \<and> map_of (connectedNets (snd r)) domain \<noteq> Some net
            \<and> (\<forall>a b. (a, b) \<noteq> (domain, net) \<longrightarrow> key_entry (snd r) a b = key_entry st a b)"
proof (cases "disconnectKeys_cb domain net st")
  case None
  then show ?thesis by (simp add: disconnectKeys_def) (simp add: disconnect_None)
next
  case (Some st')
  then have r: "disconnectKeys domain net st = (success, st')" by (simp add: disconnectKeys_def)
  have "key_entry st domain net \<noteq> None" using Some disconnect_None [of domain net st] by auto
  moreover have "key_entry st' domain net = None" by (simp add: key_entry_disconnect [OF Some])
  ultimately show ?thesis
    by (auto simp: r requestData_def own_def key_entry_disconnect [OF Some] connected_disconnect [OF Some])
qed

text \<open>
  Two pages that connect at the same time can lose one of the two connections: both handlers read the empty
  storage, both write, and after the second write the first entry, which was stored, is gone.
\<close>

lemma concurrent_stores_lose_keys:
  fixes e1 e2 :: "'a entry"
  assumes "d1 \<noteq> d2"
  shows "\<exists>w1 w2 w3 w4. vault_step fresh_worker w1 \<and> vault_step w1 w2 \<and> vault_step w2 w3 \<and> vault_step w3 w4
    \<and> map fst (pending w2) = [Store d1 n1 e1, Store d2 n2 e2]
    \<and> key_entry (store w3) d1 n1 = Some e1
    \<and> pending w4 = [] \<and> key_entry (store w4) d2 n2 = Some e2 \<and> key_entry (store w4) d1 n1 = None"
proof -
  define z :: "'a storage" where "z = empty_storage"
  let ?a = "(Store d1 n1 e1, z)" and ?b = "(Store d2 n2 e2, z)"
  let ?w1 = "\<lparr>store = z, pending = [?a]\<rparr>" and ?w2 = "\<lparr>store = z, pending = [?a, ?b]\<rparr>"
  define s1 where "s1 = commit (fst ?a) z z"
  let ?w3 = "\<lparr>store = s1, pending = [?b]\<rparr>"
  let ?w4 = "\<lparr>store = commit (fst ?b) z s1, pending = []\<rparr>"
  have "vault_step fresh_worker ?w1" "vault_step ?w1 ?w2"
    using begin_op [of fresh_worker "fst ?a"] begin_op [of ?w1 "fst ?b"]
    by (simp_all add: fresh_worker_def z_def empty_storage_def)
  moreover have "vault_step ?w2 ?w3"
    using end_op [of ?w2 "[]" "fst ?a" z "[?b]"] by (simp add: s1_def)
  moreover have "vault_step ?w3 ?w4"
    using end_op [of ?w3 "[]" "fst ?b" z "[]"] by simp
  moreover have "key_entry s1 d1 n1 = Some e1" "key_entry (store ?w4) d2 n2 = Some e2"
    "key_entry (store ?w4) d1 n1 = None"
    using assms by (simp_all add: s1_def key_entry_def storeKeys_cb_def Let_def z_def empty_storage_def)
  ultimately show ?thesis by fastforce
qed

end
