(* ===== verification/Vault_Transactions.thy ===== *)
theory Vault_Transactions
  imports Vault_Background
begin

text \<open>
  The handlers of \<^verbatim>\<open>resvault/public/background.js\<close> that send GraphQL mutations to the node whose address
  is stored with the keys: \<^verbatim>\<open>submitTransactionFromDashboard\<close>, \<^verbatim>\<open>submitTransaction\<close>,
  \<^verbatim>\<open>submitLoginTransaction\<close> and \<^verbatim>\<open>deployContractChain\<close>.
\<close>

section \<open>Requests over the network\<close>

type_synonym sent = "(string \<times> jv) list"

record fetched =
  ok :: bool
  statusText :: string
  body_json :: "jv res"

text \<open>
  The network is a parameter: its reply to a request, or the error \<^verbatim>\<open>fetch\<close> rejects with, may depend
  on everything sent before.
\<close>

type_synonym network = "sent \<Rightarrow> string \<Rightarrow> jv \<Rightarrow> fetched res"
type_synonym 'a io = "sent \<Rightarrow> 'a res \<times> sent"

definition return_io :: "'a \<Rightarrow> 'a io" where
  "return_io x = (\<lambda>h. (Inr x, h))"

definition lift_io :: "'a res \<Rightarrow> 'a io" where
  "lift_io r = (\<lambda>h. (r, h))"

definition bind_io :: "'a io \<Rightarrow> ('a \<Rightarrow> 'b io) \<Rightarrow> 'b io" where
  "bind_io m f = (\<lambda>h. case m h of (Inl e, h') \<Rightarrow> (Inl e, h') | (Inr x, h') \<Rightarrow> f x h')"

text \<open>\<^verbatim>\<open>try { ... } catch (error) { sendResponse({ success: false, error: error.message }) }\<close>\<close>

definition respond :: "jv io \<Rightarrow> sent \<Rightarrow> jv \<times> sent" where
  "respond m h = (case m h of (Inl e, h') \<Rightarrow> (failure (err_message e), h') | (Inr r, h') \<Rightarrow> (r, h'))"

definition reply :: "network \<Rightarrow> sent \<Rightarrow> string \<Rightarrow> jv \<Rightarrow> jv res" where
  "reply N h u b =
     bind_res (N h u b) (\<lambda>r.
       if ok r then body_json r
       else Inl (Error (''Network response was not ok: '' @ statusText r)))"

definition post_json :: "network \<Rightarrow> string \<Rightarrow> jv \<Rightarrow> jv io" where
  "post_json N u b = (\<lambda>h. (reply N h u b, h @ [(u, b)]))"

section \<open>Query texts\<close>

definition quoted :: "string \<Rightarrow> string" where
  "quoted s = dquote # s @ [dquote]"

definition block_quoted :: "string \<Rightarrow> string" where
  "block_quoted s = replicate 3 dquote @ s @ replicate 3 dquote"

text \<open>The mutation of the three transaction handlers, indented by \<open>n\<close> columns.\<close>

definition mutation_text :: "nat \<Rightarrow> string" where
  "mutation_text n = text_lines
     [(n, ''mutation postTransaction(''),
      (n + 2, ''$operation: String!,''),
      (n + 2, ''$amount: Int!,''),
      (n + 2, ''$signerPublicKey: String!,''),
      (n + 2, ''$signerPrivateKey: String!,''),
      (n + 2, ''$recipientPublicKey: String!,''),
      (n + 2, ''$asset: JSONScalar!''),
      (n, '') {''),
      (n + 2, ''postTransaction(''),
      (n + 4, ''data: {''),
      (n + 6, ''operation: $operation,''),
      (n + 6, ''amount: $amount,''),
      (n + 6, ''signerPublicKey: $signerPublicKey,''),
      (n + 6, ''signerPrivateKey: $signerPrivateKey,''),
      (n + 6, ''recipientPublicKey: $recipientPublicKey,''),
      (n + 6, ''asset: $asset''),
      (n + 4, ''}''),
      (n + 2, '') {''),
      (n + 4, ''id''),
      (n + 2, ''}''),
      (n, ''}''),
      (n - 2, '''')]"

definition tx_variables :: "jv \<Rightarrow> string \<Rightarrow> string \<Rightarrow> jv \<Rightarrow> jv \<Rightarrow> jv" where
  "tx_variables amount pk sk recipient asset =
     Obj [(''operation'', Str ''CREATE''), (''amount'', amount), (''signerPublicKey'', Str pk),
          (''signerPrivateKey'', Str sk), (''recipientPublicKey'', recipient), (''asset'', asset)]"

definition tx_body :: "nat \<Rightarrow> jv \<Rightarrow> jv" where
  "tx_body n vars = Obj [(''query'', Str (mutation_text n)), (''variables'', vars)]"

text \<open>\<^verbatim>\<open>parseInt(v)\<close> reads the text of the value.\<close>

definition parseInt_value :: "jv \<Rightarrow> jv" where
  "parseInt_value v =
     (case parse_int_auto (js_text v) of None \<Rightarrow> NaN | Some i \<Rightarrow> Num (fl (of_int i)))"

section \<open>Transactions\<close>

text \<open>
  The reply to a mutation: \<open>msg\<close> is the text the dashboard's handler adds to GraphQL errors.
\<close>

definition tx_reply :: "(string \<times> jv) list \<Rightarrow> jv \<Rightarrow> jv res" where
  "tx_reply msg resultData =
     bind_res (jget resultData ''errors'') (\<lambda>errs.
       if truthy errs
       then Inr (Obj ([(''success'', Bool False)] @ msg @ [(''errors'', errs)]))
       else bind_res (jget resultData ''data'') (\<lambda>d.
              Inr (Obj [(''success'', Bool True), (''data'', d)])))"

definition post_once :: "network \<Rightarrow> string \<Rightarrow> jv \<Rightarrow> (string \<times> jv) list \<Rightarrow> jv io" where
  "post_once N u b msg = bind_io (post_json N u b) (\<lambda>r. lift_io (tx_reply msg r))"

definition connected_to :: "'j storage \<Rightarrow> string \<Rightarrow> string \<Rightarrow> bool" where
  "connected_to st domain net = (map_of (connectedNets st) domain = Some net \<and> net \<noteq> [])"

definition submitTransactionFromDashboard :: "('k, 'j) web \<Rightarrow> network \<Rightarrow> jv \<Rightarrow> string \<Rightarrow> string \<Rightarrow>
    'j storage \<Rightarrow> sent \<Rightarrow> jv \<times> sent" where
  "submitTransactionFromDashboard W N td domain net st h =
     (if \<not> truthy td \<or> \<not> truthy (oprop td ''asset'') \<or> \<not> truthy (oprop td ''recipientAddress'')
         \<or> \<not> truthy (oprop td ''amount'')
      then (failure ''Invalid transaction data.'', h)
      else if \<not> connected_to st domain net
      then (failure ''Not connected to the specified net for this domain.'', h)
      else case key_entry st domain net of
        None \<Rightarrow> (failure ''Keys not found for the specified domain and net.'', h)
      | Some e \<Rightarrow>
          respond
            (bind_io (lift_io (unlock W e)) (\<lambda>(pk, sk, u).
             post_once N u
               (tx_body 22 (tx_variables (parseInt_value (oprop td ''amount'')) pk sk
                  (oprop td ''recipientAddress'') (oprop td ''asset'')))
               [(''error'', Str ''GraphQL errors occurred.'')])) h)"

text \<open>The page a message comes from: the first of the three addresses that is not empty.\<close>

record sender =
  tab_url :: "string option"
  sender_url :: "string option"
  sender_origin :: "string option"

definition nonempty :: "string option \<Rightarrow> bool" where
  "nonempty x = (x \<noteq> None \<and> x \<noteq> Some [])"

definition senderUrl :: "sender \<Rightarrow> string option" where
  "senderUrl s = (if nonempty (tab_url s) then tab_url s
     else if nonempty (sender_url s) then sender_url s
     else if nonempty (sender_origin s) then sender_origin s else None)"

text \<open>
  \<^verbatim>\<open>keys[domain][net]\<close> where \<open>net\<close> is what \<^verbatim>\<open>connectedNets[domain]\<close> gives: an absent net reads the property
  named \<^verbatim>\<open>undefined\<close>.
\<close>

definition sender_entry :: "'j storage \<Rightarrow> string \<Rightarrow> 'j entry option" where
  "sender_entry st domain =
     key_entry st domain
       (case map_of (connectedNets st) domain of None \<Rightarrow> ''undefined'' | Some n \<Rightarrow> n)"

definition no_keys :: jv where
  "no_keys = Obj [(''error'', Str ''No keys found for domain and net'')]"

definition submitTransaction :: "('k, 'j) web \<Rightarrow> network \<Rightarrow> sender \<Rightarrow> jv \<Rightarrow> jv \<Rightarrow> jv \<Rightarrow>
    'j storage \<Rightarrow> sent \<Rightarrow> jv \<times> sent" where
  "submitTransaction W N frm amount data recipient st h =
     (case senderUrl frm of
        None \<Rightarrow> (failure ''Cannot determine sender URL'', h)
      | Some su \<Rightarrow>
          (case sender_entry st (getBaseDomain W su) of
             None \<Rightarrow> (no_keys, h)
           | Some e \<Rightarrow>
               respond
                 (bind_io (lift_io (unlock W e)) (\<lambda>(pk, sk, u).
                  if pk = [] \<or> sk = [] \<or> \<not> truthy recipient
                  then return_io (failure ''Missing required fields for transaction'')
                  else
                    post_once N u
                      (tx_body 26 (tx_variables (parseInt_value amount) pk sk recipient
                         (Obj [(''data'', js_or data (Obj []))]))) [])) h))"

text \<open>
  \<open>now\<close> is \<^verbatim>\<open>Date.now()\<close>, \<open>uuid\<close> the result of \<^verbatim>\<open>crypto.randomUUID()\<close> where the browser has it, and \<open>rnd\<close> the
  bytes \<^const>\<open>generateUUID\<close> draws.
\<close>

definition login_asset :: "int \<Rightarrow> string option \<Rightarrow> (nat \<Rightarrow> 8 word) \<Rightarrow> jv" where
  "login_asset now uuid rnd =
     Obj [(''data'', Obj
       [(''login_timestamp'', Num (of_int \<lfloor>ddiv (of_int now) 1000\<rfloor>)),
        (''login_transaction_id'',
          Str (only_alnum (case uuid of Some s \<Rightarrow> s | None \<Rightarrow> generateUUID rnd)))])]"

definition submitLoginTransaction :: "('k, 'j) web \<Rightarrow> network \<Rightarrow> sender \<Rightarrow> int \<Rightarrow> string option \<Rightarrow>
    (nat \<Rightarrow> 8 word) \<Rightarrow> 'j storage \<Rightarrow> sent \<Rightarrow> jv \<times> sent" where
  "submitLoginTransaction W N frm now uuid rnd st h =
     (case senderUrl frm of
        None \<Rightarrow> (failure ''Cannot determine sender URL'', h)
      | Some su \<Rightarrow>
          (case sender_entry st (getBaseDomain W su) of
             None \<Rightarrow> (no_keys, h)
           | Some e \<Rightarrow>
               respond
                 (bind_io (lift_io (unlock W e)) (\<lambda>(pk, sk, u).
                  post_once N u
                    (tx_body 26 (tx_variables (Num 1) pk sk (Str pk) (login_asset now uuid rnd))) [])) h))"

section \<open>Contract deployment\<close>

definition query_body :: "string \<Rightarrow> jv" where
  "query_body q = Obj [(''query'', Str q)]"

definition node_config :: string where
  "node_config = ''config: '' @ quoted ''5 127.0.0.1 10005'' @ '',''"

definition addAddressMutation :: "jv \<Rightarrow> string" where
  "addAddressMutation owner = text_lines
     [(20, ''mutation {''), (22, ''addAddress(''), (24, node_config),
      (24, ''address: '' @ quoted (escapeGraphQLString owner) @ '',''),
      (24, ''type: '' @ quoted ''data''), (22, '')''), (20, ''}''), (20, '''')]"

definition compileContractMutation :: "jv \<Rightarrow> string" where
  "compileContractMutation source = text_lines
     [(24, ''mutation {''), (26, ''compileContract(''),
      (28, ''source: '' @ block_quoted (escapeGraphQLString source) @ '',''),
      (28, ''type: '' @ quoted ''data''), (24, '')''), (24, ''}''), (24, '''')]"

text \<open>\<^verbatim>\<open>s.replace(p, r)\<close> for a string pattern: the first occurrence only.\<close>

fun replace_first :: "string \<Rightarrow> string \<Rightarrow> string \<Rightarrow> string" where
  "replace_first p r [] = (if p = [] then r else [])"
| "replace_first p r (c # s) =
     (if starts_with (c # s) p then r @ drop (length p) (c # s) else c # replace_first p r s)"

definition deployContractMutation :: "string \<Rightarrow> jv \<Rightarrow> jv \<Rightarrow> jv \<Rightarrow> string" where
  "deployContractMutation file contract_name args owner = text_lines
     [(24, ''mutation {''), (26, ''deployContract(''), (28, node_config),
      (28, ''contract: '' @ quoted (escape_string file) @ '',''),
      (28, ''name: '' @ quoted (''/tmp/'' @ escape_string (replace_first ''.json'' ''.sol'' file) @ '':''
             @ escapeGraphQLString contract_name) @ '',''),
      (28, ''arguments: '' @ quoted (escapeGraphQLString args) @ '',''),
      (28, ''owner: '' @ quoted (escapeGraphQLString owner) @ '',''),
      (28, ''type: '' @ quoted ''data''), (26, ''){''), (28, ''ownerAddress''),
      (28, ''contractAddress''), (28, ''contractName''), (26, ''}''), (24, ''}''), (24, '''')]"

definition failure_errors :: "string \<Rightarrow> jv \<Rightarrow> jv" where
  "failure_errors m errs =
     Obj [(''success'', Bool False), (''error'', Str m), (''errors'', errs)]"

text \<open>
  One mutation of the chain: the reply is refused with \<open>msg\<close> if it has errors, and passed on to the
  rest otherwise.
\<close>

definition chain_post :: "network \<Rightarrow> string \<Rightarrow> string \<Rightarrow> string \<Rightarrow> (jv \<Rightarrow> jv io) \<Rightarrow> jv io" where
  "chain_post N u q msg rest =
     bind_io (post_json N u (query_body q)) (\<lambda>r.
     bind_io (lift_io (jget r ''errors'')) (\<lambda>errs.
       if truthy errs then return_io (failure_errors msg errs) else rest r))"

definition deploy_step :: "network \<Rightarrow> string \<Rightarrow> jv \<Rightarrow> jv \<Rightarrow> jv \<Rightarrow> jv io" where
  "deploy_step N u owner deployConfig contractFilename =
     bind_io (lift_io (jget deployConfig ''arguments'')) (\<lambda>args.
     case contractFilename of
       Str file \<Rightarrow>
         chain_post N u (deployContractMutation file (oprop deployConfig ''contract_name'') args owner)
           ''Error in deployContract mutation.'' (\<lambda>r.
           let dep = oprop (oprop r ''data'') ''deployContract''; addr = oprop dep ''contractAddress''
           in if truthy (oprop r ''data'') \<and> truthy dep \<and> truthy addr
              then return_io (Obj [(''success'', Bool True), (''contractAddress'', addr)])
              else return_io (failure ''Failed to deploy contract.''))
     | _ \<Rightarrow> lift_io (Inl (TypeError ''contractFilename.replace is not a function'')))"

definition compile_step :: "network \<Rightarrow> string \<Rightarrow> jv \<Rightarrow> jv \<Rightarrow> jv \<Rightarrow> jv io" where
  "compile_step N u owner source deployConfig =
     chain_post N u (compileContractMutation source) ''Error in compileContract mutation.'' (\<lambda>r.
       bind_io (lift_io (jget (oprop r ''data'') ''compileContract'')) (\<lambda>contractFilename.
         if \<not> truthy contractFilename then return_io (failure ''Failed to compile contract.'')
         else deploy_step N u owner deployConfig contractFilename))"

definition address_added :: "jv \<Rightarrow> bool" where
  "address_added r = (oprop (oprop r ''data'') ''addAddress'' = Str ''Address added successfully'')"

definition deploy_chain_io :: "network \<Rightarrow> string \<Rightarrow> jv \<Rightarrow> jv \<Rightarrow> jv \<Rightarrow> jv io" where
  "deploy_chain_io N u owner source deployConfig =
     chain_post N u (addAddressMutation owner) ''Error in addAddress mutation.'' (\<lambda>r.
       if truthy (oprop r ''data'') \<and> address_added r
       then compile_step N u owner source deployConfig
       else return_io (failure ''Failed to add address.''))"

definition deployContractChain :: "('k, 'j) web \<Rightarrow> network \<Rightarrow> string \<Rightarrow> string \<Rightarrow> jv \<Rightarrow> jv \<Rightarrow> jv \<Rightarrow>
    'j storage \<Rightarrow> sent \<Rightarrow> jv \<times> sent" where
  "deployContractChain W N domain net owner source deployConfig st h =
     (if \<not> connected_to st domain net
      then (failure ''Not connected to the specified net for this domain.'', h)
      else case key_entry st domain net of
        None \<Rightarrow> (failure ''Keys not found for the specified domain and net.'', h)
      | Some e \<Rightarrow>
          respond
            (bind_io (lift_io (unlock_url W e)) (\<lambda>u. deploy_chain_io N u owner source deployConfig)) h)"

section \<open>Lemmas\<close>

lemma bind_io_simps [simp]:
  "bind_io (return_io x) f = f x"
  "bind_io (lift_io (Inr x)) f = f x"
  "bind_io (lift_io (Inl e)) f h = (Inl e, h)"
  by (simp_all add: bind_io_def return_io_def lift_io_def)

lemma respond_simps [simp]:
  "respond (return_io r) h = (r, h)"
  "respond (lift_io (Inr r)) h = (r, h)"
  "respond (lift_io (Inl e)) h = (failure (err_message e), h)"
  by (simp_all add: respond_def return_io_def lift_io_def)

lemma failure_not_success: "oprop (failure m) ''success'' = Bool False"
  by (simp add: failure_def own_def)

text \<open>Unlocking an entry and posting one request with it: what is sent, and when it succeeds.\<close>

definition accepted :: "network \<Rightarrow> sent \<Rightarrow> string \<Rightarrow> jv \<Rightarrow> jv \<Rightarrow> bool" where
  "accepted N h u b d \<longleftrightarrow>
     (\<exists>r. reply N h u b = Inr r \<and> \<not> truthy (oprop r ''errors'') \<and> oprop r ''data'' = d)"

lemma snd_respond_post [simp]: "snd (respond (post_once N u b msg) h) = h @ [(u, b)]"
  by (auto simp: respond_def post_once_def bind_io_def post_json_def lift_io_def split: sum.splits)

lemma jget_Inr: "jget r k = Inr v \<longleftrightarrow> r \<noteq> Undefined \<and> r \<noteq> Null \<and> v = oprop r k"
  by (cases r) auto

lemma tx_reply_success:
  "tx_reply msg r = Inr v \<Longrightarrow> oprop v ''success'' = Bool True \<Longrightarrow>
   v = Obj [(''success'', Bool True), (''data'', oprop r ''data'')] \<and> \<not> truthy (oprop r ''errors'')"
  by (auto simp: tx_reply_def bind_res_Inr_iff jget_Inr own_def split: if_splits)

lemma respond_post_success:
  assumes "oprop (fst (respond (post_once N u b msg) h)) ''success'' = Bool True"
  shows "\<exists>d. fst (respond (post_once N u b msg) h) = Obj [(''success'', Bool True), (''data'', d)]
           \<and> accepted N h u b d"
proof -
  obtain r v where r: "reply N h u b = Inr r" "tx_reply msg r = Inr v"
      and v: "fst (respond (post_once N u b msg) h) = v"
    using assms
    by (auto simp: respond_def post_once_def bind_io_def post_json_def lift_io_def failure_not_success
        split: sum.splits)
  then show ?thesis using tx_reply_success [OF r(2)] assms by (auto simp: accepted_def)
qed

lemma chain_post_cases:
  obtains (thrown) e where "chain_post N u q msg rest h = (Inl e, h @ [(u, query_body q)])"
  | (refused) errs where
      "chain_post N u q msg rest h = (Inr (failure_errors msg errs), h @ [(u, query_body q)])"
  | (passed) r where "reply N h u (query_body q) = Inr r" "\<not> truthy (oprop r ''errors'')"
      "chain_post N u q msg rest h = rest r (h @ [(u, query_body q)])"
proof (cases "reply N h u (query_body q)")
  case (Inl e)
  then show ?thesis by (intro thrown [of e]) (simp add: chain_post_def bind_io_def post_json_def)
next
  case (Inr r)
  show ?thesis
  proof (cases "jget r ''errors''")
    case (Inl e)
    with Inr show ?thesis
      by (intro thrown [of e]) (simp add: chain_post_def bind_io_def post_json_def lift_io_def)
  next
    case e: (Inr errs)
    have "chain_post N u q msg rest h =
        (if truthy errs then return_io (failure_errors msg errs) else rest r) (h @ [(u, query_body q)])"
      using Inr e by (simp add: chain_post_def bind_io_def post_json_def lift_io_def)
    with Inr e show ?thesis
      by (cases "truthy errs") (auto simp: return_io_def jget_Inr intro: refused passed)
  qed
qed

text \<open>The request a page's transaction or login sends with an entry.\<close>

definition page_request :: "jv \<Rightarrow> jv \<Rightarrow> jv \<Rightarrow> string \<Rightarrow> string \<Rightarrow> jv" where
  "page_request amount data recipient pk sk =
     tx_body 26 (tx_variables (parseInt_value amount) pk sk recipient
       (Obj [(''data'', js_or data (Obj []))]))"

lemma submitTransaction_cases:
  obtains (quiet) r where "submitTransaction W N frm amount data recipient st h = (r, h)" "oprop r ''success'' \<noteq> Bool True"
  | (posts) su e pk sk u where "senderUrl frm = Some su"
      "sender_entry st (getBaseDomain W su) = Some e" "unlock W e = Inr (pk, sk, u)"
      "pk \<noteq> []" "sk \<noteq> []" "truthy recipient"
      "submitTransaction W N frm amount data recipient st h =
         respond (post_once N u (page_request amount data recipient pk sk) []) h"
proof (cases "senderUrl frm")
  case None
  then show ?thesis by (intro quiet) (auto simp: submitTransaction_def failure_not_success)
next
  case su: (Some su)
  show ?thesis
  proof (cases "sender_entry st (getBaseDomain W su)")
    case None
    with su show ?thesis
      by (intro quiet) (auto simp: submitTransaction_def no_keys_def own_def)
  next
    case e: (Some e)
    show ?thesis
    proof (cases "unlock W e")
      case (Inl x)
      with su e show ?thesis
        by (intro quiet [of "failure (err_message x)"])
          (simp_all add: submitTransaction_def respond_def failure_not_success)
    next
      case (Inr t)
      obtain pk sk u where t: "t = (pk, sk, u)" by (cases t)
      show ?thesis
      proof (cases "pk = [] \<or> sk = [] \<or> \<not> truthy recipient")
        case True
        with su e Inr t show ?thesis
          by (intro quiet [of "failure ''Missing required fields for transaction''"])
            (auto simp: submitTransaction_def failure_not_success)
      next
        case False
        with su e Inr t show ?thesis
          by (intro posts [of su e pk sk u])
            (auto simp: submitTransaction_def page_request_def)
      qed
    qed
  qed
qed

text \<open>An update that neither concerns the entry nor connects the host name to another net.\<close>

definition leaves :: "'j update \<Rightarrow> string \<Rightarrow> string \<Rightarrow> bool" where
  "leaves a domain net =
     (\<not> touches a domain net \<and> (case a of Store d n e \<Rightarrow> d \<noteq> domain | _ \<Rightarrow> True))"

lemma connected_commit:
  "map_of (connectedNets st) domain = Some net \<Longrightarrow> leaves a domain net \<Longrightarrow>
   map_of (connectedNets (commit a st st)) domain = Some net"
  by (cases a)
    (auto simp: leaves_def Let_def connected_store connected_disconnect split: option.splits)

lemma connected_run:
  "map_of (connectedNets st) domain = Some net \<Longrightarrow> \<forall>a \<in> set us. leaves a domain net \<Longrightarrow>
   map_of (connectedNets (run_updates st us)) domain = Some net"
  by (induction us arbitrary: st) (simp_all add: run_updates_def connected_commit)

text \<open>
  The lexer of the GraphQL specification on the body of a block string, before the removal of common
  indentation: it ends at the first three quotes, and the only escape is a backslash before three quotes.
\<close>

fun gql_block :: "string \<Rightarrow> (string \<times> string) option" where
  "gql_block [] = None"
| "gql_block (c # s) =
     (if starts_with (c # s) (replicate 3 dquote) then Some ([], drop 2 s)
      else if starts_with (c # s) (backslash # replicate 3 dquote)
      then map_option (\<lambda>(u, r). (replicate 3 dquote @ u, r)) (gql_block (drop 3 s))
      else map_option (\<lambda>(u, r). (c # u, r)) (gql_block s))"

lemma length_escape:
  "length (escape_string s) = length s + length (filter (\<lambda>c. c = dquote \<or> c = backslash) s)"
  by (induction s) (auto simp: escape_simps)

lemma escape_fixed: "escape_string s = s \<longleftrightarrow> dquote \<notin> set s \<and> backslash \<notin> set s"
proof
  assume "escape_string s = s"
  then have "filter (\<lambda>c. c = dquote \<or> c = backslash) s = []" using length_escape [of s] by simp
  then show "dquote \<notin> set s \<and> backslash \<notin> set s" by (auto simp: filter_empty_conv)
next
  assume "dquote \<notin> set s \<and> backslash \<notin> set s"
  then show "escape_string s = s" by (induction s) (auto simp: escape_simps)
qed

lemma gql_block_plain:
  "c \<noteq> dquote \<Longrightarrow> c \<noteq> backslash \<Longrightarrow> gql_block (c # s) = map_option (\<lambda>(u, r). (c # u, r)) (gql_block s)"
  "x \<noteq> dquote \<Longrightarrow>
     gql_block (backslash # x # s) = map_option (\<lambda>(u, r). (backslash # u, r)) (gql_block (x # s))"
  "x \<noteq> dquote \<Longrightarrow>
     gql_block (backslash # dquote # x # s) = map_option (\<lambda>(u, r). (backslash # dquote # u, r)) (gql_block (x # s))"
  by (simp_all add: starts_with_def numeral_3_eq_3 char_defs option.map_comp o_def case_prod_unfold)

lemma gql_block_end: "gql_block (replicate 3 dquote @ rest) = Some ([], rest)"
  by (simp add: starts_with_def numeral_3_eq_3)

lemma gql_block_escape:
  "s \<noteq> [] \<Longrightarrow> last s \<noteq> dquote \<Longrightarrow> last s \<noteq> backslash \<Longrightarrow>
   gql_block (escape_string s @ replicate 3 dquote @ rest) = Some (escape_string s, rest)"
proof (induction s)
  case (Cons c s)
  show ?case
  proof (cases s)
    case Nil
    with Cons.prems show ?thesis by (simp add: escape_simps gql_block_plain gql_block_end del: gql_block.simps)
  next
    case s: (Cons d t)
    obtain x y where xy: "escape_string s @ replicate 3 dquote @ rest = x # y" "x \<noteq> dquote"
      by (cases "d = dquote"; cases "d = backslash") (auto simp: s escape_simps char_defs)
    have IH: "gql_block (x # y) = Some (escape_string s, rest)"
      using Cons.IH Cons.prems s unfolding xy(1) by simp
    have bq: "backslash \<noteq> dquote" by (simp add: char_defs)
    consider "c = dquote" | "c = backslash" | "c \<noteq> dquote" "c \<noteq> backslash" by blast
    then show ?thesis
      by cases (simp_all add: escape_simps xy bq IH gql_block_plain del: gql_block.simps)
  qed
qed simp

text \<open>Which results of a stage of the deployment chain are answers of success.\<close>

definition succeeds :: "jv res \<Rightarrow> bool" where
  "succeeds res = (\<exists>v. res = Inr v \<and> oprop v ''success'' = Bool True)"

definition with_address :: "jv res \<Rightarrow> bool" where
  "with_address res = (\<forall>v. res = Inr v \<longrightarrow> truthy (oprop v ''contractAddress''))"

lemma succeeds_simps [simp]:
  "\<not> succeeds (Inl e)"
  "\<not> succeeds (Inr (failure m))"
  "\<not> succeeds (Inr (failure_errors m errs))"
  by (simp_all add: succeeds_def failure_not_success) (simp add: failure_errors_def own_def)

abbreviation deploy_request :: "string \<Rightarrow> jv \<Rightarrow> jv \<Rightarrow> string \<Rightarrow> string \<times> jv" where
  "deploy_request u owner cfg fname \<equiv>
     (u, query_body (deployContractMutation fname (oprop cfg ''contract_name'')
                       (oprop cfg ''arguments'') owner))"

abbreviation compile_request :: "string \<Rightarrow> jv \<Rightarrow> string \<times> jv" where
  "compile_request u source \<equiv> (u, query_body (compileContractMutation source))"

abbreviation add_request :: "string \<Rightarrow> jv \<Rightarrow> string \<times> jv" where
  "add_request u owner \<equiv> (u, query_body (addAddressMutation owner))"

lemma deploy_step_cases:
  obtains (silent) res where "deploy_step N u owner cfg f h = (res, h)" "\<not> succeeds res"
  | (sent) res fname where "f = Str fname" "succeeds res \<longrightarrow> with_address res"
      "deploy_step N u owner cfg f h = (res, h @ [deploy_request u owner cfg fname])"
proof (cases "jget cfg ''arguments''")
  case (Inl e)
  then show ?thesis by (intro silent [of "Inl e"]) (simp_all add: deploy_step_def)
next
  case (Inr args)
  then have args: "args = oprop cfg ''arguments''" by (simp add: jget_Inr)
  show ?thesis
  proof (cases "\<exists>fname. f = Str fname")
    case True
    then obtain fname where f: "f = Str fname" by blast
    let ?q = "deployContractMutation fname (oprop cfg ''contract_name'') (oprop cfg ''arguments'') owner"
    define rest where "rest = (\<lambda>r.
       let dep = oprop (oprop r ''data'') ''deployContract''; addr = oprop dep ''contractAddress''
       in if truthy (oprop r ''data'') \<and> truthy dep \<and> truthy addr
          then return_io (Obj [(''success'', Bool True), (''contractAddress'', addr)])
          else return_io (failure ''Failed to deploy contract.''))"
    have d: "deploy_step N u owner cfg (Str fname) h = chain_post N u ?q ''Error in deployContract mutation.'' rest h"
      using Inr by (simp add: deploy_step_def args rest_def)
    show ?thesis
    proof (cases rule: chain_post_cases [of N u ?q "''Error in deployContract mutation.''" rest h])
      case (thrown e)
      then show ?thesis by (intro sent [of fname "Inl e"]) (simp_all add: d f)
    next
      case (refused errs)
      then show ?thesis
        by (intro sent [of fname "Inr (failure_errors ''Error in deployContract mutation.'' errs)"])
          (simp_all add: d f)
    next
      case (passed r)
      then show ?thesis
        by (intro sent [of fname "fst (rest r h)"])
          (auto simp: d f rest_def Let_def return_io_def with_address_def own_def)
    qed
  next
    case False
    with Inr show ?thesis
      by (intro silent [of "Inl (TypeError ''contractFilename.replace is not a function'')"])
        (cases f; simp add: deploy_step_def; simp add: lift_io_def)+
  qed
qed

lemma compile_step_cases:
  obtains (stopped) res where
      "compile_step N u owner source cfg h = (res, h @ [compile_request u source])" "\<not> succeeds res"
  | (deployed) res fname r where
      "reply N h u (snd (compile_request u source)) = Inr r"
      "oprop (oprop r ''data'') ''compileContract'' = Str fname"
      "compile_step N u owner source cfg h =
         (res, h @ [compile_request u source, deploy_request u owner cfg fname])"
      "succeeds res \<longrightarrow> with_address res"
proof -
  let ?q = "compileContractMutation source" and ?m = "''Error in compileContract mutation.''"
  define rest where "rest = (\<lambda>r.
       bind_io (lift_io (jget (oprop r ''data'') ''compileContract'')) (\<lambda>f.
         if \<not> truthy f then return_io (failure ''Failed to compile contract.'')
         else deploy_step N u owner cfg f))"
  have c: "compile_step N u owner source cfg h = chain_post N u ?q ?m rest h"
    by (simp add: compile_step_def rest_def)
  show ?thesis
  proof (cases rule: chain_post_cases [of N u ?q ?m rest h])
    case (thrown e)
    then show ?thesis by (intro stopped [of "Inl e"]) (simp_all add: c)
  next
    case (refused errs)
    then show ?thesis by (intro stopped [of "Inr (failure_errors ?m errs)"]) (simp_all add: c)
  next
    case (passed r)
    let ?h = "h @ [compile_request u source]"
    show ?thesis
    proof (cases "jget (oprop r ''data'') ''compileContract''")
      case (Inl e)
      with passed show ?thesis by (intro stopped [of "Inl e"]) (simp_all add: c rest_def)
    next
      case (Inr f)
      show ?thesis
      proof (cases "truthy f")
        case True
        with passed Inr have d: "compile_step N u owner source cfg h = deploy_step N u owner cfg f ?h"
          by (simp add: c rest_def)
        show ?thesis
        proof (cases rule: deploy_step_cases [of N u owner cfg f ?h])
          case (silent res)
          with d show ?thesis by (intro stopped [of res]) simp_all
        next
          case (sent res fname)
          with d passed(1) Inr show ?thesis
            by (intro deployed [of r fname res]) (simp_all add: jget_Inr)
        qed
      next
        case False
        with passed Inr show ?thesis
          by (intro stopped [of "Inr (failure ''Failed to compile contract.'')"])
            (simp_all add: c rest_def return_io_def)
      qed
    qed
  qed
qed

lemma respond_pair:
  "m h = (res, h') \<Longrightarrow> snd (respond m h) = h'
     \<and> (oprop (fst (respond m h)) ''success'' = Bool True \<longleftrightarrow> succeeds res)
     \<and> (succeeds res \<longrightarrow> with_address res \<longrightarrow> truthy (oprop (fst (respond m h)) ''contractAddress''))"
  by (cases res) (auto simp: respond_def succeeds_def failure_not_success with_address_def)

lemma chain_cases:
  obtains (one) res where "deploy_chain_io N u owner source cfg h = (res, h @ [add_request u owner])" "\<not> succeeds res"
  | (two) res r where "reply N h u (snd (add_request u owner)) = Inr r" "address_added r"
      "deploy_chain_io N u owner source cfg h = (res, h @ [add_request u owner, compile_request u source])" "\<not> succeeds res"
  | (three) res r r' fname where "reply N h u (snd (add_request u owner)) = Inr r" "address_added r"
      "reply N (h @ [add_request u owner]) u (snd (compile_request u source)) = Inr r'"
      "oprop (oprop r' ''data'') ''compileContract'' = Str fname"
      "deploy_chain_io N u owner source cfg h = (res, h @ [add_request u owner, compile_request u source, deploy_request u owner cfg fname])"
      "succeeds res \<longrightarrow> with_address res"
proof -
  let ?q = "addAddressMutation owner" and ?msg = "''Error in addAddress mutation.''"
  define rest where "rest = (\<lambda>r.
      if truthy (oprop r ''data'') \<and> address_added r then compile_step N u owner source cfg
      else return_io (failure ''Failed to add address.''))"
  have m: "deploy_chain_io N u owner source cfg h = chain_post N u ?q ?msg rest h" by (simp add: deploy_chain_io_def rest_def)
  show ?thesis
  proof (cases rule: chain_post_cases [of N u ?q ?msg rest h])
    case (thrown e)
    then show ?thesis by (intro one [of "Inl e"]) (simp_all add: m)
  next
    case (refused errs)
    then show ?thesis by (intro one [of "Inr (failure_errors ?msg errs)"]) (simp_all add: m)
  next
    case (passed r)
    let ?h = "h @ [add_request u owner]"
    show ?thesis
    proof (cases "truthy (oprop r ''data'') \<and> address_added r")
      case True
      then have c: "deploy_chain_io N u owner source cfg h = compile_step N u owner source cfg ?h" using passed(3) by (simp add: m rest_def)
      show ?thesis
      proof (cases rule: compile_step_cases [of N u owner source cfg ?h])
        case (stopped res)
        then show ?thesis using True passed(1) c by (intro two [of r res]) simp_all
      next
        case (deployed res fname r')
        then show ?thesis using True passed(1) c by (intro three [of r r' fname res]) simp_all
      qed
    next
      case False
      with passed show ?thesis
        by (intro one [of "Inr (failure ''Failed to add address.'')"])
          (auto simp: m rest_def return_io_def)
    qed
  qed
qed

section \<open>Properties\<close>

definition echo_node :: network where
  "echo_node h u b = Inr \<lparr>ok = True, statusText = ''OK'', body_json = Inr (Obj [(''data'', b)])\<rparr>"

text \<open>
  C7: A page can only spend with the keys of its own host name. Whatever a page asks \<^verbatim>\<open>submitTransaction\<close>
  to do, either nothing is sent and the answer is not a success, or exactly one request is sent: to the
  node address stored for the net the page's host name is connected to, signed with the key pair stored
  there; and an answer of success carries the data of a reply without errors to that request.
\<close>

theorem submitTransaction_own_keys:
  "case submitTransaction W N frm amount data recipient st h of (answer, h') \<Rightarrow>
     (h' = h \<and> oprop answer ''success'' \<noteq> Bool True)
   \<or> (\<exists>su e pk sk u. senderUrl frm = Some su
        \<and> sender_entry st (getBaseDomain W su) = Some e \<and> unlock W e = Inr (pk, sk, u)
        \<and> h' = h @ [(u, page_request amount data recipient pk sk)]
        \<and> (oprop answer ''success'' = Bool True \<longrightarrow>
             accepted N h u (page_request amount data recipient pk sk) (oprop answer ''data'')))"
proof (cases rule: submitTransaction_cases [of W N frm amount data recipient st h])
  case (quiet r)
  then show ?thesis by simp
next
  case (posts su e pk sk u)
  let ?b = "page_request amount data recipient pk sk"
  have "accepted N h u ?b (oprop (fst (respond (post_once N u ?b []) h)) ''data'')"
    if "oprop (fst (respond (post_once N u ?b []) h)) ''success'' = Bool True"
    using respond_post_success [OF that] by (auto simp: own_def)
  with posts show ?thesis by (auto simp: case_prod_unfold)
qed

theorem submitTransaction_own_keys_witness:
  "senderUrl \<lparr>tab_url = Some [], sender_url = None, sender_origin = None\<rparr> = None
   \<and> snd (submitTransaction plain_web echo_node \<lparr>tab_url = Some [], sender_url = None, sender_origin = None\<rparr>
       (Num 1) Null (Str ''R'') empty_storage []) = []"
proof -
  have "senderUrl \<lparr>tab_url = Some [], sender_url = None, sender_origin = None\<rparr> = None"
    by (simp add: senderUrl_def nonempty_def)
  with submitTransaction_own_keys [where W = plain_web and N = echo_node and frm =
      "\<lparr>tab_url = Some [], sender_url = None, sender_origin = None\<rparr>" and h = "[]" and
      amount = "Num 1" and data = Null and recipient = "Str ''R''" and st = empty_storage]
  show ?thesis by (auto simp: case_prod_unfold)
qed

text \<open>
  The whole path from connecting to signing. After \<^verbatim>\<open>storeKeys\<close> has stored a key pair and an address
  for a page's host name, and any handlers have run that leave this entry and the connection of the
  host name alone, a transaction of that page is sent to this address and signed with this key pair,
  and if the node accepts it the page gets the node's data.
\<close>

lemma submit_stored:
  assumes web: "web_ok W"
    and stored: "storeKeys W key vs domain net pk sk u st = (success, st')"
    and us: "\<forall>a \<in> set us. leaves a domain net"
    and page: "senderUrl frm = Some su" "getBaseDomain W su = domain"
    and req: "pk \<noteq> []" "sk \<noteq> []" "truthy recipient"
    and node: "reply N h u (page_request amount data recipient pk sk) = Inr (Obj ps)"
      "\<not> truthy (own ps ''errors'')"
  shows "submitTransaction W N frm amount data recipient (run_updates st' us) h =
    (Obj [(''success'', Bool True), (''data'', own ps ''data'')],
     h @ [(u, page_request amount data recipient pk sk)])"
proof -
  let ?st = "run_updates st' us"
  obtain e where e: "seal_entry W key vs pk sk u = Inr e" "st' = storeKeys_cb domain net e st"
    using stored by (auto simp: storeKeys_def failure_def success_def split: sum.splits)
  have "key_entry ?st domain net = Some e"
    using us by (simp add: e key_entry_store run_untouched leaves_def)
  moreover have "map_of (connectedNets ?st) domain = Some net"
    by (rule connected_run [OF _ us]) (simp add: e connected_store)
  ultimately have "sender_entry ?st domain = Some e" by (simp add: sender_entry_def)
  moreover have "unlock W e = Inr (pk, sk, u)" by (rule unlock_sealed [OF web e(1)])
  ultimately show ?thesis
    using page req node
    by (simp add: submitTransaction_def respond_def post_once_def bind_io_def post_json_def lift_io_def
        tx_reply_def flip: page_request_def)
qed

text \<open>
  C13: The deployment chain stops at the first failure and never reorders. The requests of
  \<^verbatim>\<open>deployContractChain\<close> are a prefix of: register the address, compile the source, deploy the compiled
  file. All go to the address stored for the connected net; the source is compiled only after the node
  confirmed the address, a file is deployed only if it is the one the compiler named, and success
  means that all three were sent and the node gave a contract address.
\<close>

theorem deploy_chain_order:
  "\<exists>u reqs fname. case deployContractChain W N domain net owner source cfg st h of (answer, h') \<Rightarrow>
       h' = h @ reqs
     \<and> prefix reqs [add_request u owner, compile_request u source, deploy_request u owner cfg fname]
     \<and> (reqs \<noteq> [] \<longrightarrow> (\<exists>e. connected_to st domain net \<and> key_entry st domain net = Some e
           \<and> unlock_url W e = Inr u))
     \<and> (2 \<le> length reqs \<longrightarrow>
          (\<exists>r. reply N h u (snd (add_request u owner)) = Inr r \<and> address_added r))
     \<and> (length reqs = 3 \<longrightarrow>
          (\<exists>r. reply N (h @ [add_request u owner]) u (snd (compile_request u source)) = Inr r
             \<and> oprop (oprop r ''data'') ''compileContract'' = Str fname))
     \<and> (oprop answer ''success'' = Bool True \<longrightarrow>
          length reqs = 3 \<and> truthy (oprop answer ''contractAddress''))"
proof (cases "\<exists>e u. connected_to st domain net \<and> key_entry st domain net = Some e \<and> unlock_url W e = Inr u")
  case False
  then have "\<exists>m. deployContractChain W N domain net owner source cfg st h = (failure m, h)"
    by (cases "key_entry st domain net"; cases "unlock_url W (the (key_entry st domain net))")
      (auto simp: deployContractChain_def respond_def)
  then show ?thesis by (auto simp: failure_not_success intro!: exI [of _ "[]"])
next
  case True
  then obtain e u where e: "connected_to st domain net" "key_entry st domain net = Some e"
      "unlock_url W e = Inr u" by blast
  have d: "deployContractChain W N domain net owner source cfg st h =
      respond (deploy_chain_io N u owner source cfg) h"
    using e by (simp add: deployContractChain_def)
  show ?thesis
  proof (cases rule: chain_cases [of N u owner source cfg h])
    case (one res)
    then show ?thesis using e respond_pair [of "deploy_chain_io N u owner source cfg" h, OF one(1)] unfolding d case_prod_unfold
      by (intro exI [of _ u] exI [of _ "[add_request u owner]"]) simp
  next
    case (two res r)
    then show ?thesis using e respond_pair [of "deploy_chain_io N u owner source cfg" h, OF two(3)] unfolding d case_prod_unfold
      by (intro exI [of _ u] exI [of _ "[add_request u owner, compile_request u source]"]) simp
  next
    case (three res r r' fname)
    then show ?thesis using e respond_pair [of "deploy_chain_io N u owner source cfg" h, OF three(5)] unfolding d case_prod_unfold
      by (intro exI [of _ u] exI [of _ fname]
          exI [of _ "[add_request u owner, compile_request u source, deploy_request u owner cfg fname]"])
        simp
  qed
qed

theorem deploy_chain_order_witness:
  "\<exists>u fname.
     prefix (snd (deployContractChain plain_web echo_node ''a.io'' ''net'' (Str ''O'') (Str ''S'') (Obj [])
       (storeKeys_cb ''a.io'' ''net'' sample_entry empty_storage) []))
       [add_request u (Str ''O''), compile_request u (Str ''S''), deploy_request u (Str ''O'') (Obj []) fname]"
  using deploy_chain_order [where W = plain_web and N = echo_node and domain = "''a.io''" and net = "''net''"
      and owner = "Str ''O''" and source = "Str ''S''" and cfg = "Obj []" and h = "[]"
      and st = "storeKeys_cb ''a.io'' ''net'' sample_entry empty_storage"]
  by (auto simp only: case_prod_unfold append_Nil)

text \<open>
  The source of a contract is not sent faithfully. \<^verbatim>\<open>deployContractChain\<close> escapes quotes and backslashes and then
  puts the result in a block string, where these escapes are not read: whatever source the node reads is the
  escaped text, which differs from the source as soon as that contains a quote or a backslash.
\<close>

lemma compile_source_is_escaped_text:
  assumes "s \<noteq> []" "last s \<noteq> dquote" "last s \<noteq> backslash"
  shows "gql_block (drop 3 (block_quoted (escapeGraphQLString (Str s))) @ rest) = Some (escape_string s, rest)
       \<and> (escape_string s = s \<longleftrightarrow> dquote \<notin> set s \<and> backslash \<notin> set s)"
  using gql_block_escape [of s rest] assms escape_fixed [of s] by (simp add: block_quoted_def)

end
