(* ===== verification/Vault_Content.thy ===== *)
theory Vault_Content
  imports Vault_Transactions
begin

text \<open>
  The content script of the ResVault extension, \<^verbatim>\<open>resvault/public/content.js\<close>: it turns messages of the page into a
  dialogue, sends a transaction to the service worker when the submit button is clicked, and passes the answer
  back to the page. Events are handled one at a time. The browser's HTML parser is a parameter: for the text
  assigned to \<^verbatim>\<open>innerHTML\<close> and a selector it gives the matching elements, as positions in document order.
\<close>

section \<open>Texts\<close>

definition generateLoginModalContent :: string where
  \<open>generateLoginModalContent = text_lines
     [(4, ''<div id="resVaultLoginModalContent" style="''), (6, ''position: fixed; ''), (6, ''top: 50%; ''),
      (6, ''left: 50%; ''), (6, ''transform: translate(-50%, -50%); ''), (6, ''background-color: #0f0638; ''),
      (6, ''padding: 20px; ''), (6, ''border-radius: 10px; ''),
      (6, ''box-shadow: 0 4px 8px rgba(0, 0, 0, 0.1);''), (6, ''z-index: 1001;''),
      (6, ''font-family: Poppins, sans-serif;''), (6, ''width: 300px;''), (4, ''">''),
      (6, ''<div style="width: calc(100%);''), (8, ''padding: 20px;''), (8, ''background-color: #291f57;''),
      (8, ''border-radius: 15px;''), (8, ''margin-bottom: 20px;''),
      (8, ''box-shadow: 5px 5px 35px -14px rgba(0,0,0,.17); ''), (8, ''text-align: center;">''),
      (8, ''<p style="''), (10, ''color: #fff; ''), (10, ''font-size: 14px; ''), (10, ''font-weight: bold;''),
      (10, ''margin: 0;''), (8, ''">''),
      (10, ''Authenticate with Res<span style="color: #47e7ce;">Vault</span>''), (8, ''</p>''),
      (6, ''</div>''), (0, []), (6, ''<div style="display: flex; justify-content: space-between;">''),
      (8, ''<button id="resVaultLoginModalClose" style="''), (10, ''background-color: #291f57;''),
      (10, ''border: 1px #47e7ce solid;''), (10, ''color: white; ''), (10, ''border: none; ''),
      (10, ''padding: 10px 20px; ''), (10, ''border-radius: 5px; ''), (10, ''cursor: pointer;''),
      (10, ''width: 50%;''), (10, ''box-sizing: border-box;''), (10, ''margin-right: 5px;">''),
      (10, ''Close''), (8, ''</button>''), (8, ''<button id="resVaultLoginModalAuthenticate" style="''),
      (10, ''background: linear-gradient(60deg, #47e7ce, #4fa8c4); ''), (10, ''color: white; ''),
      (10, ''border: none; ''), (10, ''padding: 10px 20px; ''), (10, ''border-radius: 5px; ''),
      (10, ''cursor: pointer;''), (10, ''width: 50%;''), (10, ''box-sizing: border-box;">''),
      (10, ''Authenticate''), (8, ''</button>''), (6, ''</div>''), (4, ''</div>''), (2, [])]\<close>

definition custom_content :: "string \<Rightarrow> string" where
  \<open>custom_content msg = text_lines
     [(4, ''<div id="resVaultModalContent" style="''), (6, ''position: fixed; ''), (6, ''top: 50%; ''),
      (6, ''left: 50%; ''), (6, ''transform: translate(-50%, -50%); ''), (6, ''background-color: #0f0638; ''),
      (6, ''padding: 20px; ''), (6, ''border-radius: 10px; ''),
      (6, ''box-shadow: 0 4px 8px rgba(0, 0, 0, 0.1);''), (6, ''z-index: 1001;''),
      (6, ''font-family: Poppins, sans-serif;''), (6, ''width: 300px;''), (4, ''">''),
      (6, ''<div id="resVaultMessageBox" style="width: calc(100%);''), (8, ''padding: 20px;''),
      (8, ''background-color: #291f57;''), (8, ''border-radius: 15px;''), (8, ''margin-bottom: 20px;''),
      (8, ''box-shadow: 5px 5px 35px -14px rgba(0,0,0,.17);">''),
      (8, ''<form id="Form" style="margin: auto;">''),
      (10, ''<div style="width: 100%; margin-bottom: 10px;">''),
      (12, ''<div id="customMessage" style="padding: 0;''), (14, ''width: 100%;''), (14, ''margin: 0;''),
      (14, ''overflow: hidden;''), (14, ''border-radius: 0px;''), (14, ''color: #fff;''),
      (14, ''text-align: center;''), (12, ''">''), (14, ''<p>''), (16, msg), (14, ''</p>''), (12, ''</div>''),
      (10, ''</div>''),
      (10, ''<p id="poweredBy" style="font-size: small; color: #fff">Powered by Res<strong style="color: #47e7ce">Vault</strong></p>''),
      (8, ''</form>''), (6, ''</div>''), (6, ''<span style="display: flex;">''),
      (10, ''<button id="resVaultModalClose" style="''), (12, ''background-color: #291f57;''),
      (12, ''border: none;''), (12, ''color: white; ''), (12, ''padding: 10px 20px; ''),
      (12, ''border-radius: 5px; ''), (12, ''cursor: pointer;''), (12, ''width: 50%;''),
      (12, ''box-sizing: border-box;''), (12, ''margin-right: 5px;">Cancel</button>''),
      (10, ''<button id="resVaultModalSubmit" style="''),
      (12, ''background: linear-gradient(60deg, #47e7ce, #4fa8c4); ''), (12, ''color: white; ''),
      (12, ''border: none; ''), (12, ''padding: 10px 20px; ''), (12, ''border-radius: 5px; ''),
      (12, ''cursor: pointer;''), (12, ''width: 50%;''), (12, ''box-sizing: border-box;">Submit</button>''),
      (6, ''</span>                       ''), (4, ''</div>'')]\<close>

definition commit_content :: "string \<Rightarrow> string \<Rightarrow> string" where
  \<open>commit_content operation amount = text_lines
     [(4, ''<div id="resVaultModalContent" style="''), (6, ''position: fixed; ''), (6, ''top: 50%; ''),
      (6, ''left: 50%; ''), (6, ''transform: translate(-50%, -50%); ''), (6, ''background-color: #0f0638; ''),
      (6, ''padding: 20px; ''), (6, ''border-radius: 10px; ''),
      (6, ''box-shadow: 0 4px 8px rgba(0, 0, 0, 0.1);''), (6, ''z-index: 1001;''),
      (6, ''font-family: Poppins, sans-serif;''), (6, ''width: 300px;''), (4, ''">''),
      (6, ''<div id="resVaultMessageBox" style="width: calc(100%);''), (8, ''padding: 20px;''),
      (8, ''background-color: #291f57;''), (8, ''border-radius: 15px;''), (8, ''margin-bottom: 20px;''),
      (8, ''box-shadow: 5px 5px 35px -14px rgba(0,0,0,.17);">''),
      (8, ''<form id="Form" style="margin: auto;">''),
      (10, ''<div style="width: 100%; margin-bottom: 10px;">''), (12, ''<div style="padding: 0;''),
      (14, ''width: 100%;''), (14, ''margin: 0;''), (14, ''overflow: hidden;''), (14, ''border-radius: 0px;''),
      (14, ''color: #fff;''), (14, ''border-bottom: 1px rgba(255, 255, 255, 0.3) solid;">''), (14, ''<p>''),
      (16, ''Operation: '' @ operation), (14, ''</p>''), (12, ''</div>''), (10, ''</div>''),
      (10, ''<div style="width: 100%;''),
      (12, ''margin-bottom: 10px; display: flex; align-items: center; justify-content: space-between;">''),
      (12, ''<p id="amountDisplay" style="width: calc(((100% / 3) * 2) - 35px);''), (14, ''border: none;''),
      (14, ''background-color: transparent;''), (14, ''padding: 10px 0px;''), (14, ''border-radius: 0px;''),
      (14, ''border-bottom: 1px rgba(255, 255, 255, 0.3) solid;''), (14, ''color: #fff;''),
      (14, ''text-align: center;''), (14, ''">''), (14, amount), (12, ''</p>''),
      (12, ''<div style="display: flex;''), (14, ''align-items: center;">''),
      (14, ''<div style="display: block; font-family: Arial, Helvetica, sans-serif; font-size: 20px; font-weight: bold; color: #f0f0f0; background-color: #808080; border-radius: 50%; width: 30px; height: 30px; display: flex; align-items: center; justify-content: center; margin: 10px; transform: rotate(20deg);">R</div>''),
      (14, ''<span style="color: #fff; font-weight: 600; padding-left: 5px;">RoK</span>''), (12, ''</div>''),
      (10, ''</div>''),
      (10, ''<p style="font-size: small; color: #fff">Powered by Res<strong style="color: #47e7ce">Vault</strong></p>''),
      (8, ''</form>''), (6, ''</div>''), (6, ''<span style="display: flex;">''),
      (10, ''<button id="resVaultModalClose" style="''), (12, ''background-color: #291f57;''),
      (12, ''border: none;''), (12, ''color: white; ''), (12, ''padding: 10px 20px; ''),
      (12, ''border-radius: 5px; ''), (12, ''cursor: pointer;''), (12, ''width: 50%;''),
      (12, ''box-sizing: border-box;''), (12, ''margin-right: 5px;">Cancel</button>''),
      (10, ''<button id="resVaultModalSubmit" style="''),
      (12, ''background: linear-gradient(60deg, #47e7ce, #4fa8c4); ''), (12, ''color: white; ''),
      (12, ''border: none; ''), (12, ''padding: 10px 20px; ''), (12, ''border-radius: 5px; ''),
      (12, ''cursor: pointer;''), (12, ''width: 50%;''), (12, ''box-sizing: border-box;">Submit</button>''),
      (6, ''</span>                       ''), (4, ''</div>'')]\<close>

definition generateModalContent :: "string \<Rightarrow> string \<Rightarrow> bool \<Rightarrow> jv \<Rightarrow> string" where
  "generateModalContent operation amount isCustom customMessage =
     (if isCustom then custom_content (js_text (js_or customMessage (Str [])))
      else commit_content operation amount)"

section \<open>State\<close>

text \<open>
  The styles are the calls \<^verbatim>\<open>element.style.setProperty(name, value, 'important')\<close> since the text was assigned.
\<close>

record modal =
  html :: string
  shown :: bool
  transactionData :: "jv \<times> jv \<times> jv"
  styles_set :: "(nat \<times> string \<times> jv) list"

record page =
  resVaultModal :: "modal option"
  resVaultLoginModal :: "(string \<times> bool) option"
  login_checks :: nat
  to_worker :: "jv list"
  to_page :: "jv list"

definition fresh_page :: page where
  "fresh_page = \<lparr>resVaultModal = None, resVaultLoginModal = None, login_checks = 0, to_worker = [], to_page = []\<rparr>"

section \<open>Styles\<close>

definition allowedSelectors :: "string list" where
  "allowedSelectors = [''#resVaultModalContent'', ''#resVaultMessageBox'', ''#amountDisplay'',
     ''#resVaultModalClose'', ''#resVaultModalSubmit'', ''#customMessage'', ''#poweredBy'']"

definition allowedStyles :: "(string, string list) omap" where
  "allowedStyles =
     [(''#resVaultModalContent'', [''background-color'', ''padding'', ''border-radius'', ''box-shadow'', ''font-family'',
        ''width'', ''position'', ''top'', ''left'', ''transform'', ''z-index'']),
      (''#amountDisplay'', [''color'', ''font-size'', ''text-align'', ''border'', ''background-color'', ''padding'',
        ''border-radius'']),
      (''#resVaultMessageBox'', [''width'', ''padding'', ''background-color'', ''border-radius'', ''margin-bottom'',
        ''box-shadow'']),
      (''#resVaultModalClose'', [''background-color'', ''color'', ''border'', ''padding'', ''border-radius'', ''cursor'',
        ''width'']),
      (''#resVaultModalSubmit'', [''background-color'', ''color'', ''border'', ''padding'', ''border-radius'', ''cursor'',
        ''width'']),
      (''#customMessage'', [''color'', ''font-size'', ''text-align'', ''background-color'', ''padding'', ''border-radius'']),
      (''#poweredBy'', [''color'', ''font-size'', ''text-align''])]"

text \<open>
  \<^verbatim>\<open>for (k in v)\<close>: the index keys of arrays and strings are left out, none of them is an allowed name.
\<close>

fun for_in :: "jv \<Rightarrow> (string \<times> jv) list" where
  "for_in (Obj ps) = ps"
| "for_in _ = []"

type_synonym parser = "string \<Rightarrow> string \<Rightarrow> nat list"

definition style_element :: "string \<Rightarrow> jv \<Rightarrow> nat \<Rightarrow> (nat \<times> string \<times> jv) list" where
  "style_element selector styleObj el =
     (let allowedProperties = (case map_of allowedStyles selector of None \<Rightarrow> [] | Some ps \<Rightarrow> ps)
      in map (\<lambda>(styleName, v). (el, styleName, v))
           (filter (\<lambda>(styleName, v). styleName \<in> set allowedProperties) (for_in styleObj)))"

definition applyStylesToModal :: "parser \<Rightarrow> jv \<Rightarrow> modal \<Rightarrow> modal" where
  "applyStylesToModal query styles m =
     m\<lparr>styles_set := styles_set m @ concat (map (\<lambda>(selector, styleObj).
         if selector \<notin> set allowedSelectors then []
         else concat (map (style_element selector styleObj) (query (html m) selector))) (for_in styles))\<rparr>"

section \<open>Messages of the page\<close>

definition createOrUpdateModal :: "parser \<Rightarrow> string \<Rightarrow> string \<Rightarrow> jv \<times> jv \<times> jv \<Rightarrow> jv \<Rightarrow> bool \<Rightarrow> jv \<Rightarrow>
    page \<Rightarrow> page" where
  "createOrUpdateModal query operation amount td styles isCustom customMessage p =
     p\<lparr>resVaultModal := Some (applyStylesToModal query styles
         \<lparr>html = generateModalContent operation amount isCustom customMessage, shown = True,
          transactionData = td, styles_set = []\<rparr>)\<rparr>"

text \<open>\<^verbatim>\<open>v.trim()\<close> throws unless \<open>v\<close> is a string.\<close>

definition trim_value :: "jv \<Rightarrow> string res" where
  "trim_value v = (case v of Str s \<Rightarrow> Inr (trim s)
     | _ \<Rightarrow> bind_res (jget v ''trim'') (\<lambda>_. Inl (TypeError ''amount.trim is not a function'')))"

definition handleCommitOperation :: "parser \<Rightarrow> jv \<Rightarrow> page \<Rightarrow> page res" where
  "handleCommitOperation query d p =
     (let amount = oprop d ''amount'' in
      bind_res (trim_value amount) (\<lambda>t.
        Inr (if t \<noteq> []
             then createOrUpdateModal query ''COMMIT'' (js_text amount)
                    (amount, oprop d ''data'', oprop d ''recipient'') (oprop d ''styles'') False (Str []) p
             else p)))"

definition handleCustomOperation :: "parser \<Rightarrow> jv \<Rightarrow> page \<Rightarrow> page res" where
  "handleCustomOperation query d p =
     Inr (createOrUpdateModal query [] ''1'' (Str ''1'', oprop d ''data'', oprop d ''recipient'')
            (oprop d ''styles'') True (js_or (oprop d ''customMessage'') (Str [])) p)"

definition createOrUpdateLoginModal :: "page \<Rightarrow> page" where
  "createOrUpdateLoginModal p = p\<lparr>resVaultLoginModal := Some (generateLoginModalContent, True)\<rparr>"

definition on_page_message :: "parser \<Rightarrow> bool \<Rightarrow> jv \<Rightarrow> page \<Rightarrow> page res" where
  "on_page_message query same_window d p =
     (if \<not> same_window then Inr p
      else bind_res (jget d ''direction'') (\<lambda>direction.
        if direction = Str ''commit'' then handleCommitOperation query d p
        else if direction = Str ''login'' then Inr (createOrUpdateLoginModal p)
        else if direction = Str ''custom'' then handleCustomOperation query d p
        else Inr p))"

section \<open>Clicks and answers\<close>

definition sendMessageToPage :: "jv \<Rightarrow> page \<Rightarrow> page" where
  "sendMessageToPage request p =
     p\<lparr>to_page := to_page p @ [Obj [(''type'', Str ''FROM_CONTENT_SCRIPT''), (''data'', request)]]\<rparr>"

definition submit_message :: "jv \<times> jv \<times> jv \<Rightarrow> jv" where
  "submit_message td = (case td of (amount, data, recipient) \<Rightarrow>
     Obj [(''action'', Str ''submitTransaction''), (''amount'', amount), (''data'', data), (''recipient'', recipient)])"

definition handleTransactionSubmit :: "jv \<times> jv \<times> jv \<Rightarrow> page \<Rightarrow> page" where
  "handleTransactionSubmit td p = p\<lparr>to_worker := to_worker p @ [submit_message td]\<rparr>"

definition on_modal_click :: "string \<Rightarrow> page \<Rightarrow> page" where
  "on_modal_click target p =
     (case resVaultModal p of
        None \<Rightarrow> p
      | Some m \<Rightarrow>
          if target = ''resVaultModalClose'' then p\<lparr>resVaultModal := Some (m\<lparr>shown := False\<rparr>)\<rparr>
          else if target = ''resVaultModalSubmit''
          then (handleTransactionSubmit (transactionData m) p)\<lparr>resVaultModal := Some (m\<lparr>shown := False\<rparr>)\<rparr>
          else p)"

text \<open>
  The login dialogue waits for the storage before it goes on: a click on the button starts a check, and
  \<open>on_login_checked\<close> is the rest of the handler.
\<close>

definition hide_login :: "page \<Rightarrow> page" where
  "hide_login p = p\<lparr>resVaultLoginModal := map_option (\<lambda>(t, _). (t, False)) (resVaultLoginModal p)\<rparr>"

definition on_login_click :: "string \<Rightarrow> page \<Rightarrow> page" where
  "on_login_click target p =
     (if resVaultLoginModal p = None then p
      else if target = ''resVaultLoginModalClose'' then hide_login p
      else if target = ''resVaultLoginModalAuthenticate'' then p\<lparr>login_checks := Suc (login_checks p)\<rparr>
      else p)"

definition checkConnectionStatus :: "string \<Rightarrow> 'j storage \<Rightarrow> bool" where
  "checkConnectionStatus hostname st =
     (case map_of (connectedNets st) hostname of
        None \<Rightarrow> False
      | Some net \<Rightarrow> net \<noteq> [] \<and> key_entry st hostname net \<noteq> None)"

definition login_message :: jv where
  "login_message = Obj [(''action'', Str ''submitLoginTransaction'')]"

definition handleLoginTransactionSubmit :: "page \<Rightarrow> page" where
  "handleLoginTransactionSubmit p = p\<lparr>to_worker := to_worker p @ [login_message]\<rparr>"

definition on_login_checked :: "bool \<Rightarrow> page \<Rightarrow> page" where
  "on_login_checked isConnected p =
     (if login_checks p = 0 then p
      else hide_login ((if isConnected then handleLoginTransactionSubmit p else sendMessageToPage (Str ''error'') p)
             \<lparr>login_checks := login_checks p - 1\<rparr>))"

definition on_response :: "jv \<Rightarrow> page \<Rightarrow> page" where
  "on_response response p = (if truthy response then sendMessageToPage response p else p)"

text \<open>A message or a click is what the script sees; it does not look at whether a click is the user's.\<close>

datatype content_event =
    PageMessage bool jv
  | ModalClick string
  | LoginClick string
  | LoginChecked bool
  | Response jv
  | RuntimeMessage jv

fun content_step :: "parser \<Rightarrow> page \<Rightarrow> content_event \<Rightarrow> page" where
  "content_step query p (PageMessage w d) = (case on_page_message query w d p of Inl _ \<Rightarrow> p | Inr p' \<Rightarrow> p')"
| "content_step query p (ModalClick t) = on_modal_click t p"
| "content_step query p (LoginClick t) = on_login_click t p"
| "content_step query p (LoginChecked c) = on_login_checked c p"
| "content_step query p (Response r) = on_response r p"
| "content_step query p (RuntimeMessage r) = sendMessageToPage r p"

section \<open>Specification\<close>

text \<open>
  What the page asks for and what is confirmed, without any dialogue: a request replaces the one before, and
  a click on the submit button sends the current one.
\<close>

fun requested :: "content_event \<Rightarrow> (jv \<times> jv \<times> jv) option" where
  "requested (PageMessage True d) =
     (if oprop d ''direction'' = Str ''commit''
      then (case oprop d ''amount'' of
              Str s \<Rightarrow> if trim s \<noteq> [] then Some (Str s, oprop d ''data'', oprop d ''recipient'') else None
            | _ \<Rightarrow> None)
      else if oprop d ''direction'' = Str ''custom''
      then Some (Str ''1'', oprop d ''data'', oprop d ''recipient'')
      else None)"
| "requested _ = None"

definition confirm_spec :: "(jv \<times> jv \<times> jv) option \<times> jv list \<Rightarrow> content_event \<Rightarrow>
    (jv \<times> jv \<times> jv) option \<times> jv list" where
  "confirm_spec s e =
     (case requested e of
        Some td \<Rightarrow> (Some td, snd s)
      | None \<Rightarrow> if e = ModalClick ''resVaultModalSubmit''
                then (fst s, snd s @ (case fst s of None \<Rightarrow> [] | Some td \<Rightarrow> [submit_message td]))
                else s)"

definition is_submit :: "jv \<Rightarrow> bool" where
  "is_submit m = (oprop m ''action'' = Str ''submitTransaction'')"

definition confirmed :: "page \<Rightarrow> (jv \<times> jv \<times> jv) option \<times> jv list" where
  "confirmed p = (map_option transactionData (resVaultModal p), filter is_submit (to_worker p))"

lemma is_submit_simps [simp]: "is_submit (submit_message td)" "\<not> is_submit login_message"
  by (auto simp: is_submit_def submit_message_def login_message_def own_def split: prod.splits)

lemma transactionData_styles [simp]: "transactionData (applyStylesToModal query st m) = transactionData m"
  by (simp add: applyStylesToModal_def)

lemma page_message_cases:
  obtains (same) "content_step query p (PageMessage w d) = p" "requested (PageMessage w d) = None"
  | (login) "content_step query p (PageMessage w d) = createOrUpdateLoginModal p" "requested (PageMessage w d) = None"
  | (commit) a where "content_step query p (PageMessage w d) =
        createOrUpdateModal query ''COMMIT'' a (Str a, oprop d ''data'', oprop d ''recipient'') (oprop d ''styles'')
          False (Str []) p"
      "requested (PageMessage w d) = Some (Str a, oprop d ''data'', oprop d ''recipient'')"
  | (custom) msg where "content_step query p (PageMessage w d) =
        createOrUpdateModal query [] ''1'' (Str ''1'', oprop d ''data'', oprop d ''recipient'') (oprop d ''styles'')
          True msg p"
      "requested (PageMessage w d) = Some (Str ''1'', oprop d ''data'', oprop d ''recipient'')"
proof (cases "w \<and> is_ok (jget d ''direction'')")
  case False
  then have "requested (PageMessage w d) = None" by (cases w; cases d) auto
  moreover have "content_step query p (PageMessage w d) = p"
    using False by (cases w; cases "jget d ''direction''") (auto simp: on_page_message_def)
  ultimately show thesis by (rule same [rotated])
next
  case True
  then have w: "w" and g: "jget d ''direction'' = Inr (oprop d ''direction'')" by (cases d; auto)+
  consider (commit) "oprop d ''direction'' = Str ''commit''" | (login) "oprop d ''direction'' = Str ''login''"
    | (custom) "oprop d ''direction'' = Str ''custom''"
    | (other) "oprop d ''direction'' \<notin> {Str ''commit'', Str ''login'', Str ''custom''}"
    by blast
  then show thesis
  proof cases
    case commit
    show thesis
    proof (cases "\<exists>a. oprop d ''amount'' = Str a \<and> trim a \<noteq> []")
      case True
      then obtain a where a: "oprop d ''amount'' = Str a" "trim a \<noteq> []" by blast
      show thesis
        by (rule that(3) [of a]) (simp_all add: w g commit a on_page_message_def handleCommitOperation_def trim_value_def)
    next
      case False
      have "content_step query p (PageMessage w d) = p"
        using False by (cases "oprop d ''amount''")
          (auto simp: w g commit on_page_message_def handleCommitOperation_def Let_def trim_value_def)
      moreover have "requested (PageMessage w d) = None"
        using False by (cases "oprop d ''amount''") (auto simp: w commit)
      ultimately show thesis by (rule same)
    qed
  next
    case login
    then show thesis by (intro that(2)) (simp_all add: w g on_page_message_def)
  next
    case custom
    then show thesis by (intro that(4)) (simp_all add: w g on_page_message_def handleCustomOperation_def)
  next
    case other
    then show thesis by (intro same) (simp_all add: w g on_page_message_def)
  qed
qed

lemmas quiet_defs = on_login_click_def on_login_checked_def hide_login_def handleLoginTransactionSubmit_def
  on_response_def sendMessageToPage_def

lemma confirmed_modal: "confirmed (createOrUpdateModal query op a td st c msg p) = (Some td, snd (confirmed p))"
  by (simp add: confirmed_def createOrUpdateModal_def)

lemma confirmed_step: "confirmed (content_step query p e) = confirm_spec (confirmed p) e"
proof (cases e)
  case (PageMessage w d)
  show ?thesis
    unfolding PageMessage
    by (cases rule: page_message_cases [of query p w d])
      (simp_all add: confirm_spec_def confirmed_modal, simp add: confirmed_def createOrUpdateLoginModal_def)
next
  case (ModalClick t)
  then show ?thesis
    by (cases "resVaultModal p")
      (auto simp: confirm_spec_def confirmed_def on_modal_click_def handleTransactionSubmit_def)
qed (auto simp: confirm_spec_def confirmed_def quiet_defs)

interpretation confirmation: simulation "content_step query" confirm_spec confirmed "\<lambda>_. True"
  by unfold_locales (simp_all add: confirmed_step)

section \<open>The dialogue\<close>

definition modal_ok :: "parser \<Rightarrow> modal \<Rightarrow> bool" where
  "modal_ok query m \<longleftrightarrow>
     (\<exists>a d r. transactionData m = (Str a, d, r)
        \<and> (html m = commit_content ''COMMIT'' a \<or> a = ''1'' \<and> (\<exists>msg. html m = custom_content msg)))
   \<and> (\<forall>(el, name, v) \<in> set (styles_set m). \<exists>sel ps. sel \<in> set allowedSelectors
        \<and> el \<in> set (query (html m) sel) \<and> map_of allowedStyles sel = Some ps \<and> name \<in> set ps)"

definition page_ok :: "parser \<Rightarrow> page \<Rightarrow> bool" where
  "page_ok query p = (case resVaultModal p of None \<Rightarrow> True | Some m \<Rightarrow> modal_ok query m)"

lemma allowedStyles_total: "sel \<in> set allowedSelectors \<Longrightarrow> \<exists>ps. map_of allowedStyles sel = Some ps"
  by (auto simp: allowedSelectors_def allowedStyles_def)

lemma styles_confined:
  assumes "(el, name, v) \<in> set (styles_set (applyStylesToModal query st m))" "styles_set m = []"
  shows "\<exists>sel ps. sel \<in> set allowedSelectors \<and> el \<in> set (query (html m) sel)
    \<and> map_of allowedStyles sel = Some ps \<and> name \<in> set ps"
proof -
  obtain sel so where "sel \<in> set allowedSelectors"
      "(el, name, v) \<in> set (concat (map (style_element sel so) (query (html m) sel)))"
    using assms by (auto simp: applyStylesToModal_def split: if_splits)
  then show ?thesis
    using allowedStyles_total [of sel] by (auto simp: style_element_def Let_def)
qed

lemma modal_ok_create:
  assumes "c \<or> opn = ''COMMIT'' \<and> a = amt" "c \<longrightarrow> a = ''1''"
  shows "page_ok query (createOrUpdateModal query opn amt (Str a, d, r) st c msg p)"
proof -
  let ?m = "\<lparr>html = generateModalContent opn amt c msg, shown = True, transactionData = (Str a, d, r), styles_set = []\<rparr>"
  have "html ?m = commit_content ''COMMIT'' a \<or> a = ''1'' \<and> (\<exists>msg. html ?m = custom_content msg)"
    using assms by (auto simp: generateModalContent_def)
  moreover have "html (applyStylesToModal query st ?m) = html ?m" by (simp add: applyStylesToModal_def)
  moreover have "\<forall>(el, name, v) \<in> set (styles_set (applyStylesToModal query st ?m)).
      \<exists>sel ps. sel \<in> set allowedSelectors \<and> el \<in> set (query (html ?m) sel)
        \<and> map_of allowedStyles sel = Some ps \<and> name \<in> set ps"
    using styles_confined [of _ _ _ query st ?m] by auto
  ultimately have "modal_ok query (applyStylesToModal query st ?m)"
    unfolding modal_ok_def transactionData_styles by simp
  then show ?thesis by (simp add: page_ok_def createOrUpdateModal_def)
qed

lemma modal_ok_hide [simp]: "modal_ok query (m\<lparr>shown := b\<rparr>) = modal_ok query m"
  by (simp add: modal_ok_def)

lemma page_ok_login [simp]: "page_ok query (createOrUpdateLoginModal p) = page_ok query p"
  by (simp add: page_ok_def createOrUpdateLoginModal_def)

lemma page_ok_step:
  assumes "page_ok query p"
  shows "page_ok query (content_step query p e)"
proof (cases e)
  case (PageMessage w d)
  have "page_ok query (content_step query p (PageMessage w d))"
  proof (cases rule: page_message_cases [of query p w d])
  qed (simp_all only: modal_ok_create page_ok_login assms simp_thms)
  then show ?thesis by (simp only: PageMessage)
qed (use assms in \<open>auto simp: page_ok_def on_modal_click_def handleTransactionSubmit_def quiet_defs split: option.splits\<close>)

interpretation dialogue: stepper "content_step query" "page_ok query"
  by unfold_locales (rule page_ok_step)

section \<open>Properties\<close>

text \<open>
  C34: Nothing is sent to be signed without a click on the submit button, and what is sent is what the page
  asked for last. In every run the dialogue follows the specification in which a request replaces the one
  before and a click sends the current one; so there are at most as many transactions as such clicks.
\<close>

theorem only_confirmed_requests:
  "confirmed (foldl (content_step query) fresh_page es) = foldl confirm_spec (None, []) es
   \<and> length (filter is_submit (to_worker (foldl (content_step query) fresh_page es)))
       \<le> length (filter (\<lambda>e. e = ModalClick ''resVaultModalSubmit'') es)"
proof -
  let ?p = "foldl (content_step query) fresh_page es"
  have c: "confirmed ?p = foldl confirm_spec (None, []) es"
    using confirmation.run_follows [where s = fresh_page and es = es and query = query] by (simp add: confirmed_def fresh_page_def)
  have "length (snd (foldl confirm_spec s es)) \<le>
      length (snd s) + length (filter (\<lambda>e. e = ModalClick ''resVaultModalSubmit'') es)" for s
  proof (induction es arbitrary: s)
    case (Cons e es)
    have "length (snd (confirm_spec s e)) \<le> length (snd s) + (if e = ModalClick ''resVaultModalSubmit'' then 1 else 0)"
      by (auto simp: confirm_spec_def split: option.splits)
    with Cons [of "confirm_spec s e"] show ?case by (cases "e = ModalClick ''resVaultModalSubmit''") auto
  qed simp
  moreover have "filter is_submit (to_worker ?p) = snd (foldl confirm_spec (None, []) es)"
    using c by (metis confirmed_def snd_conv)
  ultimately show ?thesis using c by (metis add_0 list.size(3) snd_conv)
qed


definition sample_request :: content_event where
  "sample_request = PageMessage True (Obj [(''direction'', Str ''commit''), (''amount'', Str ''5''),
     (''data'', Null), (''recipient'', Str ''R''),
     (''styles'', Obj [(''#amountDisplay'', Obj [(''color'', Str ''red''), (''display'', Str ''none'')])])])"


end
