(* ===== verification/Vault_SDK.thy ===== *)
theory Vault_SDK
  imports Vault_Content
begin

text \<open>
  The library a page uses to talk to the extension, \<^verbatim>\<open>resvault-sdk/src/resvault-sdk.ts\<close>. Handlers are names; what a
  handler does to the library while it runs, adding or removing handlers, is a parameter.
\<close>

section \<open>Operations\<close>

record 'h sdk =
  targetOrigin :: string
  messageHandlers :: "'h list"
  listening :: bool

definition new_sdk :: "string option \<Rightarrow> 'h sdk" where
  "new_sdk origin = \<lparr>targetOrigin = (case origin of None \<Rightarrow> ''*'' | Some s \<Rightarrow> s), messageHandlers = [], listening = False\<rparr>"

text \<open>A message posted to the window, with the origin it is addressed to.\<close>

definition sendMessage :: "'h sdk \<Rightarrow> jv \<Rightarrow> jv \<times> string" where
  "sendMessage s message = (message, targetOrigin s)"

definition default_obj :: "jv \<Rightarrow> jv" where
  "default_obj v = (if v = Undefined then Obj [] else v)"

definition commitTransaction :: "'h sdk \<Rightarrow> jv \<Rightarrow> jv \<Rightarrow> jv \<Rightarrow> jv \<Rightarrow> jv \<times> string" where
  "commitTransaction s amount data recipient styles =
     sendMessage s (Obj [(''type'', Str ''commit''), (''direction'', Str ''commit''), (''amount'', amount),
       (''data'', data), (''recipient'', recipient), (''styles'', default_obj styles)])"

definition customTransaction :: "'h sdk \<Rightarrow> jv \<Rightarrow> jv \<Rightarrow> jv \<Rightarrow> jv \<Rightarrow> jv \<times> string" where
  "customTransaction s data recipient customMessage styles =
     sendMessage s (Obj [(''type'', Str ''custom''), (''direction'', Str ''custom''), (''data'', data),
       (''recipient'', recipient), (''customMessage'', customMessage), (''styles'', default_obj styles)])"

text \<open>\<^term>\<open>None\<close> stands for a handler that is not a function.\<close>

definition addMessageListener :: "'h option \<Rightarrow> 'h sdk \<Rightarrow> 'h sdk res" where
  "addMessageListener handler s =
     (case handler of
        None \<Rightarrow> Inl (Error ''Handler must be a function'')
      | Some h \<Rightarrow>
          (let s' = s\<lparr>messageHandlers := messageHandlers s @ [h]\<rparr>
           in Inr (if length (messageHandlers s') = 1 then s'\<lparr>listening := True\<rparr> else s')))"

definition removeMessageListener :: "'h \<Rightarrow> 'h sdk \<Rightarrow> 'h sdk" where
  "removeMessageListener h s =
     (let s' = s\<lparr>messageHandlers := remove1 h (messageHandlers s)\<rparr>
      in if messageHandlers s' = [] then s'\<lparr>listening := False\<rparr> else s')"

text \<open>
  The loop over the handlers reads the live array by index, so a handler may shorten or lengthen it. The
  result is the state and the handlers that were called; \<^term>\<open>None\<close> means that the loop never ends.
\<close>

partial_function (option) call_from :: "('h \<Rightarrow> 'h sdk \<Rightarrow> 'h sdk) \<Rightarrow> nat \<Rightarrow> 'h sdk \<Rightarrow> 'h list \<Rightarrow> ('h sdk \<times> 'h list) option" where
  "call_from act i s called =
     (if i < length (messageHandlers s)
      then call_from act (Suc i) (act (messageHandlers s ! i) s) (called @ [messageHandlers s ! i])
      else Some (s, called))"

definition handleMessage :: "('h \<Rightarrow> 'h sdk \<Rightarrow> 'h sdk) \<Rightarrow> bool \<Rightarrow> jv \<Rightarrow> 'h sdk \<Rightarrow> ('h sdk \<times> 'h list) option" where
  "handleMessage act same_window d s =
     (if same_window \<and> truthy d \<and> oprop d ''type'' = Str ''FROM_CONTENT_SCRIPT''
      then call_from act 0 s [] else Some (s, []))"

text \<open>The window calls the library only while its listener is registered.\<close>

definition window_message :: "('h \<Rightarrow> 'h sdk \<Rightarrow> 'h sdk) \<Rightarrow> bool \<Rightarrow> jv \<Rightarrow> 'h sdk \<Rightarrow> ('h sdk \<times> 'h list) option" where
  "window_message act same_window d s = (if listening s then handleMessage act same_window d s else Some (s, []))"

section \<open>Lemmas\<close>

datatype 'h sdk_op = Add "'h option" | Remove 'h

fun sdk_step :: "'h sdk \<Rightarrow> 'h sdk_op \<Rightarrow> 'h sdk" where
  "sdk_step s (Add h) = (case addMessageListener h s of Inl _ \<Rightarrow> s | Inr s' \<Rightarrow> s')"
| "sdk_step s (Remove h) = removeMessageListener h s"

definition sdk_ok :: "'h sdk \<Rightarrow> bool" where
  "sdk_ok s = (listening s \<longleftrightarrow> messageHandlers s \<noteq> [])"

fun handlers_spec :: "'h list \<Rightarrow> 'h sdk_op \<Rightarrow> 'h list" where
  "handlers_spec hs (Add None) = hs"
| "handlers_spec hs (Add (Some h)) = hs @ [h]"
| "handlers_spec hs (Remove h) = remove1 h hs"

lemma sdk_step_handlers: "messageHandlers (sdk_step s x) = handlers_spec (messageHandlers s) x"
  by (cases "(messageHandlers s, x)" rule: handlers_spec.cases)
    (auto simp: addMessageListener_def removeMessageListener_def Let_def)

lemma sdk_step_ok: "sdk_ok s \<Longrightarrow> sdk_ok (sdk_step s x)"
  by (cases "(messageHandlers s, x)" rule: handlers_spec.cases)
    (auto simp: addMessageListener_def removeMessageListener_def Let_def sdk_ok_def)

interpretation handlers: simulation sdk_step handlers_spec messageHandlers sdk_ok
  by unfold_locales (simp_all add: sdk_step_ok sdk_step_handlers)

lemma call_from_pure:
  assumes "\<And>h. act h s = s" "i \<le> length (messageHandlers s)"
  shows "call_from act i s called = Some (s, called @ drop i (messageHandlers s))"
  using assms(2)
proof (induction "length (messageHandlers s) - i" arbitrary: i called)
  case 0
  then show ?case by (simp add: call_from.simps)
next
  case (Suc n)
  then have "i < length (messageHandlers s)" by simp
  with Suc show ?case by (simp add: call_from.simps [of act i] assms(1) flip: Cons_nth_drop_Suc)
qed

text \<open>The window's view of a message that the content script posted.\<close>

lemma content_message_type: "truthy (Obj [(''type'', Str ''FROM_CONTENT_SCRIPT''), (''data'', r)])"
    "oprop (Obj [(''type'', Str ''FROM_CONTENT_SCRIPT''), (''data'', r)]) ''type'' = Str ''FROM_CONTENT_SCRIPT''"
  by (simp_all add: own_def)

lemma window_message_delivers:
  assumes "sdk_ok s" "\<And>h. act h s = s"
  shows "window_message act True (Obj [(''type'', Str ''FROM_CONTENT_SCRIPT''), (''data'', r)]) s
    = Some (s, messageHandlers s)"
  using assms call_from_pure [of act s 0 "[]"]
  by (auto simp: window_message_def handleMessage_def content_message_type sdk_ok_def own_def)

text \<open>A handler that removes itself, as \<^verbatim>\<open>once\<close> listeners do, makes the handler after it miss the message.\<close>

lemma self_removal_skips:
  fixes a b :: 'h
  assumes "a \<noteq> b"
  defines "s \<equiv> \<lparr>targetOrigin = ''*'', messageHandlers = [a, b], listening = True\<rparr>"
  shows "window_message (\<lambda>h. if h = a then removeMessageListener a else id) True
     (Obj [(''type'', Str ''FROM_CONTENT_SCRIPT''), (''data'', r)]) s
    = Some (\<lparr>targetOrigin = ''*'', messageHandlers = [b], listening = True\<rparr>, [a])"
  by (simp add: s_def window_message_def handleMessage_def own_def call_from.simps removeMessageListener_def)

lemma commit_opens:
  assumes "trim a \<noteq> []"
  shows "\<exists>m. content_step query p (PageMessage True (fst (commitTransaction s (Str a) data recipient styles)))
      = p\<lparr>resVaultModal := Some m\<rparr> \<and> shown m \<and> html m = commit_content ''COMMIT'' a
    \<and> transactionData m = (Str a, data, recipient)"
  using assms by (auto simp: commitTransaction_def sendMessage_def on_page_message_def handleCommitOperation_def
    trim_value_def own_def createOrUpdateModal_def applyStylesToModal_def generateModalContent_def Let_def)

section \<open>Properties\<close>



end
