(* ===== verification/JS_JSON.thy ===== *)
theory JS_JSON
  imports JS_String JS_Number
begin

text \<open>
  \<^verbatim>\<open>JSON.stringify\<close> and \<^verbatim>\<open>JSON.parse\<close>. The printer covers every value except numbers that are not
  integers of at most 21 digits; the parser covers the JSON grammar, with numbers rounded to doubles and
  \<^verbatim>\<open>\u\<close> escapes up to \<^verbatim>\<open>00ff\<close>. The parser runs on fuel bounded by the length of the text. The round trip is
  proved for every value JSON can represent exactly.
\<close>

section \<open>Printing\<close>

definition hex_low :: "nat \<Rightarrow> char" where
  "hex_low n = (if n < 10 then char_of (48 + n) else char_of (87 + n))"

definition esc_char :: "char \<Rightarrow> string" where
  "esc_char c =
     (if c = dquote \<or> c = backslash then [backslash, c]
      else if code c = 8 then [backslash, CHR ''b'']
      else if code c = 9 then [backslash, CHR ''t'']
      else if code c = 10 then [backslash, CHR ''n'']
      else if code c = 12 then [backslash, CHR ''f'']
      else if code c = 13 then [backslash, CHR ''r'']
      else if code c < 32
      then [backslash, CHR ''u'', CHR ''0'', CHR ''0'', hex_low (code c div 16), hex_low (code c mod 16)]
      else [c])"

definition json_string :: "string \<Rightarrow> string" where
  "json_string s = dquote # concat (map esc_char s) @ [dquote]"

fun opt_list :: "'a option list \<Rightarrow> 'a list option" where
  "opt_list [] = Some []"
| "opt_list (None # xs) = None"
| "opt_list (Some x # xs) = map_option ((#) x) (opt_list xs)"

definition is_undefined :: "jv \<Rightarrow> bool" where
  "is_undefined v = (v = Undefined)"

text \<open>\<^term>\<open>None\<close>: the result is undefined.\<close>

fun stringify :: "jv \<Rightarrow> string option" where
  "stringify Undefined = None"
| "stringify Null = Some ''null''"
| "stringify (Bool b) = Some (if b then ''true'' else ''false'')"
| "stringify (Num x) = Some (show_num x)"
| "stringify NaN = Some ''null''"
| "stringify (Str s) = Some (json_string s)"
| "stringify (Arr xs) =
     map_option (\<lambda>ts. CHR ''['' # join '','' ts @ '']'')
       (opt_list (map (\<lambda>v. if v = Undefined then Some ''null'' else stringify v) xs))"
| "stringify (Obj ps) =
     map_option (\<lambda>ts. CHR ''{'' # join '','' ts @ ''}'')
       (opt_list (map (\<lambda>(k, v). map_option (\<lambda>t. json_string k @ '':'' @ t) (stringify v))
         (filter (\<lambda>(k, v). v \<noteq> Undefined) ps)))"

text \<open>\<^verbatim>\<open>JSON.stringify(v, null, 2)\<close> at indentation \<open>d\<close>.\<close>

definition line_break :: "nat \<Rightarrow> string" where
  "line_break d = newline # replicate d (CHR '' '')"

fun pretty :: "nat \<Rightarrow> jv \<Rightarrow> string option" where
  "pretty d (Arr []) = Some ''[]''"
| "pretty d (Arr (x # xs)) =
     map_option (\<lambda>ts. ''['' @ line_break (d + 2) @ join ('','' @ line_break (d + 2)) ts @ line_break d @ '']'')
       (opt_list (map (\<lambda>v. if v = Undefined then Some ''null'' else pretty (d + 2) v) (x # xs)))"
| "pretty d (Obj ps) =
     (if filter (\<lambda>(k, v). v \<noteq> Undefined) ps = [] then Some ''{}''
      else map_option
        (\<lambda>ts. ''{'' @ line_break (d + 2) @ join ('','' @ line_break (d + 2)) ts @ line_break d @ ''}'')
        (opt_list (map (\<lambda>(k, v). map_option (\<lambda>t. json_string k @ '': '' @ t) (pretty (d + 2) v))
          (filter (\<lambda>(k, v). v \<noteq> Undefined) ps))))"
| "pretty d v = stringify v"

section \<open>Parsing\<close>

definition json_ws :: "char \<Rightarrow> bool" where
  "json_ws c = (code c = 32 \<or> code c = 9 \<or> code c = 10 \<or> code c = 13)"

definition skip_ws :: "string \<Rightarrow> string" where
  "skip_ws s = dropWhile json_ws s"

definition unesc :: "char \<Rightarrow> char option" where
  "unesc d =
     (if d = dquote \<or> d = backslash \<or> d = CHR ''/'' then Some d
      else if d = CHR ''b'' then Some (char_of (8 :: nat))
      else if d = CHR ''t'' then Some (char_of (9 :: nat))
      else if d = CHR ''n'' then Some (char_of (10 :: nat))
      else if d = CHR ''f'' then Some (char_of (12 :: nat))
      else if d = CHR ''r'' then Some (char_of (13 :: nat)) else None)"

text \<open>The body of a string up to its closing quote, and the rest of the text.\<close>

fun parse_str :: "string \<Rightarrow> (string \<times> string) option" where
  "parse_str [] = None"
| "parse_str (c # s) =
     (if c = dquote then Some ([], s)
      else if c = backslash then
        (case s of
           [] \<Rightarrow> None
         | d # t \<Rightarrow>
             if d = CHR ''u'' then
               (case t of
                  h1 # h2 # h3 # h4 # r \<Rightarrow>
                    if h1 = CHR ''0'' \<and> h2 = CHR ''0'' \<and> is_hex h3 \<and> is_hex h4
                    then map_option (\<lambda>(u, q). (char_of (16 * hex_val h3 + hex_val h4) # u, q)) (parse_str r)
                    else None
                | _ \<Rightarrow> None)
             else (case unesc d of
                     None \<Rightarrow> None
                   | Some x \<Rightarrow> map_option (\<lambda>(u, q). (x # u, q)) (parse_str t)))
      else if code c < 32 then None
      else map_option (\<lambda>(u, q). (c # u, q)) (parse_str s))"

text \<open>A number: optional sign, integer part without leading zeros, fraction, exponent.\<close>

definition int_part :: "string \<Rightarrow> (string \<times> string) option" where
  "int_part s =
     (let ds = takeWhile is_digit s
      in if ds = [] \<or> (hd ds = CHR ''0'' \<and> tl ds \<noteq> []) then None
         else Some (ds, dropWhile is_digit s))"

definition frac_part :: "string \<Rightarrow> (string \<times> string) option" where
  "frac_part s =
     (if s \<noteq> [] \<and> hd s = CHR ''.''
      then (let ds = takeWhile is_digit (tl s)
            in if ds = [] then None else Some (ds, dropWhile is_digit (tl s)))
      else Some ([], s))"

definition exp_part :: "string \<Rightarrow> (int \<times> string) option" where
  "exp_part s =
     (if s \<noteq> [] \<and> (hd s = CHR ''e'' \<or> hd s = CHR ''E'')
      then (let neg = (tl s \<noteq> [] \<and> hd (tl s) = CHR ''-'');
                t = (if tl s \<noteq> [] \<and> (hd (tl s) = CHR ''-'' \<or> hd (tl s) = CHR ''+'') then tl (tl s) else tl s);
                ds = takeWhile is_digit t
            in if ds = [] then None
               else Some (if neg then - int (digits_val ds) else int (digits_val ds), dropWhile is_digit t))
      else Some (0, s))"

definition parse_num :: "string \<Rightarrow> (jv \<times> string) option" where
  "parse_num s =
     (let neg = (s \<noteq> [] \<and> hd s = CHR ''-'') in
      case int_part (if neg then tl s else s) of
        None \<Rightarrow> None
      | Some (ds, r1) \<Rightarrow>
          (case frac_part r1 of
             None \<Rightarrow> None
           | Some (fs, r2) \<Rightarrow>
               (case exp_part r2 of
                  None \<Rightarrow> None
                | Some (e, r3) \<Rightarrow>
                    (let x = scale10 (of_nat (digits_val (ds @ fs))) (e - int (length fs))
                     in Some (Num (fl (if neg then - x else x)), r3)))))"

fun parse_val :: "nat \<Rightarrow> string \<Rightarrow> (jv \<times> string) option"
  and parse_elems :: "nat \<Rightarrow> string \<Rightarrow> (jv list \<times> string) option"
  and parse_members :: "nat \<Rightarrow> (string \<times> jv) list \<Rightarrow> string \<Rightarrow> ((string \<times> jv) list \<times> string) option"
where
  "parse_val 0 s = None"
| "parse_val (Suc n) s =
     (case skip_ws s of
        [] \<Rightarrow> None
      | c # t \<Rightarrow>
          if c = dquote then map_option (\<lambda>(u, r). (Str u, r)) (parse_str t)
          else if c = CHR ''['' then
            (case skip_ws t of
               [] \<Rightarrow> None
             | d # r \<Rightarrow> if d = CHR '']'' then Some (Arr [], r)
                        else map_option (\<lambda>(xs, q). (Arr xs, q)) (parse_elems n t))
          else if c = CHR ''{'' then
            (case skip_ws t of
               [] \<Rightarrow> None
             | d # r \<Rightarrow> if d = CHR ''}'' then Some (Obj [], r)
                        else map_option (\<lambda>(ps, q). (Obj ps, q)) (parse_members n [] t))
          else if starts_with (c # t) ''null'' then Some (Null, drop 3 t)
          else if starts_with (c # t) ''true'' then Some (Bool True, drop 3 t)
          else if starts_with (c # t) ''false'' then Some (Bool False, drop 4 t)
          else parse_num (c # t))"
| "parse_elems 0 s = None"
| "parse_elems (Suc n) s =
     (case parse_val n s of
        None \<Rightarrow> None
      | Some (v, r) \<Rightarrow>
          (case skip_ws r of
             [] \<Rightarrow> None
           | d # q \<Rightarrow> if d = CHR '','' then map_option (\<lambda>(xs, z). (v # xs, z)) (parse_elems n q)
                      else if d = CHR '']'' then Some ([v], q) else None))"
| "parse_members 0 acc s = None"
| "parse_members (Suc n) acc s =
     (case skip_ws s of
        [] \<Rightarrow> None
      | c # t \<Rightarrow>
          if c \<noteq> dquote then None
          else (case parse_str t of
             None \<Rightarrow> None
           | Some (k, r) \<Rightarrow>
               (case skip_ws r of
                  [] \<Rightarrow> None
                | d # q \<Rightarrow>
                    if d \<noteq> CHR '':'' then None
                    else (case parse_val n q of
                       None \<Rightarrow> None
                     | Some (v, z) \<Rightarrow>
                         (case skip_ws z of
                            [] \<Rightarrow> None
                          | e # y \<Rightarrow>
                              if e = CHR '','' then parse_members n (oset k v acc) y
                              else if e = CHR ''}'' then Some (oset k v acc, y) else None)))))"

definition json_parse :: "string \<Rightarrow> jv option" where
  "json_parse s =
     (case parse_val (Suc (length s)) s of
        Some (v, r) \<Rightarrow> if skip_ws r = [] then Some v else None
      | None \<Rightarrow> None)"

section \<open>Round trip\<close>

fun json_ok :: "jv \<Rightarrow> bool" where
  "json_ok Undefined = False"
| "json_ok Null = True"
| "json_ok (Bool b) = True"
| "json_ok (Num x) = (of_int \<lfloor>x\<rfloor> = x \<and> safe \<lfloor>x\<rfloor>)"
| "json_ok NaN = False"
| "json_ok (Str s) = True"
| "json_ok (Arr xs) = (\<forall>v \<in> set xs. json_ok v)"
| "json_ok (Obj ps) = (distinct (map fst ps) \<and> (\<forall>(k, v) \<in> set ps. json_ok v))"

fun jfuel :: "jv \<Rightarrow> nat" where
  "jfuel (Arr xs) = Suc (sum_list (map (\<lambda>v. Suc (jfuel v)) xs))"
| "jfuel (Obj ps) = Suc (sum_list (map (\<lambda>(k, v). Suc (jfuel v)) ps))"
| "jfuel _ = 1"

definition delim :: "string \<Rightarrow> bool" where
  "delim r = (r = [] \<or> hd r \<in> {CHR '','', CHR '']'', CHR ''}'', newline})"

lemma delim_simps [simp]: "delim []" "delim (CHR '','' # r)" "delim (CHR '']'' # r)" "delim (CHR ''}'' # r)"
  "delim (newline # r)"
  by (simp_all add: delim_def)

lemma hex_val_low: "n < 16 \<Longrightarrow> is_hex (hex_low n) \<and> hex_val (hex_low n) = n"
  by (auto simp: hex_low_def is_hex_def is_digit_def hex_val_def)

lemma parse_str_esc: "parse_str (esc_char c @ s) = map_option (\<lambda>(u, q). (c # u, q)) (parse_str s)"
proof -
  have c: "c = char_of (code c)" by simp
  have bd: "backslash \<noteq> dquote" "CHR ''u'' \<noteq> dquote" "CHR ''u'' \<noteq> backslash"
    by (simp_all add: char_defs)
  consider "c = dquote \<or> c = backslash" | "code c = 8" | "code c = 9" | "code c = 10" | "code c = 12"
    | "code c = 13" | "c \<noteq> dquote" "c \<noteq> backslash" "code c < 32" "code c \<notin> {8, 9, 10, 12, 13}"
    | "c \<noteq> dquote" "c \<noteq> backslash" "\<not> code c < 32" by blast
  then show ?thesis
  proof cases
    case 1
    then show ?thesis by (auto simp: esc_char_def unesc_def char_defs)
  next
    case 7
    have h: "is_hex (hex_low (code c div 16))" "is_hex (hex_low (code c mod 16))"
      "hex_val (hex_low (code c div 16)) = code c div 16" "hex_val (hex_low (code c mod 16)) = code c mod 16"
      using 7(3) by (simp_all add: hex_val_low)
    have "char_of (16 * (code c div 16) + code c mod 16) = c"
      by (simp only: mult_div_mod_eq) simp
    with 7 h bd show ?thesis by (simp add: esc_char_def)
  next
    case 8
    then show ?thesis by (auto simp: esc_char_def)
  qed (auto simp: esc_char_def unesc_def char_defs, (metis c)+)
qed

lemma parse_str_body: "parse_str (concat (map esc_char s) @ dquote # r) = Some (s, r)"
  by (induction s) (simp_all add: parse_str_esc)

lemma skip_ws_plain: "s \<noteq> [] \<Longrightarrow> \<not> json_ws (hd s) \<Longrightarrow> skip_ws s = s"
  by (cases s) (simp_all add: skip_ws_def)

lemma show_nat_hd0: "hd (show_nat n) = CHR ''0'' \<Longrightarrow> tl (show_nat n) = []"
proof (induction n rule: show_nat.induct)
  case (1 n)
  show ?case
  proof (cases "n < 10")
    case False
    have e: "show_nat n = show_nat (n div 10) @ [digit (n mod 10)]"
      using False by (subst show_nat.simps) simp
    have "hd (show_nat (n div 10)) = CHR ''0''" using 1(2) e by simp
    then have "tl (show_nat (n div 10)) = []" using 1(1) False by simp
    then have s: "show_nat (n div 10) = ''0''"
      using \<open>hd (show_nat (n div 10)) = CHR ''0''\<close> by (cases "show_nat (n div 10)") auto
    have "n div 10 = 0" using digits_val_show_nat [of "n div 10"] unfolding s
      by (simp add: digits_val_def digit_val_def)
    with False show ?thesis by simp
  qed (subst show_nat.simps, simp)
qed

lemma parse_num_show:
  assumes "safe i" "delim r"
  shows "parse_num (show_int i @ r) = Some (Num (of_int i), r)"
proof -
  have r: "r = [] \<or> \<not> is_digit (hd r)" "\<not> (r \<noteq> [] \<and> hd r = CHR ''.'')"
    "\<not> (r \<noteq> [] \<and> (hd r = CHR ''e'' \<or> hd r = CHR ''E''))"
    using assms(2) by (auto simp: delim_def is_digit_def newline_def)
  have tw: "takeWhile is_digit (show_nat n @ r) = show_nat n" for n
    by (rule takeWhile_digits [OF show_nat_digits r(1)])
  then have dw: "dropWhile is_digit (show_nat n @ r) = r" for n
    by (metis append_same_eq takeWhile_dropWhile_id append_eq_append_conv)
  have ip: "int_part (show_nat n @ r) = Some (show_nat n, r)" for n
    using show_nat_hd0 [of n] by (auto simp: int_part_def tw dw Let_def)
  have fp: "frac_part r = Some ([], r)" "exp_part r = Some (0, r)"
    using r(2,3) by (auto simp: frac_part_def exp_part_def)
  have d: "is_digit (hd (show_nat n))" for n
    using show_nat_digits [of n] by (metis hd_in_set mem_Collect_eq show_nat_ne subsetD)
  have nm: "hd (show_nat n) \<noteq> CHR ''-''" for n using digit_sign_free [OF d [of n]] by blast
  show ?thesis
    using fl_safe [OF assms(1)] nm [of "nat i"]
    by (auto simp: parse_num_def show_int_def ip fp Let_def scale10_def)
qed

text \<open>The text prints the value: the parser reads it back in front of any delimiter.\<close>

definition prints :: "jv \<Rightarrow> string \<Rightarrow> bool" where
  "prints v t \<longleftrightarrow> jfuel v \<le> length t \<and> t \<noteq> [] \<and> \<not> json_ws (hd t) \<and> hd t \<noteq> CHR '']'' \<and> hd t \<noteq> CHR ''}''
     \<and> (\<forall>n r. jfuel v \<le> n \<longrightarrow> delim r \<longrightarrow> parse_val n (t @ r) = Some (v, r))"

lemma printsD:
  assumes "prints v t"
  shows "jfuel v \<le> length t" "t \<noteq> []" "\<not> json_ws (hd t)" "hd t \<noteq> CHR '']''" "hd t \<noteq> CHR ''}''"
    "jfuel v \<le> n \<Longrightarrow> delim r \<Longrightarrow> parse_val n (t @ r) = Some (v, r)"
  using assms by (auto simp: prints_def)

lemma prints_atom:
  assumes "jfuel v = 1" "t \<noteq> []" "\<not> json_ws (hd t)" "hd t \<noteq> CHR '']''" "hd t \<noteq> CHR ''}''"
    and "\<And>n r. delim r \<Longrightarrow> parse_val (Suc n) (t @ r) = Some (v, r)"
  shows "prints v t"
proof -
  have "parse_val n (t @ r) = Some (v, r)" if "1 \<le> n" "delim r" for n r
    using assms(6) [OF that(2), of "n - 1"] that(1) by simp
  with assms(1-5) show ?thesis by (simp add: prints_def Suc_leI)
qed

lemma ws_simps [simp]:
  "\<not> json_ws dquote" "\<not> json_ws (CHR ''['')" "\<not> json_ws (CHR ''{'')" "\<not> json_ws (CHR '','')"
  "\<not> json_ws (CHR '']'')" "\<not> json_ws (CHR ''}'')" "\<not> json_ws (CHR '':'')"
  by (simp_all add: json_ws_def dquote_def)

lemma skip_ws_Cons [simp]: "\<not> json_ws c \<Longrightarrow> skip_ws (c # s) = c # s"
  by (simp add: skip_ws_def)

lemma prints_string: "prints (Str s) (json_string s)"
proof (rule prints_atom)
  fix n r
  show "parse_val (Suc n) (json_string s @ r) = Some (Str s, r)"
    using parse_str_body [of s r] by (simp add: json_string_def)
qed (simp_all add: json_string_def, simp_all add: dquote_def)

lemma show_int_hd: "is_digit (hd (show_int i)) \<or> hd (show_int i) = CHR ''-''"
proof -
  have "is_digit (hd (show_nat (nat i)))"
    using show_nat_digits [of "nat i"] hd_in_set [OF show_nat_ne] by blast
  then show ?thesis by (simp add: show_int_def)
qed

lemma prints_num:
  assumes "safe i"
  shows "prints (Num (of_int i)) (show_int i)"
proof (rule prints_atom)
  have ne: "show_int i \<noteq> []" by (simp add: show_int_def)
  then show "show_int i \<noteq> []" .
  obtain c t where ct: "show_int i = c # t" using ne by (cases "show_int i") auto
  have c: "is_digit c \<or> c = CHR ''-''" using show_int_hd [of i] ct by simp
  then show "\<not> json_ws (hd (show_int i))" "hd (show_int i) \<noteq> CHR '']''" "hd (show_int i) \<noteq> CHR ''}''"
    by (auto simp: ct json_ws_def is_digit_def)
  fix n r assume r: "delim r"
  have w: "\<not> json_ws c" "c \<noteq> dquote" "c \<noteq> CHR ''[''" "c \<noteq> CHR ''{''" "c \<noteq> CHR ''n''" "c \<noteq> CHR ''t''"
    "c \<noteq> CHR ''f''"
    using c by (auto simp: json_ws_def is_digit_def char_defs)
  show "parse_val (Suc n) (show_int i @ r) = Some (Num (of_int i), r)"
    using parse_num_show [OF assms r] w by (simp add: ct starts_with_def)
qed simp

text \<open>White space that may stand before a token, and before a closing bracket.\<close>

definition spaces :: "string \<Rightarrow> bool" where
  "spaces w = (\<forall>c \<in> set w. json_ws c)"

definition gap :: "string \<Rightarrow> bool" where
  "gap e = (spaces e \<and> (e = [] \<or> hd e = newline))"

lemma spaces_simps [simp]: "spaces []" "spaces (line_break d)" "spaces '' ''" "gap []" "gap (line_break d)"
  by (simp_all add: spaces_def gap_def line_break_def json_ws_def newline_def)

lemma gap_spaces: "gap e \<Longrightarrow> spaces e"
  by (simp add: gap_def)

lemma delim_gap: "gap e \<Longrightarrow> delim r \<Longrightarrow> delim (e @ r)"
  by (cases e) (auto simp: gap_def)

lemma skip_ws_spaces [simp]: "spaces w \<Longrightarrow> skip_ws (w @ s) = skip_ws s"
  by (simp add: skip_ws_def spaces_def dropWhile_append2)

lemma parse_val_spaces: "spaces w \<Longrightarrow> parse_val n (w @ s) = parse_val n s"
  by (cases n) simp_all

lemma parse_elems_spaces: "spaces w \<Longrightarrow> parse_elems n (w @ s) = parse_elems n s"
  by (cases n) (simp_all add: parse_val_spaces)

lemma parse_members_spaces: "spaces w \<Longrightarrow> parse_members n acc (w @ s) = parse_members n acc s"
  by (cases n) simp_all

lemma parse_elems_join:
  assumes "list_all2 prints xs ts" "xs \<noteq> []" "sum_list (map (\<lambda>v. Suc (jfuel v)) xs) \<le> n"
    and w: "spaces w" "gap e"
  shows "parse_elems n (join ('','' @ w) ts @ e @ CHR '']'' # r) = Some (xs, r)"
  using assms(1-3)
proof (induction xs ts arbitrary: n rule: list_all2_induct)
  case (Cons v xs t ts)
  obtain m where n: "n = Suc m" "jfuel v \<le> m" "sum_list (map (\<lambda>v. Suc (jfuel v)) xs) \<le> m"
    using Cons.prems by (cases n) auto
  show ?case
  proof (cases ts)
    case Nil
    then have "xs = []" using Cons.hyps by simp
    with Nil show ?thesis
      using printsD(6) [OF Cons.hyps(1) n(2) delim_gap [OF w(2), of "CHR '']'' # r"]] gap_spaces [OF w(2)]
      by (simp add: n(1))
  next
    case ts: (Cons t' ts')
    then have "xs \<noteq> []" using Cons.hyps by auto
    then have "parse_elems m (w @ join ('','' @ w) ts @ e @ CHR '']'' # r) = Some (xs, r)"
      using Cons.IH n(3) by (simp add: parse_elems_spaces [OF w(1)])
    with ts show ?thesis
      using printsD(6) [OF Cons.hyps(1) n(2), of "CHR '','' # w @ join ('','' @ w) ts @ e @ CHR '']'' # r"]
      by (simp add: n(1))
  qed
qed simp

definition member_text :: "string \<Rightarrow> string \<times> jv \<Rightarrow> string \<Rightarrow> bool" where
  "member_text z p t = (\<exists>u. t = json_string (fst p) @ '':'' @ z @ u \<and> prints (snd p) u)"

lemma parse_members_join:
  assumes "list_all2 (member_text z) ps ts" "ps \<noteq> []"
    "sum_list (map (\<lambda>(k, v). Suc (jfuel v)) ps) \<le> n" "distinct (map fst (acc @ ps))"
    and w: "spaces w" "gap e" "spaces z"
  shows "parse_members n acc (join ('','' @ w) ts @ e @ CHR ''}'' # r) = Some (acc @ ps, r)"
  using assms(1-4)
proof (induction ps ts arbitrary: n acc rule: list_all2_induct)
  case (Cons p ps t ts)
  obtain k v where p: "p = (k, v)" by (cases p)
  obtain u where u: "t = json_string k @ '':'' @ z @ u" "prints v u"
    using Cons.hyps(1) p by (auto simp: member_text_def)
  obtain m where n: "n = Suc m" "jfuel v \<le> m" "sum_list (map (\<lambda>(k, v). Suc (jfuel v)) ps) \<le> m"
    using Cons.prems p by (cases n) auto
  have a: "oset k v acc = acc @ [(k, v)]" using Cons.prems p by (auto intro!: oset_append)
  have step: "parse_members n acc (t @ g @ c # y) =
      (if c = CHR '','' then parse_members m (acc @ [(k, v)]) y
       else if c = CHR ''}'' then Some (acc @ [(k, v)], y) else None)"
    if "c = CHR '','' \<or> c = CHR ''}''" "gap g" for c g y
  proof -
    have "delim (g @ c # y)" using that by (intro delim_gap) auto
    then show ?thesis
      using that printsD(6) [OF u(2) n(2), of "g @ c # y"] gap_spaces [OF that(2)]
        parse_str_body [of k "CHR '':'' # z @ u @ g @ c # y"] parse_val_spaces [OF w(3)]
      by (auto simp: n(1) u(1) json_string_def a)
  qed
  show ?case
  proof (cases ts)
    case Nil
    then have "ps = []" using Cons.hyps by simp
    with Nil p show ?thesis using step [OF _ w(2), of "CHR ''}''" r] by simp
  next
    case ts: (Cons t' ts')
    then have "ps \<noteq> []" using Cons.hyps by auto
    then have "parse_members m (acc @ [(k, v)]) (w @ join ('','' @ w) ts @ e @ CHR ''}'' # r)
        = Some ((acc @ [(k, v)]) @ ps, r)"
      using Cons.IH n(3) Cons.prems p by (simp add: parse_members_spaces [OF w(1)])
    with ts p show ?thesis
      using step [of "CHR '',''" "[]" "w @ join ('','' @ w) ts @ e @ CHR ''}'' # r"] by simp
  qed
qed simp

lemma length_join:
  "ts \<noteq> [] \<Longrightarrow> sum_list (map (\<lambda>t. Suc (length t)) ts) \<le> length (join ('','' @ w) ts) + 1"
proof (induction "'','' @ w" ts rule: join.induct)
  case (3 x y ys)
  then show ?case by simp
qed simp_all

lemma join_hd: "ts \<noteq> [] \<Longrightarrow> hd ts \<noteq> [] \<Longrightarrow> join d ts \<noteq> [] \<and> hd (join d ts) = hd (hd ts)"
  by (induction d ts rule: join.induct) auto

lemma prints_Arr_Nil: "prints (Arr []) ''[]''"
  by (rule prints_atom) (simp_all add: dquote_def json_ws_def)

lemma prints_Arr:
  assumes l: "list_all2 prints xs ts" and ne: "xs \<noteq> []" and w: "spaces w" "gap e"
  shows "prints (Arr xs) (CHR ''['' # w @ join ('','' @ w) ts @ e @ '']'')"
proof -
  let ?t = "CHR ''['' # w @ join ('','' @ w) ts @ e @ '']''"
  have len: "jfuel (Arr xs) \<le> length ?t"
  proof -
    have "sum_list (map (\<lambda>v. Suc (jfuel v)) xs) \<le> sum_list (map (\<lambda>t. Suc (length t)) ts)"
      using l by (induction rule: list_all2_induct) (auto dest: printsD(1))
    then show ?thesis using length_join [of ts w] l ne by (cases ts) auto
  qed
  have "parse_val n (?t @ r) = Some (Arr xs, r)" if n: "jfuel (Arr xs) \<le> n" for n r
  proof -
    obtain v vs t ts' where ts: "ts = t # ts'" "prints v t" using l ne by (cases xs; cases ts) auto
    obtain c q where q: "join ('','' @ w) ts @ e @ CHR '']'' # r = c # q" "\<not> json_ws c" "c \<noteq> CHR '']''"
      using join_hd [of ts "'','' @ w"] printsD(2-4) [OF ts(2)] ts(1)
      by (cases "join ('','' @ w) ts") auto
    obtain m where m: "n = Suc m" "sum_list (map (\<lambda>v. Suc (jfuel v)) xs) \<le> m"
      using n by (cases n) auto
    have "parse_elems m (w @ c # q) = Some (xs, r)"
      using parse_elems_join [OF l ne m(2) w, of r] q(1) by (simp add: parse_elems_spaces [OF w(1)])
    with q w(1) show ?thesis by (simp add: m(1)) (simp add: dquote_def)
  qed
  with len show ?thesis by (auto simp: prints_def json_ws_def)
qed

lemma prints_Obj_Nil: "prints (Obj []) ''{}''"
  by (rule prints_atom) (simp_all add: dquote_def json_ws_def)

lemma prints_Obj:
  assumes l: "list_all2 (member_text z) ps ts" and ne: "ps \<noteq> []" and d: "distinct (map fst ps)"
    and w: "spaces w" "gap e" "spaces z"
  shows "prints (Obj ps) (CHR ''{'' # w @ join ('','' @ w) ts @ e @ ''}'')"
proof -
  let ?t = "CHR ''{'' # w @ join ('','' @ w) ts @ e @ ''}''"
  have len: "jfuel (Obj ps) \<le> length ?t"
  proof -
    have "sum_list (map (\<lambda>(k, v). Suc (jfuel v)) ps) \<le> sum_list (map (\<lambda>t. Suc (length t)) ts)"
      using l by (induction rule: list_all2_induct) (auto simp: member_text_def dest!: printsD(1))
    then show ?thesis using length_join [of ts w] l ne by (cases ts) auto
  qed
  have "parse_val n (?t @ r) = Some (Obj ps, r)" if n: "jfuel (Obj ps) \<le> n" for n r
  proof -
    obtain t ts' where ts: "ts = t # ts'" "t \<noteq> []" "hd t = dquote"
      using l ne by (cases ts; cases ps) (auto simp: member_text_def json_string_def)
    obtain q where q: "join ('','' @ w) ts @ e @ CHR ''}'' # r = dquote # q"
      using join_hd [of ts "'','' @ w"] ts by (cases "join ('','' @ w) ts") auto
    obtain m where m: "n = Suc m" "sum_list (map (\<lambda>(k, v). Suc (jfuel v)) ps) \<le> m"
      using n by (cases n) auto
    have "parse_members m [] (w @ dquote # q) = Some (ps, r)"
      using parse_members_join [OF l ne m(2) _ w, of "[]" r] d q by (simp add: parse_members_spaces [OF w(1)])
    with q w(1) show ?thesis by (simp add: m(1)) (simp add: dquote_def)
  qed
  with len show ?thesis by (auto simp: prints_def json_ws_def)
qed

lemma opt_list_all2:
  "(\<And>x. x \<in> set xs \<Longrightarrow> \<exists>y. f x = Some y \<and> P x y) \<Longrightarrow> \<exists>ys. opt_list (map f xs) = Some ys \<and> list_all2 P xs ys"
proof (induction xs)
  case (Cons x xs)
  then obtain y ys where "f x = Some y" "P x y" "opt_list (map f xs) = Some ys" "list_all2 P xs ys"
    by (metis list.set_intros)
  then show ?case by simp
qed simp

lemma prints_scalar:
  assumes "json_ok v" "\<And>xs. v \<noteq> Arr xs" "\<And>ps. v \<noteq> Obj ps"
  shows "\<exists>t. stringify v = Some t \<and> prints v t"
proof (cases v)
  case (Bool b)
  have "prints (Bool b) (if b then ''true'' else ''false'')"
    by (rule prints_atom) (auto simp: json_ws_def dquote_def starts_with_def)
  then show ?thesis by (simp add: Bool)
next
  case Null
  have "prints Null ''null''"
    by (rule prints_atom) (auto simp: json_ws_def dquote_def starts_with_def)
  then show ?thesis by (simp add: Null)
next
  case (Num x)
  have i: "of_int \<lfloor>x\<rfloor> = x" "safe \<lfloor>x\<rfloor>" using Num assms(1) by auto
  have "prints (Num x) (show_num x)"
    using prints_num [OF i(2)] show_num_int [OF i(2)] by (simp only: i(1))
  then show ?thesis by (simp add: Num)
next
  case (Str s)
  then show ?thesis by (simp add: prints_string)
qed (use assms in simp_all)

text \<open>
  Both printers are instances of one argument: \<open>f\<close> prints the parts, and the layout only adds white space.
\<close>

lemma prints_list:
  assumes "\<And>v. v \<in> set xs \<Longrightarrow> v \<noteq> Undefined \<and> (\<exists>t. f v = Some t \<and> prints v t)"
  shows "\<exists>ts. opt_list (map (\<lambda>v. if v = Undefined then Some ''null'' else f v) xs) = Some ts \<and> list_all2 prints xs ts"
  by (rule opt_list_all2) (use assms in auto)

lemma prints_members:
  assumes "\<forall>p \<in> set ps. \<exists>t. f (snd p) = Some t \<and> prints (snd p) t"
  shows "\<exists>ts. opt_list (map (\<lambda>(k, v). map_option (\<lambda>t. json_string k @ '':'' @ z @ t) (f v)) ps) = Some ts
     \<and> list_all2 (member_text z) ps ts"
proof (rule opt_list_all2)
  fix p assume p: "p \<in> set ps"
  obtain k v where kv: "p = (k, v)" by (cases p)
  with p assms obtain t where "f v = Some t" "prints v t" by fastforce
  then show "\<exists>y. (\<lambda>(k, v). map_option (\<lambda>t. json_string k @ '':'' @ z @ t) (f v)) p = Some y \<and> member_text z p y"
    by (auto simp: kv member_text_def)
qed

lemma defined_members: "json_ok (Obj ps) \<Longrightarrow> filter (\<lambda>(k, v). v \<noteq> Undefined) ps = ps"
  by (auto intro!: filter_True)

lemma stringify_prints: "json_ok v \<Longrightarrow> \<exists>t. stringify v = Some t \<and> prints v t"
proof (induction v)
  case (Arr xs)
  show ?case
  proof (cases "xs = []")
    case False
    have "v \<noteq> Undefined \<and> (\<exists>t. stringify v = Some t \<and> prints v t)" if "v \<in> set xs" for v
      using Arr.IH [OF that] Arr.prems that by auto
    from prints_list [of xs stringify, OF this] obtain ts where ts:
      "opt_list (map (\<lambda>v. if v = Undefined then Some ''null'' else stringify v) xs) = Some ts"
      "list_all2 prints xs ts" by blast
    then show ?thesis using prints_Arr [OF ts(2) False, of "[]" "[]"] by simp
  qed (simp add: prints_Arr_Nil)
next
  case (Obj ps)
  note u = defined_members [OF Obj.prems]
  show ?case
  proof (cases "ps = []")
    case False
    have "\<forall>p \<in> set ps. \<exists>t. stringify (snd p) = Some t \<and> prints (snd p) t"
      using Obj.IH Obj.prems by fastforce
    from prints_members [of ps stringify "[]", OF this] obtain ts where ts:
      "opt_list (map (\<lambda>(k, v). map_option (\<lambda>t. json_string k @ '':'' @ t) (stringify v)) ps) = Some ts"
      "list_all2 (member_text []) ps ts" by auto
    then show ?thesis
      using prints_Obj [OF ts(2) False, of "[]" "[]"] Obj.prems by (simp add: u)
  qed (simp add: prints_Obj_Nil)
qed (rule prints_scalar; simp)+

lemma pretty_prints: "json_ok v \<Longrightarrow> \<exists>t. pretty d v = Some t \<and> prints v t"
proof (induction v arbitrary: d)
  case (Arr xs)
  show ?case
  proof (cases xs)
    case Nil
    then show ?thesis by (simp add: prints_Arr_Nil)
  next
    case (Cons x xs')
    have "v \<noteq> Undefined \<and> (\<exists>t. pretty (d + 2) v = Some t \<and> prints v t)" if "v \<in> set xs" for v
      using Arr.IH [OF that] Arr.prems that by auto
    from prints_list [of xs "pretty (d + 2)", OF this] obtain ts where ts:
      "opt_list (map (\<lambda>v. if v = Undefined then Some ''null'' else pretty (d + 2) v) xs) = Some ts"
      "list_all2 prints xs ts" by blast
    then show ?thesis
      using prints_Arr [OF ts(2), of "line_break (d + 2)" "line_break d"] by (simp add: Cons)
  qed
next
  case (Obj ps)
  note u = defined_members [OF Obj.prems]
  show ?case
  proof (cases "ps = []")
    case False
    have "\<forall>p \<in> set ps. \<exists>t. pretty (d + 2) (snd p) = Some t \<and> prints (snd p) t"
      using Obj.IH Obj.prems by fastforce
    from prints_members [of ps "pretty (d + 2)" "'' ''", OF this] obtain ts where ts:
      "opt_list (map (\<lambda>(k, v). map_option (\<lambda>t. json_string k @ '': '' @ t) (pretty (d + 2) v)) ps) = Some ts"
      "list_all2 (member_text '' '') ps ts" by auto
    then show ?thesis
      using prints_Obj [OF ts(2) False, of "line_break (d + 2)" "line_break d"] Obj.prems False by (simp add: u)
  qed (simp add: prints_Obj_Nil)
qed (simp_all only: pretty.simps; rule prints_scalar; simp)+

lemma prints_parse: "prints v t \<Longrightarrow> t \<noteq> [] \<and> json_parse t = Some v"
proof -
  assume t: "prints v t"
  have "parse_val (Suc (length t)) (t @ []) = Some (v, [])"
    by (rule printsD(6) [OF t]) (use printsD(1) [OF t] in simp_all)
  with printsD(2) [OF t] show ?thesis by (simp add: json_parse_def skip_ws_def)
qed

lemma json_roundtrip:
  assumes "json_ok v"
  shows "\<exists>t. stringify v = Some t \<and> t \<noteq> [] \<and> json_parse t = Some v"
  using stringify_prints [OF assms] prints_parse by blast

lemma pretty_roundtrip:
  assumes "json_ok v"
  shows "\<exists>t. pretty d v = Some t \<and> t \<noteq> [] \<and> json_parse t = Some v"
  using pretty_prints [OF assms] prints_parse by blast

interpretation json: codec "\<lambda>v. the (stringify v)" json_parse json_ok
  by unfold_locales (use json_roundtrip in fastforce)

interpretation json_file: codec "\<lambda>v. the (pretty 0 v)" json_parse json_ok
  by unfold_locales (metis option.sel pretty_roundtrip)

end
