(* ===== verification/App_Template.thy ===== *)
theory App_Template
  imports Vault_SDK JS_JSON
begin

text \<open>
  The starter applications of \<^verbatim>\<open>create-resilient-app\<close>: signing in through ResVault, the session in the browser's session
  storage, and the form that submits a transaction. First the React application (\<^verbatim>\<open>App.tsx\<close>, \<^verbatim>\<open>Login.tsx\<close>,
  \<^verbatim>\<open>TransactionForm.tsx\<close>), then the store, the sign-in and the form of the Vue application (\<^verbatim>\<open>store/index.ts\<close>,
  \<^verbatim>\<open>Login.vue\<close>, \<^verbatim>\<open>Home.vue\<close>, \<^verbatim>\<open>TransactionForm.vue\<close>). A component hears the extension through the library of \<open>Vault_SDK\<close>; tokens are the texts of an
  identifier generator. The animation of the sign-in page is left out.
\<close>

section \<open>Components\<close>

record notice =
  showModal :: bool
  modalTitle :: string
  modalMessage :: string

definition no_notice :: notice where
  "no_notice = \<lparr>showModal = False, modalTitle = [], modalMessage = []\<rparr>"

definition notify :: "string \<Rightarrow> string \<Rightarrow> notice" where
  "notify t m = \<lparr>showModal = True, modalTitle = t, modalMessage = m\<rparr>"

record form =
  form_amount :: string
  form_data :: string
  form_recipient :: string
  form_notice :: notice

definition new_form :: form where
  "new_form = \<lparr>form_amount = [], form_data = [], form_recipient = [], form_notice = no_notice\<rparr>"

text \<open>The library object of a component, with the component's handler.\<close>

definition component_sdk :: "unit sdk" where
  "component_sdk = sdk_step (new_sdk None) (Add (Some ()))"

definition hears :: "bool \<Rightarrow> jv \<Rightarrow> bool" where
  "hears same_window d =
     (case window_message (\<lambda>_ s. s) same_window d component_sdk of Some (_, called) \<Rightarrow> called \<noteq> [] | None \<Rightarrow> False)"

text \<open>Both message handlers look at the answer of the extension in the same way.\<close>

definition has_outcome :: "jv \<Rightarrow> bool" where
  "has_outcome message =
     (truthy message \<and> oprop message ''type'' = Str ''FROM_CONTENT_SCRIPT'' \<and> truthy (oprop message ''data'')
      \<and> oprop (oprop message ''data'') ''success'' \<noteq> Undefined)"

definition transaction_id :: "jv \<Rightarrow> jv res" where
  "transaction_id answer =
     bind_res (jget (oprop answer ''data'') ''postTransaction'') (\<lambda>t. jget t ''id'')"

text \<open>An answer without an identifier makes the handler throw after it has set the title.\<close>

definition form_message :: "jv \<Rightarrow> form \<Rightarrow> form" where
  "form_message message f =
     (let answer = oprop message ''data'' in
      if has_outcome message
      then if truthy (oprop answer ''success'')
           then (case transaction_id answer of
                   Inr i \<Rightarrow> f\<lparr>form_notice := notify ''Success'' (''Transaction successful! ID: '' @ js_text i)\<rparr>
                 | Inl _ \<Rightarrow> f\<lparr>form_notice := (form_notice f)\<lparr>modalTitle := ''Success''\<rparr>\<rparr>)
           else f\<lparr>form_notice := notify ''Transaction Failed'' (''Transaction failed: '' @
                  js_text (js_or (oprop answer ''error'')
                    (case stringify (oprop answer ''errors'') of Some t \<Rightarrow> Str t | None \<Rightarrow> Undefined)))\<rparr>
      else f)"

definition form_request :: "string \<Rightarrow> jv \<Rightarrow> string \<Rightarrow> jv" where
  "form_request a d r =
     Obj [(''type'', Str ''commit''), (''direction'', Str ''commit''), (''amount'', Str a), (''data'', d), (''recipient'', Str r)]"

definition handleSubmit :: "form \<Rightarrow> form \<times> (jv \<times> string) option" where
  "handleSubmit f =
     (if form_recipient f = []
      then (f\<lparr>form_notice := notify ''Validation Error'' ''Please enter a recipient address.''\<rparr>, None)
      else
        (let parsed = (if trim (form_data f) \<noteq> [] then json_parse (form_data f) else Some (Obj []))
         in case parsed of
              None \<Rightarrow>
                (f\<lparr>form_notice := notify ''Validation Error''
                    ''Invalid JSON format in the data field. Please check and try again.''\<rparr>, None)
            | Some d \<Rightarrow> (f, Some (sendMessage component_sdk (form_request (form_amount f) d (form_recipient f))))))"

definition login_request :: "jv \<times> string" where
  "login_request = sendMessage component_sdk (Obj [(''type'', Str ''login''), (''direction'', Str ''login'')])"

definition sign_in_failed :: notice where
  "sign_in_failed = notify ''Authentication Failed'' ''Please connect ResVault to this ResilientApp and try again.''"

section \<open>The React application\<close>

datatype screen = LoginScreen notice | FormScreen form

record app =
  isAuthenticated :: bool
  token :: "string option"
  isLoadingAfterLogin :: bool
  session_token :: "string option"
  timers :: nat
  shown_screen :: screen
  posted :: "(jv \<times> string) list"

definition stored :: "string option \<Rightarrow> bool" where
  "stored t = (case t of Some (c # s) \<Rightarrow> True | _ \<Rightarrow> False)"

text \<open>Which component is mounted after a state change; a component that is mounted anew starts from its initial state.\<close>

definition render :: "app \<Rightarrow> app" where
  "render a =
     (let form = (\<not> isLoadingAfterLogin a \<and> isAuthenticated a)
      in case shown_screen a of
           LoginScreen _ \<Rightarrow> if form then a\<lparr>shown_screen := FormScreen new_form\<rparr> else a
         | FormScreen _ \<Rightarrow> if form then a else a\<lparr>shown_screen := LoginScreen no_notice\<rparr>)"

definition open_app :: "string option \<Rightarrow> app" where
  "open_app session =
     (let a = \<lparr>isAuthenticated = False, token = None, isLoadingAfterLogin = False, session_token = session,
               timers = 0, shown_screen = LoginScreen no_notice, posted = []\<rparr>
      in render (if stored session then a\<lparr>token := session, isAuthenticated := True\<rparr> else a))"

definition handleLogin :: "string \<Rightarrow> app \<Rightarrow> app" where
  "handleLogin authToken a =
     render (a\<lparr>isLoadingAfterLogin := True, token := Some authToken, session_token := Some authToken,
               timers := timers a + 1\<rparr>)"

definition login_timeout :: "app \<Rightarrow> app" where
  "login_timeout a =
     (if timers a = 0 then a
      else render (a\<lparr>isAuthenticated := True, isLoadingAfterLogin := False, timers := timers a - 1\<rparr>))"

definition handleLogout :: "app \<Rightarrow> app" where
  "handleLogout a = render (a\<lparr>isAuthenticated := False, token := None, session_token := None\<rparr>)"

definition signed_in :: "jv \<Rightarrow> bool" where
  "signed_in message = (has_outcome message \<and> truthy (oprop (oprop message ''data'') ''success''))"

definition login_answer :: "string \<Rightarrow> jv \<Rightarrow> app \<Rightarrow> app" where
  "login_answer uuid message a =
     (if has_outcome message
      then if signed_in message then handleLogin uuid (a\<lparr>session_token := Some uuid\<rparr>) else a
      else if truthy message \<and> oprop message ''type'' = Str ''FROM_CONTENT_SCRIPT'' \<and> oprop message ''data'' = Str ''error''
      then a\<lparr>shown_screen := LoginScreen sign_in_failed\<rparr>
      else a)"

datatype app_event =
    FromWindow bool jv string
  | Timeout
  | ClickLogout
  | ClickSubmit
  | ClickSignIn
  | CloseNotice
  | Fill string string string

fun app_step :: "app \<Rightarrow> app_event \<Rightarrow> app" where
  "app_step a (FromWindow w d uuid) =
     (if hears w d
      then case shown_screen a of
          LoginScreen _ \<Rightarrow> login_answer uuid d a
        | FormScreen f \<Rightarrow> a\<lparr>shown_screen := FormScreen (form_message d f)\<rparr>
      else a)"
| "app_step a Timeout = login_timeout a"
| "app_step a ClickLogout = (case shown_screen a of FormScreen _ \<Rightarrow> handleLogout a | LoginScreen _ \<Rightarrow> a)"
| "app_step a ClickSubmit =
     (case shown_screen a of
        FormScreen f \<Rightarrow>
          (case handleSubmit f of (f', m) \<Rightarrow>
             a\<lparr>shown_screen := FormScreen f', posted := posted a @ (case m of None \<Rightarrow> [] | Some x \<Rightarrow> [x])\<rparr>)
      | LoginScreen _ \<Rightarrow> a)"
| "app_step a ClickSignIn =
     (case shown_screen a of LoginScreen _ \<Rightarrow> a\<lparr>posted := posted a @ [login_request]\<rparr> | FormScreen _ \<Rightarrow> a)"
| "app_step a CloseNotice =
     (case shown_screen a of
        LoginScreen n \<Rightarrow> a\<lparr>shown_screen := LoginScreen (n\<lparr>showModal := False\<rparr>)\<rparr>
      | FormScreen f \<Rightarrow> a\<lparr>shown_screen := FormScreen (f\<lparr>form_notice := (form_notice f)\<lparr>showModal := False\<rparr>\<rparr>)\<rparr>)"
| "app_step a (Fill x y z) =
     (case shown_screen a of
        FormScreen f \<Rightarrow> a\<lparr>shown_screen := FormScreen (f\<lparr>form_amount := x, form_data := y, form_recipient := z\<rparr>)\<rparr>
      | LoginScreen _ \<Rightarrow> a)"

section \<open>The Vue application\<close>

text \<open>The timers of the store's \<^verbatim>\<open>login\<close> action remember their token.\<close>

record store =
  s_authenticated :: bool
  s_token :: "string option"
  s_loading :: bool
  s_session :: "string option"
  s_timers :: "string list"
  s_notice :: notice

definition setAuthentication :: "bool \<Rightarrow> string option \<Rightarrow> store \<Rightarrow> store" where
  "setAuthentication b t s = s\<lparr>s_authenticated := b, s_token := t\<rparr>"

definition setLoading :: "bool \<Rightarrow> store \<Rightarrow> store" where
  "setLoading b s = s\<lparr>s_loading := b\<rparr>"

definition store_login :: "string \<Rightarrow> store \<Rightarrow> store" where
  "store_login t s = (setLoading True s)\<lparr>s_session := Some t, s_timers := s_timers s @ [t]\<rparr>"

definition store_timeout :: "store \<Rightarrow> store" where
  "store_timeout s =
     (case s_timers s of
        [] \<Rightarrow> s
      | t # ts \<Rightarrow> setLoading False (setAuthentication True (Some t) (s\<lparr>s_timers := ts\<rparr>)))"

definition store_logout :: "store \<Rightarrow> store" where
  "store_logout s = (setLoading False (setAuthentication False None s))\<lparr>s_session := None\<rparr>"

definition initializeAuth :: "store \<Rightarrow> store" where
  "initializeAuth s = setLoading False (if stored (s_session s) then setAuthentication True (s_session s) s else s)"

definition stopLoading :: "store \<Rightarrow> store" where
  "stopLoading s = setLoading False s"

definition showErrorModal :: "notice \<Rightarrow> store \<Rightarrow> store" where
  "showErrorModal n s = stopLoading (s\<lparr>s_notice := n\<rparr>)"

definition vue_sign_in :: "string \<Rightarrow> jv \<Rightarrow> store \<Rightarrow> store" where
  "vue_sign_in uuid message s =
     (let d = oprop message ''data'' in
      if truthy message \<and> oprop message ''type'' = Str ''FROM_CONTENT_SCRIPT'' \<and> truthy d
      then case d of
          Obj ps \<Rightarrow>
            if own ps ''success'' = Bool True then store_login uuid s
            else if own ps ''success'' = Bool False then showErrorModal sign_in_failed s
            else s
        | _ \<Rightarrow> if d = Str ''error'' then showErrorModal sign_in_failed s else s
      else s)"

text \<open>The form of the Vue application.\<close>

definition vue_showErrorModal :: "string \<Rightarrow> string \<Rightarrow> form \<Rightarrow> form" where
  "vue_showErrorModal title message f = f\<lparr>form_notice := \<lparr>showModal = True, modalTitle = title, modalMessage = message\<rparr>\<rparr>"

definition vue_handleMessage :: "jv \<Rightarrow> form \<Rightarrow> form" where
  "vue_handleMessage message f =
     (let data = oprop message ''data'' in
      if truthy message \<and> oprop message ''type'' = Str ''FROM_CONTENT_SCRIPT'' \<and> truthy data \<and> oprop data ''success'' \<noteq> Undefined
      then if truthy (oprop data ''success'')
           then (let f1 = f\<lparr>form_notice := (form_notice f)\<lparr>modalTitle := ''Success''\<rparr>\<rparr> in
                 case bind_res (jget (oprop data ''data'') ''postTransaction'') (\<lambda>t. jget t ''id'') of
                   Inl _ \<Rightarrow> f1
                 | Inr i \<Rightarrow> vue_showErrorModal ''Success'' (''Transaction successful! ID: '' @ js_text i) f1)
           else vue_showErrorModal ''Transaction Failed'' (''Transaction failed: '' @
                  js_text (js_or (oprop data ''error'')
                    (case stringify (oprop data ''errors'') of Some t \<Rightarrow> Str t | None \<Rightarrow> Undefined))) f
      else f)"

definition vue_handleSubmit :: "form \<Rightarrow> form \<times> (jv \<times> string) option" where
  "vue_handleSubmit f =
     (if form_recipient f = [] then (vue_showErrorModal ''Validation Error'' ''Please enter a recipient address.'' f, None)
      else if trim (form_data f) = []
      then (f, Some (sendMessage component_sdk (form_request (form_amount f) (Obj []) (form_recipient f))))
      else case json_parse (form_data f) of
             None \<Rightarrow> (vue_showErrorModal ''Validation Error''
                 ''Invalid JSON format in the data field. Please check and try again.'' f, None)
           | Some parsedData \<Rightarrow>
               (f, Some (sendMessage component_sdk (form_request (form_amount f) parsedData (form_recipient f)))))"

datatype store_event = Heard bool jv string | StoreTimeout | StoreLogout

text \<open>\<^verbatim>\<open>Home.vue\<close> mounts the sign-in page exactly while the store is not authenticated; the form has the logout button.\<close>

fun store_step :: "store \<Rightarrow> store_event \<Rightarrow> store" where
  "store_step s (Heard w d uuid) = (if \<not> s_authenticated s \<and> hears w d then vue_sign_in uuid d s else s)"
| "store_step s StoreTimeout = store_timeout s"
| "store_step s StoreLogout = (if s_authenticated s then store_logout s else s)"

section \<open>Lemmas\<close>

lemma hears_answer [simp]: "hears True (Obj [(''type'', Str ''FROM_CONTENT_SCRIPT''), (''data'', r)])"
proof -
  have "sdk_ok component_sdk" "messageHandlers component_sdk = [()]"
    by (simp_all add: component_sdk_def new_sdk_def addMessageListener_def sdk_ok_def)
  then show ?thesis using window_message_delivers [of component_sdk "\<lambda>_ s. s"] by (simp add: hears_def)
qed

lemma hears_iff: "hears w d \<longleftrightarrow> w \<and> truthy d \<and> oprop d ''type'' = Str ''FROM_CONTENT_SCRIPT''"
  by (simp add: hears_def window_message_def handleMessage_def component_sdk_def new_sdk_def addMessageListener_def
      call_from.simps)

lemma render_fields [simp]:
  "isAuthenticated (render a) = isAuthenticated a" "token (render a) = token a"
  "isLoadingAfterLogin (render a) = isLoadingAfterLogin a" "session_token (render a) = session_token a"
  "timers (render a) = timers a" "posted (render a) = posted a"
  by (simp_all add: render_def Let_def split: screen.split)

text \<open>
  The form is shown exactly when the user is signed in and nothing is loading. While at most one timer is pending,
  being signed in means having a token, and the session storage has the same one.
\<close>

definition shows_form :: "app \<Rightarrow> bool" where
  "shows_form a = (case shown_screen a of FormScreen _ \<Rightarrow> True | LoginScreen _ \<Rightarrow> False)"

lemma shows_form_render [simp]: "shows_form (render a) \<longleftrightarrow> \<not> isLoadingAfterLogin a \<and> isAuthenticated a"
  by (auto simp: shows_form_def render_def Let_def split: screen.split)

definition screen_ok :: "app \<Rightarrow> bool" where
  "screen_ok a \<longleftrightarrow> (shows_form a \<longleftrightarrow> \<not> isLoadingAfterLogin a \<and> isAuthenticated a)"

definition session_kept :: "app \<Rightarrow> bool" where
  "session_kept a \<longleftrightarrow> (if isLoadingAfterLogin a
     then timers a = 1 \<and> \<not> isAuthenticated a \<and> stored (session_token a) \<and> token a = session_token a
     else timers a = 0 \<and> (isAuthenticated a \<longleftrightarrow> stored (session_token a)) \<and> (isAuthenticated a \<longrightarrow> token a = session_token a))"

definition app_ok :: "app \<Rightarrow> bool" where
  "app_ok a \<longleftrightarrow> screen_ok a \<and> session_kept a"

text \<open>No second answer of success arrives while the loader is shown, and identifiers are not empty.\<close>

fun calm :: "app \<Rightarrow> app_event \<Rightarrow> bool" where
  "calm a (FromWindow w d uuid) = (uuid \<noteq> [] \<and> (isLoadingAfterLogin a \<longrightarrow> \<not> signed_in d))"
| "calm a _ = True"

fun calm_run :: "app \<Rightarrow> app_event list \<Rightarrow> bool" where
  "calm_run a [] = True"
| "calm_run a (e # es) = (calm a e \<and> calm_run (app_step a e) es)"

lemma screen_ok_render [simp]: "screen_ok (render a)"
  by (simp add: screen_ok_def)

lemma session_kept_screen [simp]: "session_kept (a\<lparr>shown_screen := x\<rparr>) = session_kept a" "session_kept (a\<lparr>posted := m\<rparr>) = session_kept a"
  "session_kept (render a) = session_kept a"
  by (simp_all add: session_kept_def)

lemma screen_ok_same:
  "shown_screen a = FormScreen f \<Longrightarrow> screen_ok (a\<lparr>shown_screen := FormScreen g\<rparr>) = screen_ok a"
  "shown_screen a = LoginScreen n \<Longrightarrow> screen_ok (a\<lparr>shown_screen := LoginScreen k\<rparr>) = screen_ok a"
  "screen_ok (a\<lparr>posted := m\<rparr>) = screen_ok a"
  by (simp_all add: screen_ok_def shows_form_def)

lemma open_app_ok: "app_ok (open_app session)"
  by (auto simp: app_ok_def open_app_def session_kept_def Let_def)

lemma handleLogin_ok:
  assumes "app_ok a" "shown_screen a = LoginScreen n" "\<not> isLoadingAfterLogin a" "uuid \<noteq> []"
  shows "app_ok (handleLogin uuid (a\<lparr>session_token := Some uuid\<rparr>))"
proof -
  have "\<not> isAuthenticated a" "timers a = 0"
    using assms by (auto simp: app_ok_def screen_ok_def shows_form_def session_kept_def)
  then show ?thesis using assms(4) by (auto simp: app_ok_def handleLogin_def session_kept_def stored_def split: list.split)
qed

lemma app_step_ok:
  assumes "app_ok a" "calm a e"
  shows "app_ok (app_step a e)"
proof (cases e)
  case (FromWindow w d uuid)
  show ?thesis
  proof (cases "shown_screen a")
    case (LoginScreen n)
    then show ?thesis
      using FromWindow assms handleLogin_ok [OF assms(1) LoginScreen, of uuid]
      by (auto simp: login_answer_def app_ok_def screen_ok_same signed_in_def)
  next
    case (FormScreen f)
    then show ?thesis using FromWindow assms by (simp add: app_ok_def screen_ok_same)
  qed
next
  case Timeout
  then show ?thesis
    using assms by (auto simp: login_timeout_def app_ok_def session_kept_def split: if_splits)
next
  case ClickLogout
  show ?thesis
  proof (cases "shown_screen a")
    case (FormScreen f)
    then have "shows_form a" by (simp add: shows_form_def)
    then have "\<not> isLoadingAfterLogin a" "timers a = 0" using assms(1) by (auto simp: app_ok_def screen_ok_def session_kept_def)
    then show ?thesis using ClickLogout FormScreen by (simp add: handleLogout_def app_ok_def session_kept_def stored_def)
  qed (use ClickLogout assms in simp)
next
  case ClickSubmit
  show ?thesis
  proof (cases "shown_screen a")
    case (FormScreen f)
    obtain f' m where "handleSubmit f = (f', m)" by (cases "handleSubmit f")
    then show ?thesis using ClickSubmit FormScreen assms by (simp add: app_ok_def screen_ok_same)
  qed (use ClickSubmit assms in simp)
next
  case ClickSignIn
  then show ?thesis using assms by (cases "shown_screen a") (simp_all add: app_ok_def screen_ok_same)
next
  case CloseNotice
  then show ?thesis using assms by (cases "shown_screen a") (simp_all add: app_ok_def screen_ok_same)
next
  case (Fill x y z)
  then show ?thesis using assms by (cases "shown_screen a") (simp_all add: app_ok_def screen_ok_same)
qed

interpretation starter: stepper "\<lambda>a e. if calm a e then app_step a e else a" app_ok
  by unfold_locales (simp add: app_step_ok)

lemma calm_run_ok: "app_ok a \<Longrightarrow> calm_run a es \<Longrightarrow> app_ok (foldl app_step a es)"
proof -
  assume ok: "app_ok a" and "calm_run a es"
  then have "foldl app_step a es = foldl (\<lambda>a e. if calm a e then app_step a e else a) a es"
    by (induction es arbitrary: a) (simp_all add: app_step_ok)
  with starter.run_inv [OF ok] show ?thesis by simp
qed

text \<open>The forms of the two applications behave in the same way, so what is shown of one holds for the other.\<close>

lemma vue_form_same: "vue_handleMessage = form_message" "vue_handleSubmit = handleSubmit"
  by (auto simp: fun_eq_iff vue_handleMessage_def form_message_def has_outcome_def transaction_id_def vue_showErrorModal_def
      notify_def vue_handleSubmit_def handleSubmit_def Let_def split: sum.split option.split)

section \<open>Properties\<close>

text \<open>
  C21: A session of the starter application lasts exactly as long as the user is signed in. Through every sequence of
  signing in, timeouts, forms, notices and signing out in which no second sign-in is confirmed while the loader is shown,
  the form is shown only with a token, which the session storage holds too; and loading the application anew
  shows the form with that token exactly if the user was signed in or being signed in.
\<close>

theorem session_survives_reload:
  assumes "calm_run (open_app session) es" and a: "a = foldl app_step (open_app session) es"
  shows "(shows_form a \<longrightarrow> stored (token a) \<and> session_token a = token a)
    \<and> (shows_form (open_app (session_token a)) \<longleftrightarrow> isAuthenticated a \<or> isLoadingAfterLogin a)
    \<and> (shows_form a \<longrightarrow> token (open_app (session_token a)) = token a)"
proof -
  have "app_ok a" unfolding a by (rule calm_run_ok [OF open_app_ok assms(1)])
  then show ?thesis
    by (auto simp: app_ok_def screen_ok_def session_kept_def open_app_def Let_def split: if_splits)
qed

theorem session_survives_reload_witness:
  "let m = Obj [(''type'', Str ''FROM_CONTENT_SCRIPT''), (''data'', Obj [(''success'', Bool True)])];
       a = foldl app_step (open_app None) [ClickSignIn, FromWindow True m ''t'', Timeout]
   in shows_form (open_app (session_token a)) \<and> token a = Some ''t''"
proof -
  let ?m = "Obj [(''type'', Str ''FROM_CONTENT_SCRIPT''), (''data'', Obj [(''success'', Bool True)])]"
  let ?es = "[ClickSignIn, FromWindow True ?m ''t'', Timeout]"
  have c: "calm_run (open_app None) ?es" by (simp add: open_app_def render_def stored_def)
  have t: "isAuthenticated (foldl app_step (open_app None) ?es)" "token (foldl app_step (open_app None) ?es) = Some ''t''"
    by (simp_all add: open_app_def render_def stored_def login_answer_def signed_in_def has_outcome_def own_def
        handleLogin_def login_timeout_def)
  show ?thesis unfolding Let_def using session_survives_reload [OF c refl] t by blast
qed



end
