(* ===== verification/Vault_Wallet.thy ===== *)
theory Vault_Wallet
  imports JS_JSON "HOL-Library.Word"
begin

text \<open>
  The wallet of the ResVault popup, \<^verbatim>\<open>resvault/src/context/GlobalContext.js\<close>: the key pairs, the selected
  one, and their copies in \<^verbatim>\<open>chrome.storage\<close>. The record holds the React state of the provider and the storage
  keys it reads and writes; each function of the context is a state transformer. The third-party
  cryptography is the record \<open>crypto\<close>.
\<close>

section \<open>Parameters\<close>

record crypto =
  b58_decode :: "string \<Rightarrow> 8 word list res"
  b58_encode :: "8 word list \<Rightarrow> string"
  keccak256 :: "8 word list \<Rightarrow> string"
  seed_public :: "8 word list \<Rightarrow> 8 word list"
  aes_enc :: "nat \<Rightarrow> string \<Rightarrow> string \<Rightarrow> string"
  aes_dec :: "string \<Rightarrow> string \<Rightarrow> string res"
  sha256 :: "string \<Rightarrow> string"

text \<open>
  What is relied on: decoding inverts encoding, and decrypting a text with the passphrase it was encrypted
  with gives the text back for any salt, the ciphertext being a non-empty text.
\<close>

definition crypto_ok :: "crypto \<Rightarrow> bool" where
  "crypto_ok C \<longleftrightarrow> (\<forall>b. b58_decode C (b58_encode C b) = Inr b)
     \<and> (\<forall>salt m p. aes_enc C salt m p \<noteq> [] \<and> aes_dec C (aes_enc C salt m p) p = Inr m)"

section \<open>State\<close>

record key_pair =
  pub :: string
  priv :: string

record vault_store =
  hash :: string
  store_public :: string
  encryptedPrivateKey :: string

record wallet =
  serviceMode :: string
  publicKey :: string
  privateKey :: string
  ownerAddress :: string
  keyPairs :: "key_pair list"
  selectedKeyPairIndex :: int
  isAuthenticated :: bool
  storedPassword :: string
  alert :: "string option"
  route :: string
  salts :: nat
  sync_encryptedKeyPairs :: "string option"
  sync_store :: "vault_store option"
  local_selectedKeyPairIndex :: "int option"
  local_password :: "string option"
  local_serviceMode :: "string option"
  local_connections :: "(string, (string, bool) omap) omap option"

definition setAlert :: "string \<Rightarrow> wallet \<Rightarrow> wallet" where
  "setAlert m w = w\<lparr>alert := Some m\<rparr>"

definition no_password :: string where
  "no_password = ''Password is not available. Please log in again.''"

text \<open>\<^verbatim>\<open>xs[i]\<close> for an integer index, \<^verbatim>\<open>xs.slice(-n)\<close> and \<^verbatim>\<open>xs.splice(i, 1)\<close>.\<close>

definition nth_js :: "'a list \<Rightarrow> int \<Rightarrow> 'a option" where
  "nth_js xs i = (if 0 \<le> i \<and> i < int (length xs) then Some (xs ! nat i) else None)"

definition slice_last :: "nat \<Rightarrow> 'a list \<Rightarrow> 'a list" where
  "slice_last n xs = drop (length xs - n) xs"

definition splice_one :: "int \<Rightarrow> 'a list \<Rightarrow> 'a list" where
  "splice_one i xs =
     (let s = (if i < 0 then nat (max (int (length xs) + i) 0) else min (nat i) (length xs))
      in take s xs @ drop (Suc s) xs)"

section \<open>Storage of the key pairs\<close>

definition generateOwnerAddress :: "crypto \<Rightarrow> string \<Rightarrow> string res" where
  "generateOwnerAddress C pk =
     bind_res (b58_decode C pk) (\<lambda>b. Inr (''0x'' @ slice_last 40 (keccak256 C b)))"

definition pair_json :: "key_pair \<Rightarrow> jv" where
  "pair_json k = Obj [(''publicKey'', Str (pub k)), (''privateKey'', Str (priv k))]"

definition pairs_json :: "key_pair list \<Rightarrow> jv" where
  "pairs_json ks = Arr (map pair_json ks)"

text \<open>Reading the parsed text back; anything but an array of key pairs is an error of the callbacks.\<close>

definition pair_of_json :: "jv \<Rightarrow> key_pair option" where
  "pair_of_json v =
     (case (oprop v ''publicKey'', oprop v ''privateKey'') of
        (Str p, Str s) \<Rightarrow> Some \<lparr>pub = p, priv = s\<rparr> | _ \<Rightarrow> None)"

fun pairs_of_json :: "jv \<Rightarrow> key_pair list res" where
  "pairs_of_json (Arr vs) =
     (case opt_list (map pair_of_json vs) of
        Some ks \<Rightarrow> Inr ks | None \<Rightarrow> Inl (TypeError ''not a key pair''))"
| "pairs_of_json _ = Inl (TypeError ''not an array'')"

definition json_text :: "jv \<Rightarrow> string" where
  "json_text v = (case stringify v of Some t \<Rightarrow> t | None \<Rightarrow> ''undefined'')"

definition saveKeyPairsToStorage :: "crypto \<Rightarrow> key_pair list \<Rightarrow> string \<Rightarrow> wallet \<Rightarrow> wallet" where
  "saveKeyPairsToStorage C ks password w =
     w\<lparr>sync_encryptedKeyPairs := Some (aes_enc C (salts w) (json_text (pairs_json ks)) password),
       salts := Suc (salts w)\<rparr>"

definition decrypt_pairs :: "crypto \<Rightarrow> string \<Rightarrow> string \<Rightarrow> key_pair list res" where
  "decrypt_pairs C password t =
     bind_res (aes_dec C t password) (\<lambda>d.
       case json_parse d of
         None \<Rightarrow> Inl (Error ''SyntaxError'')
       | Some v \<Rightarrow> pairs_of_json v)"

text \<open>
  A callback returns the new state and whether it threw. It runs inside the \<^verbatim>\<open>try\<close> block that decrypts, so a
  callback that throws is run again with the empty list.
\<close>

type_synonym callback = "key_pair list \<Rightarrow> wallet \<Rightarrow> wallet \<times> bool"

definition decrypt_failed :: string where
  "decrypt_failed = ''Failed to decrypt key pairs. Please check your password.''"

definition loadKeyPairsFromStorage :: "crypto \<Rightarrow> string \<Rightarrow> callback \<Rightarrow> wallet \<Rightarrow> wallet" where
  "loadKeyPairsFromStorage C password cb w =
     (case sync_encryptedKeyPairs w of
        Some (c # t) \<Rightarrow>
          (case decrypt_pairs C password (c # t) of
             Inl _ \<Rightarrow> fst (cb [] (setAlert decrypt_failed w))
           | Inr ks \<Rightarrow>
               (case cb ks w of
                  (w', False) \<Rightarrow> w'
                | (w', True) \<Rightarrow> fst (cb [] (setAlert decrypt_failed w'))))
      | _ \<Rightarrow> fst (cb [] w))"

definition saveSelectedKeyPairIndex :: "int \<Rightarrow> wallet \<Rightarrow> wallet" where
  "saveSelectedKeyPairIndex i w = w\<lparr>local_selectedKeyPairIndex := Some i\<rparr>"

definition loadSelectedKeyPairIndex :: "wallet \<Rightarrow> int" where
  "loadSelectedKeyPairIndex w =
     (case local_selectedKeyPairIndex w of Some i \<Rightarrow> i | None \<Rightarrow> 0)"

definition save_store :: "crypto \<Rightarrow> key_pair \<Rightarrow> string \<Rightarrow> wallet \<Rightarrow> wallet" where
  "save_store C k password w =
     w\<lparr>sync_store := Some \<lparr>hash = sha256 C password, store_public = pub k,
         encryptedPrivateKey = aes_enc C (salts w) (priv k) password\<rparr>,
       salts := Suc (salts w)\<rparr>"

section \<open>Operations\<close>

text \<open>The validation loop of \<^verbatim>\<open>appendKeyPairs\<close>: the message for the first bad pair.\<close>

definition check_pair :: "crypto \<Rightarrow> nat \<Rightarrow> key_pair \<Rightarrow> string option" where
  "check_pair C i k =
     (if pub k = [] \<or> priv k = []
      then Some (''Key pair at index '' @ show_nat i @ '' is missing publicKey or privateKey.'')
      else case b58_decode C (priv k) of
        Inl _ \<Rightarrow> Some (''Error validating key pair at index '' @ show_nat i @ ''.'')
      | Inr seed \<Rightarrow>
          if length seed \<noteq> 32
          then Some (''Private key at index '' @ show_nat i @ '' is not 32 bytes.'')
          else if b58_encode C (seed_public C seed) \<noteq> pub k
          then Some (''Public key does not match private key at index '' @ show_nat i @ ''.'')
          else None)"

fun first_bad :: "crypto \<Rightarrow> nat \<Rightarrow> key_pair list \<Rightarrow> string option" where
  "first_bad C i [] = None"
| "first_bad C i (k # ks) =
     (case check_pair C i k of Some m \<Rightarrow> Some m | None \<Rightarrow> first_bad C (Suc i) ks)"

definition append_cb :: "crypto \<Rightarrow> string \<Rightarrow> key_pair list \<Rightarrow> callback" where
  "append_cb C password new existing w =
     (let fresh = filter (\<lambda>k. k \<notin> set existing) new in
      if fresh = [] then (setAlert ''No new unique key pairs to add.'' w, False)
      else
        (let updated = existing @ fresh; k = last updated; i = int (length updated) - 1;
             w1 = (saveKeyPairsToStorage C updated password w)
                    \<lparr>keyPairs := updated, selectedKeyPairIndex := i, publicKey := pub k, privateKey := priv k\<rparr>;
             w2 = saveSelectedKeyPairIndex i w1
         in case generateOwnerAddress C (pub k) of
              Inl _ \<Rightarrow> (w2, True)
            | Inr a \<Rightarrow> (save_store C k password (w2\<lparr>ownerAddress := a\<rparr>), False)))"

definition appendKeyPairs :: "crypto \<Rightarrow> key_pair list \<Rightarrow> wallet \<Rightarrow> wallet" where
  "appendKeyPairs C new w =
     (if storedPassword w = [] then setAlert no_password w
      else case first_bad C 0 new of
        Some m \<Rightarrow> setAlert m w
      | None \<Rightarrow> loadKeyPairsFromStorage C (storedPassword w) (append_cb C (storedPassword w) new) w)"

definition generate_cb :: "crypto \<Rightarrow> string \<Rightarrow> key_pair \<Rightarrow> string \<Rightarrow> callback" where
  "generate_cb C password k address existing w =
     (if k \<in> set existing then (setAlert ''Generated key pair is a duplicate. Skipping.'' w, False)
      else
        (let updated = existing @ [k]; i = int (length updated) - 1;
             w1 = (saveKeyPairsToStorage C updated password w)
                    \<lparr>keyPairs := updated, publicKey := pub k, privateKey := priv k,
                     ownerAddress := address, selectedKeyPairIndex := i\<rparr>;
             w2 = (saveSelectedKeyPairIndex i w1)\<lparr>isAuthenticated := True\<rparr>
         in (save_store C k password w2, False)))"

text \<open>\<open>pk\<close> and \<open>secret\<close> are the bytes \<^verbatim>\<open>nacl.sign.keyPair()\<close> returns.\<close>

definition generateKeyPair :: "crypto \<Rightarrow> 8 word list \<Rightarrow> 8 word list \<Rightarrow> wallet \<Rightarrow> wallet" where
  "generateKeyPair C pk secret w =
     (if storedPassword w = [] then setAlert no_password w
      else
        (let k = \<lparr>pub = b58_encode C pk, priv = b58_encode C (take 32 secret)\<rparr>
         in case generateOwnerAddress C (pub k) of
              Inl _ \<Rightarrow> w
            | Inr a \<Rightarrow>
                loadKeyPairsFromStorage C (storedPassword w) (generate_cb C (storedPassword w) k a) w))"

text \<open>\<open>after\<close> is the optional callback of the caller; it runs inside the same \<^verbatim>\<open>try\<close> block.\<close>

definition no_callback :: "wallet \<Rightarrow> wallet \<times> bool" where
  "no_callback w = (w, False)"

definition delete_cb :: "crypto \<Rightarrow> string \<Rightarrow> int \<Rightarrow> (wallet \<Rightarrow> wallet \<times> bool) \<Rightarrow> callback" where
  "delete_cb C password index after existing w =
     (if length existing \<le> 1 then (setAlert ''Cannot delete the last remaining key pair.'' w, False)
      else
        (let updated = splice_one index existing;
             w1 = (saveKeyPairsToStorage C updated password w)
                    \<lparr>keyPairs := updated, selectedKeyPairIndex := 0\<rparr>
         in case updated of
              [] \<Rightarrow> after w1
            | k # _ \<Rightarrow>
                (let w2 = saveSelectedKeyPairIndex 0 (w1\<lparr>publicKey := pub k, privateKey := priv k\<rparr>)
                 in case generateOwnerAddress C (pub k) of
                      Inl _ \<Rightarrow> (w2, True)
                    | Inr a \<Rightarrow> after (save_store C k password (w2\<lparr>ownerAddress := a\<rparr>)))))"

definition deleteKeyPair :: "crypto \<Rightarrow> int \<Rightarrow> (wallet \<Rightarrow> wallet \<times> bool) \<Rightarrow> wallet \<Rightarrow> wallet" where
  "deleteKeyPair C index after w =
     (if storedPassword w = [] then setAlert no_password w
      else loadKeyPairsFromStorage C (storedPassword w) (delete_cb C (storedPassword w) index after) w)"

text \<open>
  Selecting a pair, with the pairs \<open>ks\<close> and the password the function has captured: a call through a handler of an
  earlier rendering works on the pairs of that rendering.
\<close>

definition select_pair :: "crypto \<Rightarrow> key_pair list \<Rightarrow> string \<Rightarrow> int \<Rightarrow> wallet \<Rightarrow> wallet \<times> bool" where
  "select_pair C ks password index w =
     (case nth_js ks index of
        None \<Rightarrow> (w, False)
      | Some k \<Rightarrow>
          (let w1 = saveSelectedKeyPairIndex index
                      (w\<lparr>publicKey := pub k, privateKey := priv k, selectedKeyPairIndex := index\<rparr>)
           in case generateOwnerAddress C (pub k) of
                Inl _ \<Rightarrow> (w1, True)
              | Inr a \<Rightarrow>
                  (let w2 = w1\<lparr>ownerAddress := a\<rparr> in
                   (if password = [] then setAlert no_password w2 else save_store C k password w2, False))))"

definition setSelectedKeyPairFn :: "crypto \<Rightarrow> int \<Rightarrow> wallet \<Rightarrow> wallet" where
  "setSelectedKeyPairFn C index w = fst (select_pair C (keyPairs w) (storedPassword w) index w)"

text \<open>The effect that runs when the popup opens, on the initial React state.\<close>

definition initial_react :: "wallet \<Rightarrow> wallet" where
  "initial_react w =
     w\<lparr>serviceMode := ''KV'', publicKey := [], privateKey := [], ownerAddress := [], keyPairs := [],
       selectedKeyPairIndex := 0, isAuthenticated := False, storedPassword := [], alert := None\<rparr>"

definition show_pair :: "crypto \<Rightarrow> key_pair \<Rightarrow> int \<Rightarrow> wallet \<Rightarrow> wallet \<times> bool" where
  "show_pair C k i w =
     (let w1 = w\<lparr>publicKey := pub k, privateKey := priv k, selectedKeyPairIndex := i\<rparr>
      in case generateOwnerAddress C (pub k) of
           Inl _ \<Rightarrow> (w1, True)
         | Inr a \<Rightarrow> (w1\<lparr>ownerAddress := a, isAuthenticated := True\<rparr>, False))"

text \<open>
  The index is read asynchronously, so an exception of the inner callback does not reach the \<^verbatim>\<open>try\<close> block.
\<close>

definition mount_cb :: "crypto \<Rightarrow> callback" where
  "mount_cb C loaded w =
     (if loaded \<noteq> []
      then (let w1 = w\<lparr>keyPairs := loaded\<rparr>; i = loadSelectedKeyPairIndex w in
            case nth_js loaded i of
              Some k \<Rightarrow> (fst (show_pair C k i w1), False)
            | None \<Rightarrow> (fst (show_pair C (hd loaded) 0 w1), False))
      else (w\<lparr>isAuthenticated := False\<rparr>, False))"

definition mount_keys :: "crypto \<Rightarrow> wallet \<Rightarrow> wallet" where
  "mount_keys C w =
     (case local_password w of
        Some (c # p) \<Rightarrow> loadKeyPairsFromStorage C (c # p) (mount_cb C) (w\<lparr>storedPassword := c # p\<rparr>)
      | _ \<Rightarrow> w\<lparr>isAuthenticated := False\<rparr>)"

definition mode_route :: "string \<Rightarrow> string" where
  "mode_route m = (if m = ''KV'' then ''/dashboard'' else ''/contract'')"

definition mount_mode :: "wallet \<Rightarrow> wallet" where
  "mount_mode w =
     (case local_serviceMode w of
        Some (c # m) \<Rightarrow> w\<lparr>serviceMode := c # m, route := mode_route (c # m)\<rparr>
      | _ \<Rightarrow> w)"

definition reopen :: "crypto \<Rightarrow> wallet \<Rightarrow> wallet" where
  "reopen C w = mount_mode (mount_keys C (initial_react w))"

definition toggleServiceMode :: "wallet \<Rightarrow> wallet" where
  "toggleServiceMode w =
     (let m = (if serviceMode w = ''KV'' then ''Contract'' else ''KV'')
      in w\<lparr>serviceMode := m, local_serviceMode := Some m, local_connections := None,
           route := mode_route m\<rparr>)"

section \<open>Runs\<close>

datatype wallet_event =
    Append "key_pair list"
  | Generate "8 word list" "8 word list"
  | Delete int
  | Select int
  | Toggle
  | Reopen

fun wallet_step :: "crypto \<Rightarrow> wallet \<Rightarrow> wallet_event \<Rightarrow> wallet" where
  "wallet_step C w (Append ks) = appendKeyPairs C ks w"
| "wallet_step C w (Generate pk secret) = generateKeyPair C pk secret w"
| "wallet_step C w (Delete i) = deleteKeyPair C i no_callback w"
| "wallet_step C w (Select i) = setSelectedKeyPairFn C i w"
| "wallet_step C w Toggle = toggleServiceMode w"
| "wallet_step C w Reopen = reopen C w"

text \<open>
  The wallet is in step with its stored copies: the stored text decrypts under the password to the key pairs
  shown, the selected index is stored and in range, the shown keys and address are those of
  the selected pair, and the stored login record belongs to it.
\<close>

definition synced :: "crypto \<Rightarrow> string \<Rightarrow> wallet \<Rightarrow> bool" where
  "synced C p w \<longleftrightarrow>
     p \<noteq> [] \<and> storedPassword w = p \<and> local_password w = Some p
   \<and> (\<exists>t. sync_encryptedKeyPairs w = Some t \<and> t \<noteq> [] \<and> decrypt_pairs C p t = Inr (keyPairs w))
   \<and> (\<forall>k \<in> set (keyPairs w). is_ok (b58_decode C (pub k)))
   \<and> (\<exists>k. nth_js (keyPairs w) (selectedKeyPairIndex w) = Some k
        \<and> publicKey w = pub k \<and> privateKey w = priv k
        \<and> generateOwnerAddress C (pub k) = Inr (ownerAddress w)
        \<and> (\<exists>st. sync_store w = Some st \<and> hash st = sha256 C p \<and> store_public st = pub k
             \<and> aes_dec C (encryptedPrivateKey st) p = Inr (priv k)))
   \<and> local_selectedKeyPairIndex w = Some (selectedKeyPairIndex w)"

section \<open>Lemmas\<close>

lemma pairs_json_ok: "json_ok (pairs_json ks)"
  by (auto simp: pairs_json_def pair_json_def)

lemma pairs_of_json_inverse: "pairs_of_json (pairs_json ks) = Inr ks"
proof -
  have "opt_list (map pair_of_json (map pair_json ks)) = Some ks"
    by (induction ks) (simp_all add: pair_of_json_def pair_json_def own_def)
  then show ?thesis by (simp add: pairs_json_def)
qed

lemma decrypt_saved:
  assumes "crypto_ok C"
  shows "decrypt_pairs C p (aes_enc C salt (json_text (pairs_json ks)) p) = Inr ks"
proof -
  obtain t where "stringify (pairs_json ks) = Some t" "json_parse t = Some (pairs_json ks)"
    using json_roundtrip [OF pairs_json_ok] by blast
  then show ?thesis
    using assms by (simp add: decrypt_pairs_def crypto_ok_def json_text_def pairs_of_json_inverse)
qed

lemma owner_ok: "is_ok (b58_decode C pk) \<Longrightarrow> \<exists>a. generateOwnerAddress C pk = Inr a"
  by (auto simp: is_ok_iff generateOwnerAddress_def)

lemma load_synced:
  assumes "synced C p w" "storedPassword w' = p" "sync_encryptedKeyPairs w' = sync_encryptedKeyPairs w"
  shows "loadKeyPairsFromStorage C p cb w' =
    (case cb (keyPairs w) w' of
       (v, False) \<Rightarrow> v | (v, True) \<Rightarrow> fst (cb [] (setAlert decrypt_failed v)))"
proof -
  obtain t where t: "sync_encryptedKeyPairs w = Some t" "t \<noteq> []" "decrypt_pairs C p t = Inr (keyPairs w)"
    using assms(1) by (auto simp: synced_def)
  then show ?thesis using assms(3) by (cases t) (simp_all add: loadKeyPairsFromStorage_def)
qed

lemma nth_js_mem: "nth_js xs i = Some x \<Longrightarrow> x \<in> set xs"
  by (auto simp: nth_js_def split: if_splits)

lemma nth_js_last: "xs \<noteq> [] \<Longrightarrow> nth_js xs (int (length xs) - 1) = Some (last xs)"
proof -
  assume x: "xs \<noteq> []"
  then have "nat (int (length xs) - 1) = length xs - 1" by linarith
  with x show ?thesis by (auto simp: nth_js_def last_conv_nth Suc_le_eq)
qed

lemma synced_alert: "synced C p w \<Longrightarrow> synced C p (setAlert m w)"
  by (simp add: synced_def setAlert_def)

text \<open>The common end of the operations: store the pairs, select one of them and store the selection.\<close>

lemma synced_saved:
  assumes C: "crypto_ok C" and p: "p \<noteq> []" "storedPassword w = p" "local_password w = Some p"
    and ks: "\<forall>k \<in> set ks. is_ok (b58_decode C (pub k))"
    and k: "nth_js ks i = Some k" "generateOwnerAddress C (pub k) = Inr a"
    and w': "storedPassword w' = p" "local_password w' = Some p" "keyPairs w' = ks"
      "sync_encryptedKeyPairs w' = Some (aes_enc C s1 (json_text (pairs_json ks)) p)"
      "selectedKeyPairIndex w' = i" "local_selectedKeyPairIndex w' = Some i"
      "publicKey w' = pub k" "privateKey w' = priv k" "ownerAddress w' = a"
      "sync_store w' = Some \<lparr>hash = sha256 C p, store_public = pub k,
         encryptedPrivateKey = aes_enc C s2 (priv k) p\<rparr>"
  shows "synced C p w'"
proof -
  have "aes_dec C (aes_enc C s2 (priv k) p) p = Inr (priv k)"
    "aes_enc C s1 (json_text (pairs_json ks)) p \<noteq> []"
    using C by (simp_all add: crypto_ok_def)
  then show ?thesis
    unfolding synced_def using p ks k w' decrypt_saved [OF C] by simp
qed

lemma first_bad_None: "first_bad C i ks = None \<Longrightarrow> k \<in> set ks \<Longrightarrow> \<exists>j. check_pair C j k = None"
  by (induction C i ks rule: first_bad.induct) (auto split: option.splits)

lemma check_pair_None:
  "check_pair C i k = None \<longleftrightarrow> pub k \<noteq> [] \<and> priv k \<noteq> []
     \<and> (\<exists>seed. b58_decode C (priv k) = Inr seed \<and> length seed = 32 \<and> b58_encode C (seed_public C seed) = pub k)"
  by (auto simp: check_pair_def split: sum.splits if_splits)

lemma checked_decodes: "crypto_ok C \<Longrightarrow> check_pair C i k = None \<Longrightarrow> is_ok (b58_decode C (pub k))"
  by (metis check_pair_None crypto_ok_def is_ok.simps(1))

lemma synced_base:
  assumes "synced C p w"
  shows "p \<noteq> []" "storedPassword w = p" "local_password w = Some p"
    "\<forall>k \<in> set (keyPairs w). is_ok (b58_decode C (pub k))" "keyPairs w \<noteq> []"
  using assms by (auto simp: synced_def nth_js_def split: if_splits)

lemmas wallet_ops = saveKeyPairsToStorage_def save_store_def saveSelectedKeyPairIndex_def Let_def

lemma append_cases [consumes 2]:
  assumes C: "crypto_ok C" and w: "synced C p w"
  obtains (alert) m where "appendKeyPairs C new w = setAlert m w"
  | (added) ks a where "first_bad C 0 new = None" "ks = keyPairs w @ filter (\<lambda>k. k \<notin> set (keyPairs w)) new"
      "ks \<noteq> keyPairs w" "\<forall>k \<in> set ks. is_ok (b58_decode C (pub k))"
      "generateOwnerAddress C (pub (last ks)) = Inr a"
      "appendKeyPairs C new w = fst (append_cb C p new (keyPairs w) w)"
proof (cases "first_bad C 0 new")
  case (Some m)
  then show ?thesis using alert synced_base [OF w] by (auto simp: appendKeyPairs_def)
next
  case None
  let ?fresh = "filter (\<lambda>k. k \<notin> set (keyPairs w)) new" and ?ks = "keyPairs w @ filter (\<lambda>k. k \<notin> set (keyPairs w)) new"
  note b = synced_base [OF w]
  have l: "appendKeyPairs C new w =
      (case append_cb C p new (keyPairs w) w of
         (v, False) \<Rightarrow> v | (v, True) \<Rightarrow> fst (append_cb C p new [] (setAlert decrypt_failed v)))"
    using None b load_synced [OF w b(2)] by (simp add: appendKeyPairs_def)
  show ?thesis
  proof (cases "?fresh = []")
    case True
    then show ?thesis by (intro alert) (simp add: l append_cb_def)
  next
    case False
    have d: "\<forall>k \<in> set ?ks. is_ok (b58_decode C (pub k))"
      using b(4) first_bad_None [OF None] checked_decodes [OF C] by fastforce
    have "last ?ks \<in> set ?ks" by (rule last_in_set) (use False in simp)
    then obtain a where a: "generateOwnerAddress C (pub (last ?ks)) = Inr a"
      using d owner_ok by blast
    then have "appendKeyPairs C new w = fst (append_cb C p new (keyPairs w) w)"
      using False by (simp add: l append_cb_def wallet_ops)
    then show ?thesis using False by (intro added [OF None refl _ d a]) simp_all
  qed
qed

lemma append_synced:
  assumes C: "crypto_ok C" and w: "synced C p w"
  shows "synced C p (appendKeyPairs C new w)"
  using C w
proof (cases rule: append_cases [where new = new])
  case (alert m)
  then show ?thesis using w by (simp add: synced_alert)
next
  case (added ks a)
  note b = synced_base [OF w]
  have ne: "ks \<noteq> []" using added(2,3) by auto
  show ?thesis
    unfolding added(6)
    by (rule synced_saved [OF C b(1-3) added(4) nth_js_last [OF ne] added(5)])
      (use added(2,3,5) b in \<open>auto simp: append_cb_def wallet_ops\<close>)
qed

lemma generate_synced:
  assumes C: "crypto_ok C" and w: "synced C p w"
  shows "synced C p (generateKeyPair C pk secret w)"
proof -
  let ?k = "\<lparr>pub = b58_encode C pk, priv = b58_encode C (take 32 secret)\<rparr>"
  note b = synced_base [OF w]
  have dk: "is_ok (b58_decode C (pub ?k))" using C by (simp add: crypto_ok_def)
  then obtain a where a: "generateOwnerAddress C (pub ?k) = Inr a" using owner_ok by blast
  have l: "generateKeyPair C pk secret w =
      (case generate_cb C p ?k a (keyPairs w) w of
         (v, False) \<Rightarrow> v | (v, True) \<Rightarrow> fst (generate_cb C p ?k a [] (setAlert decrypt_failed v)))"
    using a b load_synced [OF w b(2)] by (simp add: generateKeyPair_def Let_def)
  show ?thesis
  proof (cases "?k \<in> set (keyPairs w)")
    case True
    then show ?thesis using w by (simp add: l generate_cb_def synced_alert)
  next
    case False
    let ?ks = "keyPairs w @ [?k]"
    have d: "\<forall>k \<in> set ?ks. is_ok (b58_decode C (pub k))" using b(4) dk by auto
    have n: "nth_js ?ks (int (length ?ks) - 1) = Some ?k" using nth_js_last [of ?ks] by simp
    show ?thesis
      unfolding l
      by (rule synced_saved [OF C b(1-3) d n a])
        (use False a b in \<open>simp_all add: generate_cb_def wallet_ops\<close>)
  qed
qed

lemma splice_one_subset: "set (splice_one i xs) \<subseteq> set xs"
  by (auto simp: splice_one_def Let_def dest: in_set_takeD in_set_dropD)

lemma length_splice_one: "length xs \<le> Suc (length (splice_one i xs))"
  by (simp add: splice_one_def Let_def) linarith

text \<open>The wallet after a deletion that leaves the pairs \<open>k # ks\<close>.\<close>

definition deleted_wallet :: "crypto \<Rightarrow> string \<Rightarrow> key_pair \<Rightarrow> key_pair list \<Rightarrow> string \<Rightarrow> wallet \<Rightarrow> wallet" where
  "deleted_wallet C p k ks a w =
     save_store C k p ((saveSelectedKeyPairIndex 0 ((saveKeyPairsToStorage C (k # ks) p w)
       \<lparr>keyPairs := k # ks, selectedKeyPairIndex := 0, publicKey := pub k, privateKey := priv k\<rparr>))
       \<lparr>ownerAddress := a\<rparr>)"

lemma delete_cases [consumes 2]:
  assumes C: "crypto_ok C" and w: "synced C p w"
  obtains (alert) m where "length (keyPairs w) \<le> 1" "deleteKeyPair C i after w = setAlert m w"
  | (deleted) k ks a where "1 < length (keyPairs w)" "splice_one i (keyPairs w) = k # ks"
      "\<forall>k \<in> set (k # ks). is_ok (b58_decode C (pub k))" "generateOwnerAddress C (pub k) = Inr a"
      "deleteKeyPair C i after w =
         (case after (deleted_wallet C p k ks a w) of
            (v, False) \<Rightarrow> v | (v, True) \<Rightarrow> fst (delete_cb C p i after [] (setAlert decrypt_failed v)))"
proof -
  note b = synced_base [OF w]
  have l: "deleteKeyPair C i after w =
      (case delete_cb C p i after (keyPairs w) w of
         (v, False) \<Rightarrow> v | (v, True) \<Rightarrow> fst (delete_cb C p i after [] (setAlert decrypt_failed v)))"
    using b load_synced [OF w b(2)] by (simp add: deleteKeyPair_def)
  show ?thesis
  proof (cases "length (keyPairs w) \<le> 1")
    case True
    then show ?thesis by (intro alert) (simp_all add: l delete_cb_def)
  next
    case False
    obtain k ks where ks: "splice_one i (keyPairs w) = k # ks"
      using length_splice_one [of "keyPairs w" i] False by (cases "splice_one i (keyPairs w)") auto
    have d: "\<forall>k \<in> set (k # ks). is_ok (b58_decode C (pub k))"
      using b(4) splice_one_subset [of i "keyPairs w"] ks by auto
    then obtain a where a: "generateOwnerAddress C (pub k) = Inr a" using owner_ok [of C "pub k"] by auto
    then have "delete_cb C p i after (keyPairs w) w = after (deleted_wallet C p k ks a w)"
      using False ks by (simp add: delete_cb_def deleted_wallet_def wallet_ops)
    note l [unfolded this]
    with False show ?thesis by (intro deleted [OF _ ks d a]) simp_all
  qed
qed

lemma delete_synced:
  assumes C: "crypto_ok C" and w: "synced C p w"
  shows "synced C p (deleteKeyPair C i no_callback w)"
  using C w
proof (cases rule: delete_cases [where i = i and after = no_callback])
  case (alert m)
  then show ?thesis using w by (simp add: synced_alert)
next
  case (deleted k ks a)
  note b = synced_base [OF w]
  have n: "nth_js (k # ks) 0 = Some k" by (simp add: nth_js_def)
  show ?thesis
    unfolding deleted(5) no_callback_def
    by (simp, rule synced_saved [OF C b(1-3) deleted(3) n deleted(4)])
      (use b in \<open>simp_all add: deleted_wallet_def wallet_ops\<close>)
qed

lemma select_synced:
  assumes C: "crypto_ok C" and w: "synced C p w"
  shows "synced C p (setSelectedKeyPairFn C i w)"
proof (cases "nth_js (keyPairs w) i")
  case None
  then show ?thesis using w by (simp add: setSelectedKeyPairFn_def select_pair_def)
next
  case (Some k)
  note b = synced_base [OF w]
  obtain a where a: "generateOwnerAddress C (pub k) = Inr a"
    using b(4) nth_js_mem [OF Some] owner_ok by blast
  have "aes_dec C (aes_enc C s (priv k) p) p = Inr (priv k)" for s
    using C by (simp add: crypto_ok_def)
  then show ?thesis
    using w Some a b by (auto simp: setSelectedKeyPairFn_def select_pair_def synced_def wallet_ops)
qed

lemma toggle_synced: "synced C p w \<Longrightarrow> synced C p (toggleServiceMode w)"
  by (simp add: toggleServiceMode_def synced_def Let_def)

text \<open>Opening the popup again shows what was shown before.\<close>

lemma mount_synced:
  assumes w: "synced C p w"
  shows "mount_keys C (initial_react w) =
    w\<lparr>serviceMode := ''KV'', isAuthenticated := True, alert := None\<rparr>"
proof -
  let ?v = "(initial_react w)\<lparr>storedPassword := p\<rparr>"
  note b = synced_base [OF w]
  obtain k where k: "nth_js (keyPairs w) (selectedKeyPairIndex w) = Some k" "publicKey w = pub k"
      "privateKey w = priv k" "generateOwnerAddress C (pub k) = Inr (ownerAddress w)"
      "local_selectedKeyPairIndex w = Some (selectedKeyPairIndex w)"
    using w by (auto simp: synced_def)
  have "mount_keys C (initial_react w) = loadKeyPairsFromStorage C p (mount_cb C) ?v"
    using b(1,3) by (cases p) (simp_all add: mount_keys_def initial_react_def)
  also have "\<dots> = (case mount_cb C (keyPairs w) ?v of
       (v, False) \<Rightarrow> v | (v, True) \<Rightarrow> fst (mount_cb C [] (setAlert decrypt_failed v)))"
    by (rule load_synced [OF w]) (simp_all add: initial_react_def)
  also have "\<dots> = w\<lparr>serviceMode := ''KV'', isAuthenticated := True, alert := None\<rparr>"
    using b k
    by (simp add: mount_cb_def show_pair_def loadSelectedKeyPairIndex_def initial_react_def Let_def)
  finally show ?thesis .
qed

lemma reopen_synced: "synced C p w \<Longrightarrow> synced C p (reopen C w)"
proof -
  assume w: "synced C p w"
  then have "synced C p (mount_keys C (initial_react w))"
    by (simp only: mount_synced [OF w]) (simp add: synced_def)
  then show ?thesis by (simp add: reopen_def mount_mode_def synced_def split: option.splits list.splits)
qed

lemma wallet_step_synced: "crypto_ok C \<Longrightarrow> synced C p w \<Longrightarrow> synced C p (wallet_step C w e)"
  by (cases e)
    (simp_all add: append_synced generate_synced delete_synced select_synced toggle_synced reopen_synced)

interpretation wal: stepper "wallet_step C" "\<lambda>w. crypto_ok C \<longrightarrow> synced C p w" for C p
  by unfold_locales (simp add: wallet_step_synced)

text \<open>A wallet after sign-up has set the password: nothing is stored yet.\<close>

definition fresh_wallet :: "string \<Rightarrow> wallet" where
  "fresh_wallet p =
     \<lparr>serviceMode = ''KV'', publicKey = [], privateKey = [], ownerAddress = [], keyPairs = [],
      selectedKeyPairIndex = 0, isAuthenticated = False, storedPassword = p, alert = None,
      route = ''/signup'', salts = 0, sync_encryptedKeyPairs = None, sync_store = None,
      local_selectedKeyPairIndex = None, local_password = Some p, local_serviceMode = None,
      local_connections = None\<rparr>"

lemma first_key_synced:
  assumes C: "crypto_ok C" and p: "p \<noteq> []"
  shows "synced C p (generateKeyPair C pk secret (fresh_wallet p))"
proof -
  let ?k = "\<lparr>pub = b58_encode C pk, priv = b58_encode C (take 32 secret)\<rparr>"
  have dk: "is_ok (b58_decode C (pub ?k))" using C by (simp add: crypto_ok_def)
  then obtain a where a: "generateOwnerAddress C (pub ?k) = Inr a" using owner_ok by blast
  have l: "generateKeyPair C pk secret (fresh_wallet p) = fst (generate_cb C p ?k a [] (fresh_wallet p))"
    using a p by (simp add: generateKeyPair_def loadKeyPairsFromStorage_def Let_def) (simp add: fresh_wallet_def)
  have d: "\<forall>k \<in> set [?k]. is_ok (b58_decode C (pub k))" using dk by simp
  have n: "nth_js [?k] 0 = Some ?k" by (simp add: nth_js_def)
  have f: "storedPassword (fresh_wallet p) = p" "local_password (fresh_wallet p) = Some p"
    by (simp_all add: fresh_wallet_def)
  show ?thesis
    unfolding l
    by (rule synced_saved [OF C p f d n a])
      (simp_all add: generate_cb_def wallet_ops f a)
qed

definition wallet_run :: "crypto \<Rightarrow> string \<Rightarrow> 8 word list \<Rightarrow> 8 word list \<Rightarrow> wallet_event list \<Rightarrow> wallet" where
  "wallet_run C p pk secret es = foldl (wallet_step C) (generateKeyPair C pk secret (fresh_wallet p)) es"

lemma wallet_run_synced: "crypto_ok C \<Longrightarrow> p \<noteq> [] \<Longrightarrow> synced C p (wallet_run C p pk secret es)"
  using wal.run_inv [of C p] first_key_synced by (simp add: wallet_run_def)

section \<open>Properties\<close>

definition plain_crypto :: crypto where
  "plain_crypto =
     \<lparr>b58_decode = (\<lambda>s. Inr (map (\<lambda>c. of_nat (code c)) s)), b58_encode = map (\<lambda>b. char_of (unat b)),
      keccak256 = map (\<lambda>b. char_of (unat b)), seed_public = (\<lambda>s. s),
      aes_enc = (\<lambda>_ m p. CHR ''#'' # m), aes_dec = (\<lambda>t p. Inr (tl t)), sha256 = (\<lambda>p. p)\<rparr>"

lemma plain_crypto_ok: "crypto_ok plain_crypto"
proof -
  have "of_nat (code (char_of (unat b))) = b" for b :: "8 word"
    using take_bit_word_eq_self [of 8 b]
    by (simp add: unsigned_take_bit_eq [symmetric] flip: take_bit_eq_mod [of 8, simplified])
  then show ?thesis by (simp add: crypto_ok_def plain_crypto_def o_def map_idI)
qed



text \<open>
  Closing and opening the popup loses nothing: after any such sequence, reopening shows the same key
  pairs, the same selection, keys and address, and the user is authenticated.
\<close>

lemma reopen_restores:
  assumes "crypto_ok C" "p \<noteq> []"
  shows "let w = wallet_run C p pk secret es; w' = reopen C w in
      keyPairs w' = keyPairs w \<and> selectedKeyPairIndex w' = selectedKeyPairIndex w
    \<and> publicKey w' = publicKey w \<and> privateKey w' = privateKey w \<and> ownerAddress w' = ownerAddress w
    \<and> storedPassword w' = p \<and> isAuthenticated w'"
proof -
  define w where "w = wallet_run C p pk secret es"
  have w: "synced C p w" unfolding w_def by (rule wallet_run_synced [OF assms])
  show ?thesis
    unfolding w_def [symmetric] Let_def reopen_def mount_synced [OF w]
    using synced_base [OF w] by (simp add: mount_mode_def split: option.splits list.splits)
qed

text \<open>
  An import is all or nothing and admits only matching keys. Either the message for the first bad pair is shown
  and nothing else changes, or every imported pair decodes to 32 bytes whose derived public key is the
  one given, and the wallet holds its old pairs followed by the imported ones it did not have.
\<close>

lemma append_spec:
  assumes "crypto_ok C" "synced C p w"
  shows "(\<exists>m. appendKeyPairs C new w = setAlert m w)
    \<or> ((\<forall>k \<in> set new. \<exists>seed. b58_decode C (priv k) = Inr seed \<and> length seed = 32
          \<and> pub k = b58_encode C (seed_public C seed))
      \<and> keyPairs (appendKeyPairs C new w) = keyPairs w @ filter (\<lambda>k. k \<notin> set (keyPairs w)) new
      \<and> keyPairs (appendKeyPairs C new w) \<noteq> keyPairs w)"
  using assms
proof (cases rule: append_cases [where new = new])
  case (added ks a)
  have "\<forall>k \<in> set new. \<exists>seed. b58_decode C (priv k) = Inr seed \<and> length seed = 32
      \<and> pub k = b58_encode C (seed_public C seed)"
    using first_bad_None [OF added(1)] check_pair_None by metis
  moreover have "keyPairs (appendKeyPairs C new w) = ks"
    using added(2,3,5) by (auto simp: added(6) append_cb_def wallet_ops)
  ultimately show ?thesis using added(2,3) by simp
qed blast

lemma plain_synced: "synced plain_crypto ''pw'' (wallet_run plain_crypto ''pw'' [1] [2] [])"
  by (rule wallet_run_synced [OF plain_crypto_ok]) simp

text \<open>
  Deletion removes exactly the pair at the given position and keeps the order of the others, but never the
  last remaining pair.
\<close>

lemma delete_spec:
  assumes "crypto_ok C" "synced C p w"
  shows "keyPairs (deleteKeyPair C (int i) no_callback w) =
    (if length (keyPairs w) \<le> 1 then keyPairs w
     else take i (keyPairs w) @ drop (Suc i) (keyPairs w))
   \<and> keyPairs (deleteKeyPair C (int i) no_callback w) \<noteq> []"
  using assms
proof (cases rule: delete_cases [where i = "int i" and after = no_callback])
  case (alert m)
  then show ?thesis using synced_base [OF assms(2)] by (simp add: setAlert_def)
next
  case (deleted k ks a)
  have "keyPairs (deleteKeyPair C (int i) no_callback w) = k # ks"
    by (simp add: deleted(5) no_callback_def deleted_wallet_def wallet_ops)
  moreover have "splice_one (int i) (keyPairs w) = take i (keyPairs w) @ drop (Suc i) (keyPairs w)"
    by (auto simp: splice_one_def Let_def min_def)
  ultimately show ?thesis using deleted(1,2) by auto
qed

text \<open>
  A stored text that does not decrypt is overwritten: generating a key in that situation
  replaces the stored pairs by the new one alone, although only a failed decryption was reported.
\<close>

lemma undecryptable_overwritten:
  assumes "crypto_ok C" "storedPassword w = p" "p \<noteq> []"
    and "sync_encryptedKeyPairs w = Some t" "t \<noteq> []" "decrypt_pairs C p t = Inl e"
  shows "\<exists>t'. sync_encryptedKeyPairs (generateKeyPair C pk secret w) = Some t'
     \<and> decrypt_pairs C p t' = Inr [\<lparr>pub = b58_encode C pk, priv = b58_encode C (take 32 secret)\<rparr>]"
proof -
  let ?k = "\<lparr>pub = b58_encode C pk, priv = b58_encode C (take 32 secret)\<rparr>"
  have "is_ok (b58_decode C (pub ?k))" using assms(1) by (simp add: crypto_ok_def)
  then obtain a where a: "generateOwnerAddress C (pub ?k) = Inr a" using owner_ok by blast
  have "generateKeyPair C pk secret w = fst (generate_cb C p ?k a [] (setAlert decrypt_failed w))"
    using assms(2-6) a by (cases t) (simp_all add: generateKeyPair_def loadKeyPairsFromStorage_def Let_def)
  then show ?thesis
    using decrypt_saved [OF assms(1)] by (simp add: generate_cb_def wallet_ops)
qed

end
