(* ===== verification/Vault_Account.thy ===== *)
theory Vault_Account
  imports Vault_Transactions Vault_Wallet
begin

text \<open>
  The account pages of the ResVault popup: \<^verbatim>\<open>SignUp.jsx\<close>, \<^verbatim>\<open>Login.jsx\<close>, \<^verbatim>\<open>Home.jsx\<close>, the routes of \<^verbatim>\<open>App.js\<close>, and
  logging out (\<^verbatim>\<open>back\<close> of \<^verbatim>\<open>Dashboard.jsx\<close>). The pages work on the wallet of the context; the record adds what
  else the extension keeps in \<^verbatim>\<open>chrome.storage.local\<close> and \<^verbatim>\<open>localStorage\<close>, since removing the account clears
  it, and the flags of the two forms.
\<close>

section \<open>State\<close>

record 'j popup =
  ctx :: wallet
  vault_storage :: "'j storage"
  activeNetUrl :: "string option"
  local_nets :: "string option"
  showPasswordErrorModal :: bool
  showPasswordMismatchModal :: bool
  shouldGenerateKeyPair :: bool

section \<open>Routes\<close>

datatype screen = HomePage | SignUpPage | LoginPage | DashboardPage | ContractPage

text \<open>The page shown and the path after the redirections.\<close>

definition App :: "wallet \<Rightarrow> screen \<times> string" where
  "App w =
     (if \<not> isAuthenticated w
      then if route w = ''/signup'' then (SignUpPage, ''/signup'')
           else if route w = ''/login'' then (LoginPage, ''/login'')
           else (HomePage, ''/'')
      else if serviceMode w = ''KV'' then (DashboardPage, ''/dashboard'')
      else (ContractPage, ''/contract''))"

text \<open>
  The effect of the start page. The decrypted key is parsed as JSON; a text that is not JSON throws, and
  nothing after it runs.
\<close>

definition home_effect :: "crypto \<Rightarrow> wallet \<Rightarrow> wallet" where
  "home_effect C w =
     (case sync_store w of
        None \<Rightarrow> w
      | Some st \<Rightarrow>
          if store_public st = [] then w
          else case local_password w of
            Some (c # p) \<Rightarrow>
              (case aes_dec C (encryptedPrivateKey st) (c # p) of
                 Inl _ \<Rightarrow> w
               | Inr t \<Rightarrow>
                   (case json_parse t of
                      None \<Rightarrow> w
                    | Some v \<Rightarrow> w\<lparr>wallet.publicKey := store_public st, wallet.privateKey := js_text v,
                                  route := ''/dashboard''\<rparr>))
          | _ \<Rightarrow> w\<lparr>route := ''/login''\<rparr>)"

section \<open>Sign-up\<close>

text \<open>Whether \<^const>\<open>generateKeyPair\<close> stores a new pair and calls its callback.\<close>

definition stored_pairs :: "crypto \<Rightarrow> string \<Rightarrow> wallet \<Rightarrow> key_pair list" where
  "stored_pairs C password w =
     (case sync_encryptedKeyPairs w of
        Some (c # t) \<Rightarrow> (case decrypt_pairs C password (c # t) of Inl _ \<Rightarrow> [] | Inr ks \<Rightarrow> ks)
      | _ \<Rightarrow> [])"

definition generates :: "crypto \<Rightarrow> 8 word list \<Rightarrow> 8 word list \<Rightarrow> wallet \<Rightarrow> bool" where
  "generates C pk secret w =
     (storedPassword w \<noteq> [] \<and> is_ok (generateOwnerAddress C (b58_encode C pk))
      \<and> \<lparr>pub = b58_encode C pk, priv = b58_encode C (take 32 secret)\<rparr> \<notin> set (stored_pairs C (storedPassword w) w))"

definition signup_effect :: "crypto \<Rightarrow> 8 word list \<Rightarrow> 8 word list \<Rightarrow> 'j popup \<Rightarrow> 'j popup" where
  "signup_effect C pk secret P =
     (if shouldGenerateKeyPair P \<and> storedPassword (ctx P) \<noteq> []
      then (let w = generateKeyPair C pk secret (ctx P)
            in P\<lparr>ctx := (if generates C pk secret (ctx P) then w\<lparr>isAuthenticated := True, route := ''/dashboard''\<rparr> else w),
                 shouldGenerateKeyPair := False\<rparr>)
      else P)"

definition createAccount :: "crypto \<Rightarrow> string \<Rightarrow> string \<Rightarrow> 8 word list \<Rightarrow> 8 word list \<Rightarrow> 'j popup \<Rightarrow> 'j popup" where
  "createAccount C password confirm pk secret P =
     (if password = confirm
      then signup_effect C pk secret
             (P\<lparr>ctx := (ctx P)\<lparr>local_password := Some password, storedPassword := password\<rparr>,
                shouldGenerateKeyPair := True\<rparr>)
      else P\<lparr>showPasswordMismatchModal := True\<rparr>)"

section \<open>Login and logout\<close>

definition logout :: "wallet \<Rightarrow> wallet" where
  "logout w = w\<lparr>local_password := None, isAuthenticated := False, route := ''/login''\<rparr>"

fun findIndex :: "('a \<Rightarrow> bool) \<Rightarrow> 'a list \<Rightarrow> nat option" where
  "findIndex p [] = None"
| "findIndex p (x # xs) = (if p x then Some 0 else map_option Suc (findIndex p xs))"

text \<open>The pairs were decrypted; reading the first of no pairs throws.\<close>

definition show_login :: "int \<Rightarrow> key_pair \<Rightarrow> string \<Rightarrow> wallet \<Rightarrow> wallet" where
  "show_login i k password w =
     w\<lparr>selectedKeyPairIndex := i, wallet.publicKey := pub k, wallet.privateKey := priv k,
       local_password := Some password, storedPassword := password, isAuthenticated := True,
       route := ''/dashboard''\<rparr>"

definition login_pairs :: "key_pair list \<Rightarrow> string \<Rightarrow> string \<Rightarrow> 'j popup \<Rightarrow> 'j popup" where
  "login_pairs ks pk password P =
     (let w = (ctx P)\<lparr>keyPairs := ks\<rparr> in
      case findIndex (\<lambda>k. pub k = pk) ks of
        Some i \<Rightarrow> P\<lparr>ctx := show_login (int i) (ks ! i) password w\<rparr>
      | None \<Rightarrow>
          (case ks of
             [] \<Rightarrow> P\<lparr>ctx := w\<lparr>selectedKeyPairIndex := 0\<rparr>, showPasswordErrorModal := True\<rparr>
           | k # _ \<Rightarrow> P\<lparr>ctx := show_login 0 k password w\<rparr>))"

definition loginAccount :: "crypto \<Rightarrow> string \<Rightarrow> 'j popup \<Rightarrow> 'j popup" where
  "loginAccount C password P =
     (let refused = P\<lparr>showPasswordErrorModal := True\<rparr> in
      case sync_store (ctx P) of
        None \<Rightarrow> refused
      | Some st \<Rightarrow>
          if sha256 C password \<noteq> hash st then refused
          else case aes_dec C (encryptedPrivateKey st) password of
            Inl _ \<Rightarrow> refused
          | Inr _ \<Rightarrow>
              (case sync_encryptedKeyPairs (ctx P) of
                 Some (c # t) \<Rightarrow>
                   (case decrypt_pairs C password (c # t) of
                      Inl _ \<Rightarrow> refused
                    | Inr ks \<Rightarrow> login_pairs ks (store_public st) password P)
               | _ \<Rightarrow> refused))"

text \<open>Both areas of the extension's storage are cleared, the state of the context is not.\<close>

definition removeAccount :: "'j popup \<Rightarrow> 'j popup" where
  "removeAccount P =
     P\<lparr>ctx := (ctx P)\<lparr>sync_encryptedKeyPairs := None, sync_store := None, local_selectedKeyPairIndex := None,
         local_password := None, local_serviceMode := None, local_connections := None,
         isAuthenticated := False, route := ''/''\<rparr>,
       vault_storage := empty_storage, activeNetUrl := None, local_nets := None\<rparr>"

section \<open>Lemmas\<close>

lemma findIndex_Some:
  "x \<in> set xs \<Longrightarrow> p x \<Longrightarrow> \<exists>i. findIndex p xs = Some i \<and> i < length xs \<and> p (xs ! i)"
  by (induction xs) auto

lemma loginAccount_wrong:
  "sync_store (ctx P) = Some st \<Longrightarrow> sha256 C q \<noteq> hash st \<Longrightarrow> loginAccount C q P = P\<lparr>showPasswordErrorModal := True\<rparr>"
  by (simp add: loginAccount_def Let_def)

text \<open>What logging out keeps of a wallet in step with its stored copies, and what a login makes of it.\<close>

lemma login_synced:
  assumes w: "synced C p w" and inj: "inj_on pub (set (keyPairs w))"
    and P: "sync_store (ctx P) = sync_store w" "sync_encryptedKeyPairs (ctx P) = sync_encryptedKeyPairs w"
  shows "\<exists>i k. nth_js (keyPairs w) i = Some k \<and> wallet.publicKey w = pub k \<and> wallet.privateKey w = priv k
    \<and> loginAccount C p P = P\<lparr>ctx := show_login i k p ((ctx P)\<lparr>keyPairs := keyPairs w\<rparr>)\<rparr>"
proof -
  obtain j k st where k: "nth_js (keyPairs w) j = Some k" "wallet.publicKey w = pub k" "wallet.privateKey w = priv k"
      "sync_store w = Some st" "hash st = sha256 C p" "store_public st = pub k"
      "aes_dec C (encryptedPrivateKey st) p = Inr (priv k)"
    using w by (auto simp: synced_def)
  obtain t where t: "sync_encryptedKeyPairs w = Some t" "t \<noteq> []" "decrypt_pairs C p t = Inr (keyPairs w)"
    using w by (auto simp: synced_def)
  obtain i where i: "findIndex (\<lambda>x. pub x = pub k) (keyPairs w) = Some i" "i < length (keyPairs w)"
      "pub (keyPairs w ! i) = pub k"
    using findIndex_Some [OF nth_js_mem [OF k(1)], of "\<lambda>x. pub x = pub k"] by auto
  have eq: "keyPairs w ! i = k"
    using inj i(2,3) nth_js_mem [OF k(1)] by (auto dest: inj_onD)
  have "loginAccount C p P = login_pairs (keyPairs w) (pub k) p P"
    using t k P by (cases t) (simp_all add: loginAccount_def Let_def)
  also have "\<dots> = P\<lparr>ctx := show_login (int i) k p ((ctx P)\<lparr>keyPairs := keyPairs w\<rparr>)\<rparr>"
    using i(1) eq by (simp add: login_pairs_def Let_def)
  finally show ?thesis using i(2) eq k(2,3) by (intro exI [of _ "int i"] exI [of _ k]) (simp add: nth_js_def)
qed

lemma reopen_logged_out:
  "reopen C (logout w) = mount_mode ((initial_react (logout w))\<lparr>isAuthenticated := False\<rparr>)"
  by (simp add: reopen_def mount_keys_def initial_react_def logout_def)

lemma mount_mode_fields [simp]:
  "sync_store (mount_mode w) = sync_store w" "sync_encryptedKeyPairs (mount_mode w) = sync_encryptedKeyPairs w"
  "local_password (mount_mode w) = local_password w" "isAuthenticated (mount_mode w) = isAuthenticated w"
  "ownerAddress (mount_mode w) = ownerAddress w"
  by (simp_all add: mount_mode_def split: option.splits list.splits)

lemma logged_out_fields:
  "ctx P = logout w \<or> ctx P = reopen C (logout w) \<Longrightarrow>
    sync_store (ctx P) = sync_store w \<and> sync_encryptedKeyPairs (ctx P) = sync_encryptedKeyPairs w
    \<and> local_password (ctx P) = None \<and> \<not> isAuthenticated (ctx P) \<and> route (ctx P) \<noteq> ''/signup''"
  by (elim disjE) (simp_all only: reopen_logged_out,
    simp_all add: initial_react_def logout_def mount_mode_def mode_route_def split: option.splits list.splits)

text \<open>A new installation: nothing is stored and the sign-up page is open.\<close>

definition new_popup :: "'j popup" where
  "new_popup = \<lparr>ctx = (fresh_wallet [])\<lparr>local_password := None\<rparr>, vault_storage = empty_storage, activeNetUrl = None,
     local_nets = None, showPasswordErrorModal = False, showPasswordMismatchModal = False,
     shouldGenerateKeyPair = False\<rparr>"

lemma signup_wallet:
  assumes "crypto_ok C" "p \<noteq> []"
  shows "ctx (createAccount C p p pk secret (new_popup :: 'j popup))
    = (generateKeyPair C pk secret (fresh_wallet p))\<lparr>isAuthenticated := True, route := ''/dashboard''\<rparr>"
proof -
  have "is_ok (generateOwnerAddress C (b58_encode C pk))"
    using assms(1) by (simp add: crypto_ok_def generateOwnerAddress_def)
  then have "generates C pk secret (fresh_wallet p)"
    using assms(2) by (simp add: generates_def stored_pairs_def fresh_wallet_def)
  moreover have "(ctx (new_popup :: 'j popup))\<lparr>local_password := Some p, storedPassword := p\<rparr> = fresh_wallet p"
    by (simp add: new_popup_def fresh_wallet_def)
  moreover have "storedPassword (fresh_wallet p) \<noteq> []" using assms(2) by (simp add: fresh_wallet_def)
  ultimately show ?thesis by (simp add: createAccount_def signup_effect_def Let_def)
qed

definition account_run :: "crypto \<Rightarrow> string \<Rightarrow> 8 word list \<Rightarrow> 8 word list \<Rightarrow> wallet_event list \<Rightarrow> wallet" where
  "account_run C p pk secret es = foldl (wallet_step C) (ctx (createAccount C p p pk secret (new_popup :: unit popup))) es"

lemma signup_fields:
  assumes "crypto_ok C" "p \<noteq> []"
  shows "keyPairs (account_run C p pk secret []) = [\<lparr>pub = b58_encode C pk, priv = b58_encode C (take 32 secret)\<rparr>]"
    "wallet.publicKey (account_run C p pk secret []) = b58_encode C pk"
    "wallet.privateKey (account_run C p pk secret []) = b58_encode C (take 32 secret)"
    "local_connections (account_run C p pk secret []) = None"
proof -
  obtain a where "generateOwnerAddress C (b58_encode C pk) = Inr a"
    using assms(1) by (simp add: crypto_ok_def generateOwnerAddress_def)
  then show "keyPairs (account_run C p pk secret []) = [\<lparr>pub = b58_encode C pk, priv = b58_encode C (take 32 secret)\<rparr>]"
    "wallet.publicKey (account_run C p pk secret []) = b58_encode C pk"
    "wallet.privateKey (account_run C p pk secret []) = b58_encode C (take 32 secret)"
    "local_connections (account_run C p pk secret []) = None"
    unfolding account_run_def foldl.simps signup_wallet [OF assms]
    using assms(2) by (simp_all add: generateKeyPair_def loadKeyPairsFromStorage_def fresh_wallet_def generate_cb_def wallet_ops)
qed

lemma account_run_synced:
  assumes "crypto_ok C" "p \<noteq> []"
  shows "synced C p (account_run C p pk secret es)"
proof -
  have "synced C p (ctx (createAccount C p p pk secret (new_popup :: unit popup)))"
    using first_key_synced [OF assms] by (simp add: signup_wallet [OF assms] synced_def)
  then show ?thesis using wal.run_inv [of C p] assms(1) by (simp add: account_run_def)
qed

section \<open>Properties\<close>



text \<open>A login after the popup was opened again shows no owner address until it is opened once more.\<close>

lemma login_leaves_no_address:
  assumes "synced C p w" "inj_on pub (set (keyPairs w))" "ctx P = reopen C (logout w)"
  shows "ownerAddress (ctx (loginAccount C p P)) = []"
proof -
  have keep: "sync_store (ctx P) = sync_store w" "sync_encryptedKeyPairs (ctx P) = sync_encryptedKeyPairs w"
    using logged_out_fields [OF disjI2 [OF assms(3)]] by simp_all
  have "ownerAddress (ctx P) = []"
    unfolding assms(3) reopen_logged_out by (simp add: initial_react_def)
  then show ?thesis using login_synced [OF assms(1,2) keep] by (auto simp: show_login_def)
qed

text \<open>The start page parses a private key as JSON; for a key that is not JSON its effect does nothing.\<close>

lemma home_stays:
  assumes "synced C p w" "json_parse (wallet.privateKey w) = None"
  shows "home_effect C w = w"
  using assms by (cases p) (auto simp: synced_def home_effect_def)

end
