(* ===== verification/Vault_Dashboard.thy ===== *)
theory Vault_Dashboard
  imports Vault_Account JS_URL
begin

text \<open>
  The dashboard page of the ResVault popup, \<^verbatim>\<open>resvault/src/pages/Dashboard.jsx\<close>: choosing a net, connecting the
  current page, managing key pairs, and submitting an uploaded transaction. The record holds the state
  variables of the component over the popup's storage; a handler runs to the end of its callbacks
  before the next event. Effects whose dependencies a handler changed run after it. The tab the popup was
  opened on is the parameter \<open>T\<close>, the worker is called through the functions of its handlers.
\<close>

section \<open>State\<close>

record 'j dashboard =
  base :: "'j popup"
  requests :: sent
  domain :: string
  selectedNet :: string
  completeUrl :: string
  customUrl :: string
  isConnected :: bool
  faviconUrl :: string
  nets :: "(string \<times> string) list"
  showModal :: bool
  newNetName :: string
  protocol :: string
  error :: string
  jsonFileName :: string
  transactionData :: jv
  transactionError :: string
  showSuccessModal :: bool
  successResponse :: jv
  showDeleteModal :: bool

definition the_wallet :: "'j dashboard \<Rightarrow> wallet" where
  "the_wallet d = ctx (base d)"

definition the_vault :: "'j dashboard \<Rightarrow> 'j storage" where
  "the_vault d = vault_storage (base d)"

definition on_ctx :: "(wallet \<Rightarrow> wallet) \<Rightarrow> 'j dashboard \<Rightarrow> 'j dashboard" where
  "on_ctx f d = d\<lparr>base := (base d)\<lparr>ctx := f (ctx (base d))\<rparr>\<rparr>"

definition put_vault :: "'j storage \<Rightarrow> 'j dashboard \<Rightarrow> 'j dashboard" where
  "put_vault st d = d\<lparr>base := (base d)\<lparr>vault_storage := st\<rparr>\<rparr>"

definition alert_user :: "string \<Rightarrow> 'j dashboard \<Rightarrow> 'j dashboard" where
  "alert_user m = on_ctx (setAlert m)"

section \<open>Connection status\<close>

definition setDomainConnectionStatus :: "string \<Rightarrow> string \<Rightarrow> bool \<Rightarrow> 'j dashboard \<Rightarrow> 'j dashboard" where
  "setDomainConnectionStatus dm n b =
     on_ctx (\<lambda>w.
       let cs = (case local_connections w of None \<Rightarrow> [] | Some cs \<Rightarrow> cs);
           m = (case map_of cs dm of None \<Rightarrow> [] | Some m \<Rightarrow> m)
       in w\<lparr>local_connections := Some (oset dm (oset n b m) cs)\<rparr>)"

definition getDomainConnectionStatus :: "string \<Rightarrow> string \<Rightarrow> wallet \<Rightarrow> bool" where
  "getDomainConnectionStatus dm n w =
     (case local_connections w of
        None \<Rightarrow> False
      | Some cs \<Rightarrow> (case map_of cs dm of None \<Rightarrow> False | Some m \<Rightarrow> map_of m n = Some True))"

section \<open>Effects\<close>

definition tab_domain :: "('k, 'j) web \<Rightarrow> string option \<Rightarrow> string" where
  "tab_domain W T = (case T of Some (c # u) \<Rightarrow> getBaseDomain W (c # u) | _ \<Rightarrow> ''extension'')"

definition effect_tab :: "('k, 'j) web \<Rightarrow> string option \<Rightarrow> 'j dashboard \<Rightarrow> 'j dashboard" where
  "effect_tab W T d =
     (let dm = tab_domain W T; d1 = d\<lparr>domain := dm\<rparr>
      in if selectedNet d = [] then d1
         else d1\<lparr>isConnected := getDomainConnectionStatus dm (selectedNet d) (the_wallet d)\<rparr>)"

definition effect_favicon :: "('k, 'j) web \<Rightarrow> 'j dashboard \<Rightarrow> 'j dashboard" where
  "effect_favicon W d =
     (if domain d = [] \<or> selectedNet d = [] then d
      else d\<lparr>faviconUrl := (case oprop (requestData W (domain d) (selectedNet d) (the_vault d)) ''faviconUrl'' of
             Str u \<Rightarrow> u | _ \<Rightarrow> [])\<rparr>)"

definition effect_connection :: "'j dashboard \<Rightarrow> 'j dashboard" where
  "effect_connection d =
     (if domain d = [] \<or> selectedNet d = [] then d
      else d\<lparr>isConnected := getDomainConnectionStatus (domain d) (selectedNet d) (the_wallet d)\<rparr>)"

text \<open>The three effects that depend on the selected net run after it has changed.\<close>

definition settle :: "('k, 'j) web \<Rightarrow> string option \<Rightarrow> 'j dashboard \<Rightarrow> 'j dashboard \<Rightarrow> 'j dashboard" where
  "settle W T old d =
     (if selectedNet d = selectedNet old then d
      else effect_connection (effect_favicon W (effect_tab W T d)))"

definition mainnet_url :: "string \<Rightarrow> string" where
  "mainnet_url mode = (if mode = ''KV'' then ''https://cloud.resilientdb.com/graphql''
     else ''https://contract.resilientdb.com/graphql'')"

definition localnet_url :: "string \<Rightarrow> string" where
  "localnet_url mode = (if mode = ''KV'' then ''http://localhost:8000/graphql'' else ''http://localhost:8400/graphql'')"

text \<open>\<^verbatim>\<open>url.replace(/^https?:\/\/|\/graphql$/g, '')\<close>\<close>

definition strip_url :: "string \<Rightarrow> string" where
  "strip_url u =
     (let v = (if starts_with u ''https://'' then drop 8 u else if starts_with u ''http://'' then drop 7 u else u)
      in if ends_with v ''/graphql'' then take (length v - 8) v else v)"

definition effect_active :: "'j dashboard \<Rightarrow> 'j dashboard" where
  "effect_active d =
     (case activeNetUrl (base d) of
        Some (c # r) \<Rightarrow>
          (let u = c # r; d1 = d\<lparr>completeUrl := u\<rparr> in
           if u = mainnet_url ''KV'' \<or> u = mainnet_url ''Contract''
           then d1\<lparr>selectedNet := ''ResilientDB Mainnet''\<rparr>
           else if u = localnet_url ''KV'' \<or> u = localnet_url ''Contract''
           then d1\<lparr>selectedNet := ''ResilientDB Localnet''\<rparr>
           else d1\<lparr>selectedNet := (case find (\<lambda>(n, v). v = u) (nets d) of Some (n, _) \<Rightarrow> n | None \<Rightarrow> ''Custom URL''),
                   customUrl := strip_url u\<rparr>)
      | _ \<Rightarrow> d\<lparr>completeUrl := mainnet_url (serviceMode (the_wallet d)), selectedNet := ''ResilientDB Mainnet''\<rparr>)"

section \<open>Nets\<close>

definition net_json :: "string \<times> string \<Rightarrow> jv" where
  "net_json n = Obj [(''name'', Str (fst n)), (''url'', Str (snd n))]"

definition net_of_json :: "jv \<Rightarrow> (string \<times> string) option" where
  "net_of_json v = (case (oprop v ''name'', oprop v ''url'') of (Str n, Str u) \<Rightarrow> Some (n, u) | _ \<Rightarrow> None)"

text \<open>Only what the page itself stores is read back; another text makes the effect throw.\<close>

definition load_nets :: "string option \<Rightarrow> (string \<times> string) list res" where
  "load_nets t =
     (case t of
        None \<Rightarrow> Inr []
      | Some s \<Rightarrow>
          (case json_parse s of
             None \<Rightarrow> Inl (Error ''SyntaxError'')
           | Some (Arr vs) \<Rightarrow>
               (case opt_list (map net_of_json vs) of Some ns \<Rightarrow> Inr ns | None \<Rightarrow> Inl (TypeError ''not a net''))
           | Some v \<Rightarrow> if truthy v then Inl (TypeError ''nets.find is not a function'') else Inr []))"

definition save_nets :: "(string \<times> string) list \<Rightarrow> 'j dashboard \<Rightarrow> 'j dashboard" where
  "save_nets ns d = d\<lparr>nets := ns, base := (base d)\<lparr>local_nets := Some (json_text (Arr (map net_json ns)))\<rparr>\<rparr>"

text \<open>Opening the page: the initial state and its effects.\<close>

definition open_dashboard :: "('k, 'j) web \<Rightarrow> string option \<Rightarrow> 'j popup \<Rightarrow> 'j dashboard res" where
  "open_dashboard W T P =
     bind_res (load_nets (local_nets P)) (\<lambda>ns.
       let d = \<lparr>base = P, requests = [], domain = tab_domain W T, selectedNet = [], completeUrl = [], customUrl = [],
             isConnected = False, faviconUrl = [], nets = ns, showModal = False, newNetName = [],
             protocol = ''http'', error = [], jsonFileName = [], transactionData = Null, transactionError = [],
             showSuccessModal = False, successResponse = Null, showDeleteModal = False\<rparr>
       in Inr (settle W T d (effect_active d)))"

definition graphql_url :: "string \<Rightarrow> string \<Rightarrow> string" where
  "graphql_url prot u = prot @ ''://'' @ u @ ''/graphql''"

definition toggleProtocol :: "'j dashboard \<Rightarrow> 'j dashboard" where
  "toggleProtocol d =
     (let prot = (if protocol d = ''http'' then ''https'' else ''http''); d1 = d\<lparr>protocol := prot\<rparr>
      in if selectedNet d = ''Custom URL'' \<and> customUrl d \<noteq> []
         then d1\<lparr>completeUrl := graphql_url prot (customUrl d)\<rparr> else d1)"

definition addNet :: "('k, 'j) web \<Rightarrow> string option \<Rightarrow> 'j dashboard \<Rightarrow> 'j dashboard" where
  "addNet W T d =
     (if trim (newNetName d) = [] \<or> trim (customUrl d) = []
      then alert_user ''Both Net Name and GraphQL URL are required.'' (d\<lparr>error := ''Both fields are required.''\<rparr>)
      else
        (let d1 = save_nets (nets d @ [(newNetName d, graphql_url (protocol d) (customUrl d))])
                    (d\<lparr>error := [], newNetName := [], customUrl := [], selectedNet := newNetName d\<rparr>);
             d2 = settle W T d d1
         in settle W T d2 (effect_active d2)))"

definition removeNet :: "('k, 'j) web \<Rightarrow> string option \<Rightarrow> string \<Rightarrow> 'j dashboard \<Rightarrow> 'j dashboard" where
  "removeNet W T name d =
     (let d1 = save_nets (filter (\<lambda>(n, u). n \<noteq> name) (nets d)) d in settle W T d1 (effect_active d1))"

definition handleCustomUrlChange :: "string \<Rightarrow> 'j dashboard \<Rightarrow> 'j dashboard" where
  "handleCustomUrlChange v d = d\<lparr>customUrl := v, completeUrl := graphql_url (protocol d) v\<rparr>"

section \<open>Connecting\<close>

text \<open>Both calls of the worker continue when it has answered, whatever the answer is.\<close>

definition connect :: "('k, 'j) web \<Rightarrow> 'k res \<Rightarrow> bytes \<times> bytes \<times> bytes \<Rightarrow> 'j dashboard \<Rightarrow> 'j dashboard" where
  "connect W key vs d =
     setDomainConnectionStatus (domain d) (selectedNet d) True
       (put_vault (snd (storeKeys W key vs (domain d) (selectedNet d) (wallet.publicKey (the_wallet d))
           (wallet.privateKey (the_wallet d)) (completeUrl d) (the_vault d)))
         (d\<lparr>isConnected := True\<rparr>))"

definition disconnect :: "'j dashboard \<Rightarrow> 'j dashboard" where
  "disconnect d =
     setDomainConnectionStatus (domain d) (selectedNet d) False
       (put_vault (snd (disconnectKeys (domain d) (selectedNet d) (the_vault d))) (d\<lparr>isConnected := False\<rparr>))"

definition toggleConnection :: "('k, 'j) web \<Rightarrow> 'k res \<Rightarrow> bytes \<times> bytes \<times> bytes \<Rightarrow> 'j dashboard \<Rightarrow> 'j dashboard" where
  "toggleConnection W key vs d =
     (if wallet.publicKey (the_wallet d) = [] \<or> wallet.privateKey (the_wallet d) = []
      then alert_user ''Public or Private key is missing.'' d
      else if \<not> isConnected d then connect W key vs d
      else disconnect d)"

definition custom_of :: "string \<Rightarrow> string option" where
  "custom_of u = (case split_str ''://'' [] u of a # b # _ \<Rightarrow> Some (replace_first ''/graphql'' [] b) | _ \<Rightarrow> None)"

definition choose_net :: "string \<Rightarrow> string \<Rightarrow> 'j dashboard \<Rightarrow> 'j dashboard" where
  "choose_net u v d = d\<lparr>completeUrl := u, selectedNet := v, base := (base d)\<lparr>activeNetUrl := Some u\<rparr>\<rparr>"

text \<open>A stored net whose address has no \<^verbatim>\<open>://\<close> makes the function throw before it changes anything.\<close>

definition switchNetwork :: "string \<Rightarrow> 'j dashboard \<Rightarrow> 'j dashboard" where
  "switchNetwork v d =
     (let mode = serviceMode (the_wallet d) in
      if v = ''Manage Nets'' then d\<lparr>showModal := True\<rparr>
      else if v = ''ResilientDB Mainnet'' then choose_net (mainnet_url mode) v d
      else if v = ''ResilientDB Localnet'' then choose_net (localnet_url mode) v d
      else if v = ''Custom URL''
      then choose_net (if customUrl d \<noteq> [] then graphql_url (protocol d) (customUrl d) else protocol d @ ''://'') v d
      else case find (\<lambda>(n, u). n = v) (nets d) of
        None \<Rightarrow> choose_net [] v d
      | Some (n, u) \<Rightarrow> (case custom_of u of None \<Rightarrow> d | Some cu \<Rightarrow> choose_net u v (d\<lparr>customUrl := cu\<rparr>)))"

definition handleNetworkChange :: "('k, 'j) web \<Rightarrow> string option \<Rightarrow> string \<Rightarrow> 'j dashboard \<Rightarrow> 'j dashboard" where
  "handleNetworkChange W T v d =
     (if v = selectedNet d then d
      else settle W T d (switchNetwork v (if isConnected d then disconnect d else d)))"

definition disconnectDueToKeysChange :: "'j dashboard \<Rightarrow> 'j dashboard" where
  "disconnectDueToKeysChange d = (if isConnected d then disconnect d else d)"

section \<open>Key pairs\<close>

text \<open>
  The handlers belong to the rendering in which the user acted: what they read of the context in a callback
  is what it was then.
\<close>

definition switchKeyPair :: "crypto \<Rightarrow> int \<Rightarrow> 'j dashboard \<Rightarrow> 'j dashboard" where
  "switchKeyPair C i d =
     (case select_pair C (keyPairs (the_wallet d)) (storedPassword (the_wallet d)) i (the_wallet d) of
        (w, threw) \<Rightarrow>
          if threw then on_ctx (\<lambda>_. w) d else disconnectDueToKeysChange (on_ctx (\<lambda>_. w) d))"

definition handleGenerateKeyPair :: "crypto \<Rightarrow> 8 word list \<Rightarrow> 8 word list \<Rightarrow> 'j dashboard \<Rightarrow> 'j dashboard" where
  "handleGenerateKeyPair C pk secret d =
     (let n = length (keyPairs (the_wallet d)); d1 = on_ctx (generateKeyPair C pk secret) d
      in if generates C pk secret (the_wallet d)
         then disconnectDueToKeysChange (on_ctx (\<lambda>w. w\<lparr>selectedKeyPairIndex := int n - 1\<rparr>) d1)
         else d1)"

definition handleDeleteKeyPair :: "crypto \<Rightarrow> 'j dashboard \<Rightarrow> 'j dashboard" where
  "handleDeleteKeyPair C d =
     (let w = the_wallet d in
      if 1 < length (keyPairs w)
      then (on_ctx (deleteKeyPair C (selectedKeyPairIndex w)
             (\<lambda>v. select_pair C (keyPairs w) (storedPassword w) 0 (v\<lparr>selectedKeyPairIndex := 0\<rparr>))) d)
             \<lparr>showDeleteModal := False\<rparr>
      else d)"

text \<open>A file the user chose or dropped: name, type and text.\<close>

record upload =
  file_name :: string
  file_type :: string
  file_text :: string

definition json_upload :: "upload option \<Rightarrow> upload option" where
  "json_upload f = (case f of Some u \<Rightarrow> if file_type u = ''application/json'' then Some u else None | None \<Rightarrow> None)"

text \<open>
  The validation loop of \<^verbatim>\<open>appendKeyPairs\<close> on parsed values. A value without the two properties is refused with a
  message, \<^verbatim>\<open>null\<close> makes the loop throw; of an accepted value the two keys are kept.
\<close>

definition check_json :: "crypto \<Rightarrow> nat \<Rightarrow> jv \<Rightarrow> string option res" where
  "check_json C i v =
     bind_res (jget v ''publicKey'') (\<lambda>p.
       let s = oprop v ''privateKey''; idx = show_nat i in
       if \<not> truthy p \<or> \<not> truthy s
       then Inr (Some (''Key pair at index '' @ idx @ '' is missing publicKey or privateKey.''))
       else case (p, s) of
         (Str pk, Str sk) \<Rightarrow> Inr (check_pair C i \<lparr>pub = pk, priv = sk\<rparr>)
       | (_, Str sk) \<Rightarrow>
           Inr (Some (case b58_decode C sk of
               Inl _ \<Rightarrow> ''Error validating key pair at index '' @ idx @ ''.''
             | Inr seed \<Rightarrow>
                 if length seed \<noteq> 32 then ''Private key at index '' @ idx @ '' is not 32 bytes.''
                 else ''Public key does not match private key at index '' @ idx @ ''.''))
       | _ \<Rightarrow> Inr (Some (''Error validating key pair at index '' @ idx @ ''.'')))"

fun upload_error :: "crypto \<Rightarrow> nat \<Rightarrow> jv list \<Rightarrow> string option res" where
  "upload_error C i [] = Inr None"
| "upload_error C i (v # vs) =
     bind_res (check_json C i v) (\<lambda>m. case m of Some t \<Rightarrow> Inr (Some t) | None \<Rightarrow> upload_error C (Suc i) vs)"

definition append_json :: "crypto \<Rightarrow> jv list \<Rightarrow> wallet \<Rightarrow> wallet res" where
  "append_json C vs w =
     (if storedPassword w = [] then Inr (setAlert no_password w)
      else bind_res (upload_error C 0 vs) (\<lambda>m.
        case m of
          Some t \<Rightarrow> Inr (setAlert t w)
        | None \<Rightarrow> Inr (appendKeyPairs C (case opt_list (map pair_of_json vs) of Some ks \<Rightarrow> ks | None \<Rightarrow> []) w)))"

definition upload_value :: "crypto \<Rightarrow> jv \<Rightarrow> wallet \<Rightarrow> wallet res" where
  "upload_value C v w =
     (case v of
        Arr vs \<Rightarrow> append_json C vs w
      | _ \<Rightarrow> bind_res (jget v ''publicKey'') (\<lambda>p.
               if truthy p \<and> truthy (oprop v ''privateKey'') then append_json C [v] w
               else Inr (setAlert ''Invalid JSON format for key pairs.'' w)))"

definition handleKeyPairFileUpload :: "crypto \<Rightarrow> upload option \<Rightarrow> 'j dashboard \<Rightarrow> 'j dashboard" where
  "handleKeyPairFileUpload C f d =
     (case json_upload f of
        None \<Rightarrow> alert_user ''Please upload a valid JSON file.'' d
      | Some u \<Rightarrow>
          (case json_parse (file_text u) of
             None \<Rightarrow> alert_user ''Error parsing JSON file.'' d
           | Some v \<Rightarrow>
               (case upload_value C v (the_wallet d) of
                  Inl _ \<Rightarrow> alert_user ''Error parsing JSON file.'' d
                | Inr w \<Rightarrow> on_ctx (\<lambda>_. w) d)))"

text \<open>The link a download button clicks, and its file name.\<close>

definition data_url :: "jv \<Rightarrow> string" where
  "data_url v = ''data:text/json;charset=utf-8,'' @ encodeURIComponent (json_text v)"

definition handleDownloadKeyPair :: "'j dashboard \<Rightarrow> string \<times> string" where
  "handleDownloadKeyPair d =
     (data_url (pair_json \<lparr>pub = wallet.publicKey (the_wallet d), priv = wallet.privateKey (the_wallet d)\<rparr>),
      ''keypair.json'')"

definition handleDownloadAllKeyPairs :: "'j dashboard \<Rightarrow> string \<times> string" where
  "handleDownloadAllKeyPairs d = (data_url (pairs_json (keyPairs (the_wallet d))), ''all-keypairs.json'')"

section \<open>Transactions\<close>

definition refuse_upload :: "string \<Rightarrow> string \<Rightarrow> 'j dashboard \<Rightarrow> 'j dashboard" where
  "refuse_upload m a d = alert_user a (d\<lparr>transactionData := Null, transactionError := m\<rparr>)"

definition transaction_fields :: "jv \<Rightarrow> bool res" where
  "transaction_fields v =
     bind_res (jget v ''asset'') (\<lambda>a.
       Inr (truthy a \<and> truthy (oprop v ''recipientAddress'') \<and> truthy (oprop v ''amount'')))"

definition handleFileUpload :: "upload option \<Rightarrow> 'j dashboard \<Rightarrow> 'j dashboard" where
  "handleFileUpload f d =
     (case json_upload f of
        None \<Rightarrow> refuse_upload ''Please upload a JSON file.'' ''Please upload a valid JSON file.'' (d\<lparr>jsonFileName := []\<rparr>)
      | Some u \<Rightarrow>
          (let d1 = d\<lparr>jsonFileName := file_name u\<rparr>;
               bad = refuse_upload ''Invalid JSON format.'' ''Invalid JSON format.'' d1;
               missing = ''Invalid JSON format: Missing required fields.''
           in case json_parse (file_text u) of
                None \<Rightarrow> bad
              | Some v \<Rightarrow>
                  (case transaction_fields v of
                     Inl _ \<Rightarrow> bad
                   | Inr True \<Rightarrow> d1\<lparr>transactionData := v, transactionError := []\<rparr>
                   | Inr False \<Rightarrow> refuse_upload missing missing d1)))"

definition refuse_submit :: "string \<Rightarrow> 'j dashboard \<Rightarrow> 'j dashboard" where
  "refuse_submit m d = alert_user m (d\<lparr>transactionError := m\<rparr>)"

definition submitted :: "jv \<Rightarrow> 'j dashboard \<Rightarrow> 'j dashboard" where
  "submitted r d =
     (if truthy (oprop r ''success'')
      then d\<lparr>successResponse := oprop r ''data'', showSuccessModal := True, transactionError := [],
             jsonFileName := [], transactionData := Null\<rparr>
      else refuse_submit (js_text (js_or (oprop r ''error'') (Str ''Transaction submission failed.''))) d)"

definition handleSubmit :: "('k, 'j) web \<Rightarrow> network \<Rightarrow> 'j dashboard \<Rightarrow> 'j dashboard" where
  "handleSubmit W N d =
     (if \<not> truthy (transactionData d) then refuse_submit ''No valid transaction data found.'' d
      else if \<not> isConnected d then refuse_submit ''Please connect to a net before submitting a transaction.'' d
      else (case submitTransactionFromDashboard W N (transactionData d) (domain d) (selectedNet d) (the_vault d)
              (requests d) of
              (r, h) \<Rightarrow> submitted r (d\<lparr>requests := h\<rparr>)))"

section \<open>Events\<close>

datatype 'k dash_event =
    ToggleConnection "'k res" "bytes \<times> bytes \<times> bytes"
  | ChangeNetwork string
  | TypeUrl string
  | ToggleProtocol
  | TypeName string
  | AddNet
  | RemoveNet string
  | SwitchPair int
  | GeneratePair "8 word list" "8 word list"
  | DeletePair
  | UploadPairs "upload option"
  | UploadTransaction "upload option"
  | Submit

fun dash_step :: "crypto \<Rightarrow> ('k, 'j) web \<Rightarrow> network \<Rightarrow> string option \<Rightarrow> 'j dashboard \<Rightarrow> 'k dash_event \<Rightarrow> 'j dashboard" where
  "dash_step C W N T d (ToggleConnection key vs) = toggleConnection W key vs d"
| "dash_step C W N T d (ChangeNetwork v) = handleNetworkChange W T v d"
| "dash_step C W N T d (TypeUrl v) = handleCustomUrlChange v d"
| "dash_step C W N T d ToggleProtocol = toggleProtocol d"
| "dash_step C W N T d (TypeName v) = d\<lparr>newNetName := v\<rparr>"
| "dash_step C W N T d AddNet = addNet W T d"
| "dash_step C W N T d (RemoveNet v) = removeNet W T v d"
| "dash_step C W N T d (SwitchPair i) = switchKeyPair C i d"
| "dash_step C W N T d (GeneratePair pk secret) = handleGenerateKeyPair C pk secret d"
| "dash_step C W N T d DeletePair = handleDeleteKeyPair C d"
| "dash_step C W N T d (UploadPairs f) = handleKeyPairFileUpload C f d"
| "dash_step C W N T d (UploadTransaction f) = handleFileUpload f d"
| "dash_step C W N T d Submit = handleSubmit W N d"

section \<open>Lemmas\<close>

lemma on_ctx_simps [simp]:
  "the_wallet (on_ctx f d) = f (the_wallet d)" "the_vault (on_ctx f d) = the_vault d"
  "domain (on_ctx f d) = domain d" "selectedNet (on_ctx f d) = selectedNet d"
  "isConnected (on_ctx f d) = isConnected d" "requests (on_ctx f d) = requests d"
  "completeUrl (on_ctx f d) = completeUrl d" "transactionData (on_ctx f d) = transactionData d"
  by (simp_all add: on_ctx_def the_wallet_def the_vault_def)

lemma put_vault_simps [simp]:
  "the_wallet (put_vault st d) = the_wallet d" "the_vault (put_vault st d) = st"
  "domain (put_vault st d) = domain d" "selectedNet (put_vault st d) = selectedNet d"
  "isConnected (put_vault st d) = isConnected d" "requests (put_vault st d) = requests d"
  "completeUrl (put_vault st d) = completeUrl d" "transactionData (put_vault st d) = transactionData d"
  by (simp_all add: put_vault_def the_wallet_def the_vault_def)

lemma status_simps [simp]:
  "getDomainConnectionStatus a n' (the_wallet (setDomainConnectionStatus dm n b d))
     = (if a = dm \<and> n' = n then b else getDomainConnectionStatus a n' (the_wallet d))"
  "wallet.publicKey (the_wallet (setDomainConnectionStatus dm n b d)) = wallet.publicKey (the_wallet d)"
  "wallet.privateKey (the_wallet (setDomainConnectionStatus dm n b d)) = wallet.privateKey (the_wallet d)"
  "keyPairs (the_wallet (setDomainConnectionStatus dm n b d)) = keyPairs (the_wallet d)"
  "storedPassword (the_wallet (setDomainConnectionStatus dm n b d)) = storedPassword (the_wallet d)"
  "sync_encryptedKeyPairs (the_wallet (setDomainConnectionStatus dm n b d)) = sync_encryptedKeyPairs (the_wallet d)"
  by (auto simp: setDomainConnectionStatus_def getDomainConnectionStatus_def Let_def split: option.splits)

lemma status_fields [simp]:
  "the_vault (setDomainConnectionStatus dm n b d) = the_vault d" "domain (setDomainConnectionStatus dm n b d) = domain d"
  "selectedNet (setDomainConnectionStatus dm n b d) = selectedNet d"
  "isConnected (setDomainConnectionStatus dm n b d) = isConnected d"
  "requests (setDomainConnectionStatus dm n b d) = requests d"
  "transactionData (setDomainConnectionStatus dm n b d) = transactionData d"
  by (simp_all add: setDomainConnectionStatus_def)

lemma update_simps [simp]:
  "the_wallet (d\<lparr>isConnected := b\<rparr>) = the_wallet d" "the_vault (d\<lparr>isConnected := b\<rparr>) = the_vault d"
  "the_wallet (d\<lparr>requests := h\<rparr>) = the_wallet d" "the_vault (d\<lparr>requests := h\<rparr>) = the_vault d"
  by (simp_all add: the_wallet_def the_vault_def)

text \<open>
  The connection of the current page: \<open>linked\<close> says that the page is shown as connected exactly when a status and an
  entry for the selected net exist, and that there are none for other nets; \<open>holds_keys\<close> that the entry opens to the
  keys shown.
\<close>

definition linked :: "string \<Rightarrow> 'j dashboard \<Rightarrow> bool" where
  "linked dm d \<longleftrightarrow> domain d = dm
     \<and> (\<forall>n. getDomainConnectionStatus dm n (the_wallet d) = (isConnected d \<and> n = selectedNet d))
     \<and> (\<forall>n. (key_entry (the_vault d) dm n \<noteq> None) = (isConnected d \<and> n = selectedNet d))"

definition holds_keys :: "('k, 'j) web \<Rightarrow> 'j dashboard \<Rightarrow> bool" where
  "holds_keys W d \<longleftrightarrow> (\<exists>e u. key_entry (the_vault d) (domain d) (selectedNet d) = Some e
     \<and> unlock W e = Inr (wallet.publicKey (the_wallet d), wallet.privateKey (the_wallet d), u))"

definition pairs_ok :: "crypto \<Rightarrow> 'j dashboard \<Rightarrow> bool" where
  "pairs_ok C d \<longleftrightarrow> (\<forall>k \<in> set (keyPairs (the_wallet d)) \<union> set (stored_pairs C (storedPassword (the_wallet d)) (the_wallet d)).
     is_ok (b58_decode C (pub k)))"

definition session_ok :: "crypto \<Rightarrow> ('k, 'j) web \<Rightarrow> string option \<Rightarrow> 'j dashboard \<Rightarrow> bool" where
  "session_ok C W T d \<longleftrightarrow> linked (tab_domain W T) d \<and> (isConnected d \<longrightarrow> holds_keys W d) \<and> pairs_ok C d"

text \<open>What the invariant depends on.\<close>

lemma session_cong:
  assumes "session_ok C W T d" "domain d' = domain d" "selectedNet d' = selectedNet d" "isConnected d' = isConnected d"
    "the_vault d' = the_vault d" "local_connections (the_wallet d') = local_connections (the_wallet d)"
    "wallet.publicKey (the_wallet d') = wallet.publicKey (the_wallet d)"
    "wallet.privateKey (the_wallet d') = wallet.privateKey (the_wallet d)"
    "keyPairs (the_wallet d') = keyPairs (the_wallet d)" "storedPassword (the_wallet d') = storedPassword (the_wallet d)"
    "sync_encryptedKeyPairs (the_wallet d') = sync_encryptedKeyPairs (the_wallet d)"
  shows "session_ok C W T d'"
proof -
  have c: "getDomainConnectionStatus dm n (the_wallet d') = getDomainConnectionStatus dm n (the_wallet d)" for dm n
    using assms(6) by (simp add: getDomainConnectionStatus_def)
  have s: "stored_pairs C p (the_wallet d') = stored_pairs C p (the_wallet d)" for p
    using assms(11) by (simp add: stored_pairs_def)
  show ?thesis
    using assms(1) unfolding session_ok_def linked_def holds_keys_def pairs_ok_def assms(2-5,7-10) c s .
qed

lemma disconnect_linked:
  assumes "linked dm d" "isConnected d"
  shows "linked dm (disconnect d) \<and> \<not> isConnected (disconnect d)"
proof -
  have v: "snd (disconnectKeys a n st) = commit (Disconnect a n) st st" for a n and st :: "'a storage"
    by (auto simp: disconnectKeys_def disconnectKeys_cb_def Let_def split: option.splits)
  show ?thesis
    using assms unfolding linked_def disconnect_def
    by (simp add: v key_entry_commit del: commit.simps) auto
qed

lemma disconnectDue_linked:
  "linked dm d \<Longrightarrow> linked dm (disconnectDueToKeysChange d) \<and> \<not> isConnected (disconnectDueToKeysChange d)"
  using disconnect_linked by (auto simp: disconnectDueToKeysChange_def)

lemma connect_linked:
  assumes "web_ok W" "linked dm d" "\<not> isConnected d" and "\<forall>pk sk u. is_ok (seal_entry W key vs pk sk u)"
  shows "linked dm (connect W key vs d) \<and> holds_keys W (connect W key vs d)"
proof -
  let ?w = "the_wallet d"
  obtain e where e: "seal_entry W key vs (wallet.publicKey ?w) (wallet.privateKey ?w) (completeUrl d) = Inr e"
    using assms(4) unfolding is_ok_iff by blast
  have k: "key_entry (storeKeys_cb a n e st) a' n' = (if a' = a \<and> n' = n then Some e else key_entry st a' n')" for a n a' n' st
    using key_entry_commit(1) [of a n e st a' n'] by (simp add: key_entry_def Let_def)
  have "unlock W e = Inr (wallet.publicKey ?w, wallet.privateKey ?w, completeUrl d)"
    by (rule unlock_sealed [OF assms(1) e])
  then show ?thesis
    using assms(2,3) unfolding linked_def holds_keys_def connect_def
    by (simp add: storeKeys_def e k)
qed

lemma effect_fields [simp]:
  "the_wallet (effect_tab W T d) = the_wallet d" "the_vault (effect_tab W T d) = the_vault d"
  "selectedNet (effect_tab W T d) = selectedNet d" "domain (effect_tab W T d) = tab_domain W T"
  "requests (effect_tab W T d) = requests d"
  "the_wallet (effect_favicon W d) = the_wallet d" "the_vault (effect_favicon W d) = the_vault d"
  "selectedNet (effect_favicon W d) = selectedNet d" "domain (effect_favicon W d) = domain d"
  "requests (effect_favicon W d) = requests d" "isConnected (effect_favicon W d) = isConnected d"
  "the_wallet (effect_connection d) = the_wallet d" "the_vault (effect_connection d) = the_vault d"
  "selectedNet (effect_connection d) = selectedNet d" "domain (effect_connection d) = domain d"
  "requests (effect_connection d) = requests d"
  by (simp_all add: effect_tab_def effect_favicon_def effect_connection_def the_wallet_def the_vault_def Let_def)

lemma settle_fields [simp]:
  "the_wallet (settle W T old d) = the_wallet d" "the_vault (settle W T old d) = the_vault d"
  "selectedNet (settle W T old d) = selectedNet d" "requests (settle W T old d) = requests d"
  by (simp_all add: settle_def)

lemma settle_linked:
  assumes "linked (tab_domain W T) d" "\<not> isConnected d"
  shows "linked (tab_domain W T) (settle W T old d) \<and> \<not> isConnected (settle W T old d)"
proof -
  have "\<And>n. \<not> getDomainConnectionStatus (tab_domain W T) n (the_wallet d)" "domain d = tab_domain W T"
    using assms by (simp_all add: linked_def)
  moreover from this have "\<not> isConnected (effect_tab W T d)"
    using assms(2) by (simp add: effect_tab_def Let_def)
  ultimately have "\<not> isConnected (settle W T old d)" "domain (settle W T old d) = tab_domain W T"
    using assms(2) by (simp_all add: settle_def) (simp add: effect_connection_def)
  then show ?thesis using assms by (simp add: linked_def)
qed

lemma switchNetwork_linked:
  assumes "linked dm d" "\<not> isConnected d"
  shows "linked dm (switchNetwork v d) \<and> \<not> isConnected (switchNetwork v d)"
  using assms
  by (auto simp: switchNetwork_def choose_net_def linked_def the_wallet_def the_vault_def Let_def
      split: option.splits)

lemma switchNetwork_wallet [simp]: "the_wallet (switchNetwork v d) = the_wallet d"
  by (auto simp: switchNetwork_def choose_net_def the_wallet_def Let_def split: option.splits)


lemma load_stored:
  assumes "\<And>ks v. snd (cb ks v) = False"
  shows "\<exists>w1. (w1 = w \<or> w1 = setAlert decrypt_failed w \<and> stored_pairs C p w = [])
    \<and> loadKeyPairsFromStorage C p cb w = fst (cb (stored_pairs C p w) w1)"
proof (cases "\<exists>c t. sync_encryptedKeyPairs w = Some (c # t)")
  case False
  then have "loadKeyPairsFromStorage C p cb w = fst (cb [] w)" "stored_pairs C p w = []"
    by (simp_all add: loadKeyPairsFromStorage_def stored_pairs_def split: option.split list.split)
  then show ?thesis by auto
next
  case True
  then obtain c t where t: "sync_encryptedKeyPairs w = Some (c # t)" by blast
  show ?thesis
  proof (cases "decrypt_pairs C p (c # t)")
    case (Inl e)
    with t show ?thesis by (auto simp: loadKeyPairsFromStorage_def stored_pairs_def)
  next
    case (Inr ks)
    obtain v where "cb ks w = (v, False)" using assms [of ks w] by (cases "cb ks w") simp
    with t Inr show ?thesis by (auto simp: loadKeyPairsFromStorage_def stored_pairs_def)
  qed
qed

lemma generate_cases:
  obtains (quiet) "\<not> generates C pk secret w"
      "generateKeyPair C pk secret w = w \<or> (\<exists>m. generateKeyPair C pk secret w = setAlert m w)"
  | (stored) a w1 where "generates C pk secret w" "w1 = w \<or> w1 = setAlert decrypt_failed w"
      "generateKeyPair C pk secret w = fst (generate_cb C (storedPassword w)
         \<lparr>pub = b58_encode C pk, priv = b58_encode C (take 32 secret)\<rparr> a (stored_pairs C (storedPassword w) w) w1)"
proof (cases "storedPassword w = [] \<or> \<not> is_ok (generateOwnerAddress C (b58_encode C pk))")
  case True
  then show ?thesis
    by (intro quiet) (auto simp: generates_def generateKeyPair_def Let_def split: sum.splits)
next
  case False
  let ?k = "\<lparr>pub = b58_encode C pk, priv = b58_encode C (take 32 secret)\<rparr>"
  obtain a where a: "generateOwnerAddress C (b58_encode C pk) = Inr a"
    using False by (auto simp: is_ok_iff)
  have n: "snd (generate_cb C p ?k a ks v) = False" for p ks v
    by (simp add: generate_cb_def Let_def)
  have g: "generateKeyPair C pk secret w
      = loadKeyPairsFromStorage C (storedPassword w) (generate_cb C (storedPassword w) ?k a) w"
    using False a by (simp add: generateKeyPair_def)
  obtain w1 where w1: "w1 = w \<or> w1 = setAlert decrypt_failed w \<and> stored_pairs C (storedPassword w) w = []"
      "generateKeyPair C pk secret w
         = fst (generate_cb C (storedPassword w) ?k a (stored_pairs C (storedPassword w) w) w1)"
    using load_stored [of "generate_cb C (storedPassword w) ?k a" w C "storedPassword w"] n unfolding g by blast
  show ?thesis
  proof (cases "?k \<in> set (stored_pairs C (storedPassword w) w)")
    case True
    with w1 have "generateKeyPair C pk secret w = setAlert ''Generated key pair is a duplicate. Skipping.'' w"
      by (auto simp: generate_cb_def)
    with True show ?thesis by (intro quiet) (auto simp: generates_def)
  next
    case new: False
    with False w1 show ?thesis by (intro stored) (auto simp: generates_def)
  qed
qed


lemma holds_keys_request:
  assumes "holds_keys W d"
  shows "\<exists>u icon. requestData W (domain d) (selectedNet d) (the_vault d) =
    Obj [(''publicKey'', Str (wallet.publicKey (the_wallet d))), (''privateKey'', Str (wallet.privateKey (the_wallet d))),
         (''url'', Str u), (''faviconUrl'', Str icon)]"
  using assms by (auto simp: holds_keys_def requestData_def Let_def)

lemma pairs_cong:
  assumes "pairs_ok C d" "keyPairs (the_wallet d') = keyPairs (the_wallet d)"
    "storedPassword (the_wallet d') = storedPassword (the_wallet d)"
    "sync_encryptedKeyPairs (the_wallet d') = sync_encryptedKeyPairs (the_wallet d)"
  shows "pairs_ok C d'"
  using assms by (simp add: pairs_ok_def stored_pairs_def)

lemma disconnect_pairs: "pairs_ok C d \<Longrightarrow> pairs_ok C (disconnect d)"
  by (erule pairs_cong) (simp_all add: disconnect_def)

lemma disconnectDue_pairs: "pairs_ok C d \<Longrightarrow> pairs_ok C (disconnectDueToKeysChange d)"
  by (simp add: disconnectDueToKeysChange_def disconnect_pairs)

lemma connect_pairs: "pairs_ok C d \<Longrightarrow> pairs_ok C (connect W key vs d)"
  by (erule pairs_cong) (simp_all add: connect_def)

lemma session_offline: "linked (tab_domain W T) d \<and> \<not> isConnected d \<Longrightarrow> pairs_ok C d \<Longrightarrow> session_ok C W T d"
  by (simp add: session_ok_def)

lemma session_disconnected:
  "linked (tab_domain W T) d \<Longrightarrow> pairs_ok C d \<Longrightarrow> session_ok C W T (disconnectDueToKeysChange d)"
  by (rule session_offline [OF disconnectDue_linked disconnectDue_pairs])

lemma stored_saved:
  assumes "crypto_ok C" "sync_encryptedKeyPairs w = Some (aes_enc C s (json_text (pairs_json ks)) p)"
  shows "stored_pairs C p w = ks"
proof -
  obtain c t where t: "aes_enc C s (json_text (pairs_json ks)) p = c # t"
    using assms(1) unfolding crypto_ok_def by (metis list.exhaust)
  then show ?thesis using decrypt_saved [OF assms(1), of p s ks] assms(2) by (simp add: stored_pairs_def)
qed

lemma session_alert: "session_ok C W T d \<Longrightarrow> session_ok C W T (alert_user m d)"
  by (erule session_cong) (simp_all add: alert_user_def setAlert_def)

lemma toggle_session:
  assumes "web_ok W" "session_ok C W T d" "\<forall>pk sk u. is_ok (seal_entry W key vs pk sk u)"
  shows "session_ok C W T (toggleConnection W key vs d)"
proof -
  have d: "linked (tab_domain W T) d" "pairs_ok C d" using assms(2) by (simp_all add: session_ok_def)
  show ?thesis
    using connect_linked [OF assms(1) d(1) _ assms(3)] disconnect_linked [OF d(1)] disconnect_pairs [OF d(2)]
      connect_pairs [OF d(2), of W key vs] session_alert [OF assms(2)]
    by (simp add: toggleConnection_def session_ok_def)
qed

lemma network_session:
  assumes "session_ok C W T d"
  shows "session_ok C W T (handleNetworkChange W T v d)"
proof (cases "v = selectedNet d")
  case False
  let ?d1 = "disconnectDueToKeysChange d"
  have d: "linked (tab_domain W T) d" "pairs_ok C d" using assms by (simp_all add: session_ok_def)
  have "linked (tab_domain W T) (settle W T d (switchNetwork v ?d1)) \<and> \<not> isConnected (settle W T d (switchNetwork v ?d1))"
    using settle_linked switchNetwork_linked disconnectDue_linked [OF d(1)] by blast
  moreover have "pairs_ok C (settle W T d (switchNetwork v ?d1))"
    by (rule pairs_cong [OF disconnectDue_pairs [OF d(2)]]) simp_all
  ultimately have "session_ok C W T (settle W T d (switchNetwork v ?d1))" by (rule session_offline)
  with False show ?thesis by (simp add: handleNetworkChange_def disconnectDueToKeysChange_def)
qed (use assms in \<open>simp add: handleNetworkChange_def\<close>)

lemma select_pair_fields:
  assumes "select_pair C ks pw i w = (w', threw)" "\<forall>k \<in> set ks. is_ok (b58_decode C (pub k))"
  shows "keyPairs w' = keyPairs w" "storedPassword w' = storedPassword w"
    "sync_encryptedKeyPairs w' = sync_encryptedKeyPairs w" "local_connections w' = local_connections w" "\<not> threw"
proof -
  have "\<not> threw \<and> keyPairs w' = keyPairs w \<and> storedPassword w' = storedPassword w
    \<and> sync_encryptedKeyPairs w' = sync_encryptedKeyPairs w \<and> local_connections w' = local_connections w"
  proof (cases "nth_js ks i")
    case (Some k)
    obtain a where "generateOwnerAddress C (pub k) = Inr a"
      using assms(2) nth_js_mem [OF Some] owner_ok by blast
    with Some assms(1) show ?thesis
      by (auto simp: select_pair_def wallet_ops setAlert_def split: if_splits)
  qed (use assms(1) in \<open>auto simp: select_pair_def\<close>)
  then show "keyPairs w' = keyPairs w" "storedPassword w' = storedPassword w"
    "sync_encryptedKeyPairs w' = sync_encryptedKeyPairs w" "local_connections w' = local_connections w" "\<not> threw"
    by simp_all
qed

lemma status_cong:
  "local_connections w' = local_connections w \<Longrightarrow> getDomainConnectionStatus dm n w' = getDomainConnectionStatus dm n w"
  by (simp add: getDomainConnectionStatus_def)

lemma switch_session:
  assumes "session_ok C W T d"
  shows "session_ok C W T (switchKeyPair C i d)"
proof -
  have d: "linked (tab_domain W T) d" "pairs_ok C d" using assms by (simp_all add: session_ok_def)
  obtain w threw where w: "select_pair C (keyPairs (the_wallet d)) (storedPassword (the_wallet d)) i (the_wallet d) = (w, threw)"
    by fastforce
  have "\<forall>k \<in> set (keyPairs (the_wallet d)). is_ok (b58_decode C (pub k))" using d(2) by (simp add: pairs_ok_def)
  note f = select_pair_fields [OF w this]
  have "linked (tab_domain W T) (on_ctx (\<lambda>_. w) d)"
    using d(1) by (simp add: linked_def status_cong [OF f(4)])
  moreover have "pairs_ok C (on_ctx (\<lambda>_. w) d)"
    by (rule pairs_cong [OF d(2)]) (simp_all add: f)
  ultimately show ?thesis
    using f(5) session_disconnected by (simp add: switchKeyPair_def w)
qed

lemma generate_session:
  assumes "crypto_ok C" "session_ok C W T d"
  shows "session_ok C W T (handleGenerateKeyPair C pk secret d)"
proof (cases rule: generate_cases [of C pk secret "the_wallet d"])
  case quiet
  then have "session_ok C W T (on_ctx (generateKeyPair C pk secret) d)"
    by (intro session_cong [OF assms(2)]) (auto simp: setAlert_def)
  with quiet show ?thesis by (simp add: handleGenerateKeyPair_def)
next
  case (stored a w1)
  let ?w = "the_wallet d" and ?k = "\<lparr>pub = b58_encode C pk, priv = b58_encode C (take 32 secret)\<rparr>"
  let ?ks = "stored_pairs C (storedPassword ?w) ?w" and ?v = "generateKeyPair C pk secret ?w"
  let ?d1 = "on_ctx (\<lambda>w. w\<lparr>selectedKeyPairIndex := int (length (keyPairs ?w)) - 1\<rparr>) (on_ctx (generateKeyPair C pk secret) d)"
  have d: "linked (tab_domain W T) d" "pairs_ok C d" using assms by (simp_all add: session_ok_def)
  have n: "?k \<notin> set ?ks" using stored(1) by (simp add: generates_def)
  then have v: "keyPairs ?v = ?ks @ [?k]" "storedPassword ?v = storedPassword ?w" "local_connections ?v = local_connections ?w"
      "sync_encryptedKeyPairs ?v = Some (aes_enc C (salts w1) (json_text (pairs_json (?ks @ [?k]))) (storedPassword ?w))"
    using stored(2) by (auto simp: stored(3) generate_cb_def wallet_ops setAlert_def)
  note s = stored_saved [OF assms(1) v(4)]
  have "is_ok (b58_decode C (pub ?k))" using assms(1) by (simp add: crypto_ok_def)
  then have "pairs_ok C (on_ctx (generateKeyPair C pk secret) d)"
    using d(2) by (auto simp: pairs_ok_def v s)
  then have p: "pairs_ok C ?d1" by (rule pairs_cong) simp_all
  have "linked (tab_domain W T) ?d1"
    using d(1) by (simp add: linked_def getDomainConnectionStatus_def v(3))
  then have "session_ok C W T (disconnectDueToKeysChange ?d1)" using p by (rule session_disconnected)
  then show ?thesis using stored(1) by (simp add: handleGenerateKeyPair_def Let_def)
qed


lemma submit_fields:
  "domain (handleSubmit W N d) = domain d" "selectedNet (handleSubmit W N d) = selectedNet d"
  "isConnected (handleSubmit W N d) = isConnected d" "the_vault (handleSubmit W N d) = the_vault d"
  "the_wallet (handleSubmit W N d) = the_wallet d \<or> (\<exists>m. the_wallet (handleSubmit W N d) = setAlert m (the_wallet d))"
  by (auto simp: handleSubmit_def submitted_def refuse_submit_def alert_user_def the_wallet_def the_vault_def on_ctx_def
      split: prod.splits)

lemma upload_fields:
  "domain (handleFileUpload f d) = domain d" "selectedNet (handleFileUpload f d) = selectedNet d"
  "isConnected (handleFileUpload f d) = isConnected d" "the_vault (handleFileUpload f d) = the_vault d"
  "the_wallet (handleFileUpload f d) = the_wallet d \<or> (\<exists>m. the_wallet (handleFileUpload f d) = setAlert m (the_wallet d))"
  by (auto simp: handleFileUpload_def refuse_upload_def alert_user_def the_wallet_def the_vault_def on_ctx_def Let_def
      split: option.splits sum.splits bool.splits)

lemma session_same_wallet:
  assumes "session_ok C W T d" "domain d' = domain d" "selectedNet d' = selectedNet d" "isConnected d' = isConnected d"
    "the_vault d' = the_vault d" "the_wallet d' = the_wallet d \<or> (\<exists>m. the_wallet d' = setAlert m (the_wallet d))"
  shows "session_ok C W T d'"
  using assms(6) by (intro session_cong [OF assms(1-5)]) (auto simp: setAlert_def)

text \<open>
  The events during which the connection is kept in step: managing the list of nets, deleting and
  importing pairs are left out, and the worker can seal the keys.
\<close>

fun steady :: "('k, 'j) web \<Rightarrow> 'k dash_event \<Rightarrow> bool" where
  "steady W (ToggleConnection key vs) = (\<forall>pk sk u. is_ok (seal_entry W key vs pk sk u))"
| "steady W AddNet = False"
| "steady W (RemoveNet _) = False"
| "steady W DeletePair = False"
| "steady W (UploadPairs _) = False"
| "steady W _ = True"

lemma steady_step:
  assumes "web_ok W" "crypto_ok C" "session_ok C W T d" "steady W e"
  shows "session_ok C W T (dash_step C W N T d e)"
proof (cases e)
  case (ToggleConnection key vs)
  then show ?thesis using toggle_session [OF assms(1,3)] assms(4) by simp
next
  case (ChangeNetwork v)
  then show ?thesis using network_session [OF assms(3)] by simp
next
  case (SwitchPair i)
  then show ?thesis using switch_session [OF assms(3)] by simp
next
  case (GeneratePair pk secret)
  then show ?thesis using generate_session [OF assms(2,3)] by simp
next
  case (UploadTransaction f)
  then show ?thesis using session_same_wallet [OF assms(3) upload_fields] by simp
next
  case Submit
  then show ?thesis using session_same_wallet [OF assms(3) submit_fields] by simp
next
  case (TypeUrl v)
  then show ?thesis
    using assms(3) by (auto intro: session_same_wallet simp: handleCustomUrlChange_def the_wallet_def the_vault_def)
next
  case ToggleProtocol
  then show ?thesis
    using assms(3) by (auto intro: session_same_wallet simp: toggleProtocol_def the_wallet_def the_vault_def Let_def)
next
  case (TypeName v)
  then show ?thesis using assms(3) by (auto intro: session_same_wallet simp: the_wallet_def the_vault_def)
qed (use assms(4) in simp_all)

interpretation dash: stepper "\<lambda>d e. if steady W e then dash_step C W N T d e else d"
    "\<lambda>d. web_ok W \<and> crypto_ok C \<longrightarrow> session_ok C W T d" for C :: crypto and W :: "('k, 'j) web" and N T
  by unfold_locales (simp add: steady_step)

lemma steady_run:
  assumes "web_ok W" "crypto_ok C" "session_ok C W T d" "list_all (steady W) es"
  shows "session_ok C W T (foldl (dash_step C W N T) d es)"
proof -
  have "foldl (dash_step C W N T) d es = foldl (\<lambda>d e. if steady W e then dash_step C W N T d e else d) d es"
    using assms(4) by (induction es arbitrary: d) simp_all
  then show ?thesis using dash.run_inv [of W C T d N es] assms(1-3) by simp
qed

text \<open>A page that was never connected before is opened.\<close>

definition unconnected :: "string \<Rightarrow> 'j popup \<Rightarrow> bool" where
  "unconnected dm P \<longleftrightarrow> (\<forall>n. key_entry (vault_storage P) dm n = None \<and> \<not> getDomainConnectionStatus dm n (ctx P))"

lemma effect_active_fields [simp]:
  "base (effect_active d) = base d" "domain (effect_active d) = domain d" "isConnected (effect_active d) = isConnected d"
  by (auto simp: effect_active_def Let_def split: option.splits list.splits)

lemma open_wallet: "open_dashboard W T P = Inr d \<Longrightarrow> the_wallet d = ctx P"
  by (auto simp: open_dashboard_def bind_res_Inr_iff Let_def) (simp add: the_wallet_def)

lemma open_offline:
  assumes "open_dashboard W T P = Inr d" "unconnected (tab_domain W T) P"
  shows "the_wallet d = ctx P \<and> linked (tab_domain W T) d \<and> \<not> isConnected d"
proof -
  obtain d0 where d0: "d = settle W T d0 (effect_active d0)" "base d0 = P" "domain d0 = tab_domain W T" "\<not> isConnected d0"
    using assms(1) by (auto simp: open_dashboard_def bind_res_Inr_iff Let_def)
  have "linked (tab_domain W T) (effect_active d0) \<and> \<not> isConnected (effect_active d0)"
    using assms(2) d0(2-4) by (simp add: linked_def unconnected_def the_wallet_def the_vault_def)
  then have "linked (tab_domain W T) d \<and> \<not> isConnected d" unfolding d0(1) by (intro settle_linked) simp_all
  with open_wallet [OF assms(1)] show ?thesis by simp
qed

lemma stored_synced: "synced C p w \<Longrightarrow> stored_pairs C (storedPassword w) w = keyPairs w"
  by (auto simp: synced_def stored_pairs_def split: list.split)

lemma generated_pairs:
  assumes "synced C p w" "generates C pk secret w"
  shows "keyPairs (generateKeyPair C pk secret w) = keyPairs w @ [\<lparr>pub = b58_encode C pk, priv = b58_encode C (take 32 secret)\<rparr>]
    \<and> wallet.publicKey (generateKeyPair C pk secret w) = b58_encode C pk
    \<and> wallet.privateKey (generateKeyPair C pk secret w) = b58_encode C (take 32 secret)"
proof (cases rule: generate_cases [of C pk secret w])
  case quiet
  then show ?thesis using assms(2) by simp
next
  case (stored a w1)
  then show ?thesis using stored_synced [OF assms(1)] by (simp add: generates_def generate_cb_def wallet_ops)
qed

lemma open_session:
  assumes "open_dashboard W T P = Inr d" "synced C p (ctx P)" "unconnected (tab_domain W T) P"
  shows "session_ok C W T d"
proof -
  note o = open_offline [OF assms(1,3)]
  have "pairs_ok C d"
    using synced_base [OF assms(2)] stored_synced [OF assms(2)] o by (simp add: pairs_ok_def)
  with o show ?thesis by (intro session_offline) simp_all
qed

section \<open>Properties\<close>


definition sample_popup :: "unit popup" where
  "sample_popup = new_popup\<lparr>ctx := account_run plain_crypto ''pw'' [1] [2] []\<rparr>"

lemma sample_popup_ok:
  "synced plain_crypto ''pw'' (ctx sample_popup)" "unconnected dm sample_popup"
proof -
  show "synced plain_crypto ''pw'' (ctx sample_popup)"
    by (simp add: sample_popup_def account_run_synced [OF plain_crypto_ok])
  have "local_connections (ctx sample_popup) = None"
    by (simp add: sample_popup_def signup_fields [OF plain_crypto_ok])
  then show "unconnected dm sample_popup"
    by (simp add: unconnected_def getDomainConnectionStatus_def)
      (simp add: sample_popup_def new_popup_def empty_storage_def key_entry_def)
qed

lemma plain_seals: "is_ok (seal_entry plain_web (Inr ()) ([1], [2], [3]) pk sk u)"
  by (simp add: seal_entry_def encryptData_def plain_web_def)


text \<open>
  C26: An uploaded transaction is sent as it was written. Uploading a JSON file with the three required fields, connecting
  and submitting sends exactly one request, to the address shown and signed with the keys shown, with the amount,
  recipient and asset of the file; if the node accepts it, its data is shown and the upload is cleared.
\<close>

theorem uploaded_transaction_sent:
  assumes "web_ok W" and f: "json_upload f = Some u" "json_parse (file_text u) = Some v" "transaction_fields v = Inr True"
    and keys: "wallet.publicKey (the_wallet d) = pk" "wallet.privateKey (the_wallet d) = sk" "pk \<noteq> []" "sk \<noteq> []"
    and d: "\<not> isConnected d" "selectedNet d \<noteq> []" and seal: "seal_entry W key vs pk sk (completeUrl d) = Inr e"
    and body: "b = tx_body 22 (tx_variables (parseInt_value (oprop v ''amount'')) pk sk
        (oprop v ''recipientAddress'') (oprop v ''asset''))"
    and node: "reply N (requests d) (completeUrl d) b = Inr (Obj ps)" "\<not> truthy (own ps ''errors'')"
    and d': "d' = handleSubmit W N (toggleConnection W key vs (handleFileUpload f d))"
  shows "requests d' = requests d @ [(completeUrl d, b)] \<and> showSuccessModal d'
    \<and> successResponse d' = own ps ''data'' \<and> transactionData d' = Null"
proof -
  let ?d1 = "d\<lparr>jsonFileName := file_name u, transactionData := v, transactionError := []\<rparr>"
  have v: "truthy v" "truthy (oprop v ''asset'')" "truthy (oprop v ''recipientAddress'')" "truthy (oprop v ''amount'')"
    using f(3) by (cases v; auto simp: transaction_fields_def bind_res_Inr_iff)+
  have up: "handleFileUpload f d = ?d1" using f by (simp add: handleFileUpload_def)
  define d2 where "d2 = connect W key vs ?d1"
  have c: "toggleConnection W key vs ?d1 = d2"
    using keys d by (simp add: toggleConnection_def d2_def the_wallet_def)
  have s: "snd (storeKeys W key vs (domain d) (selectedNet d) pk sk (completeUrl d) st)
      = storeKeys_cb (domain d) (selectedNet d) e st" for st
    by (simp add: storeKeys_def seal)
  have d2: "requests d2 = requests d" "transactionData d2 = v" "isConnected d2" "domain d2 = domain d" "selectedNet d2 = selectedNet d"
      "the_vault d2 = storeKeys_cb (domain d) (selectedNet d) e (the_vault d)"
    using keys s by (simp_all add: d2_def connect_def) (simp_all add: the_wallet_def the_vault_def)
  have "key_entry (the_vault d2) (domain d) (selectedNet d) = Some e" "connected_to (the_vault d2) (domain d) (selectedNet d)"
    using d(2) by (simp_all add: d2(6) key_entry_def storeKeys_cb_def connected_to_def Let_def)
  then have "submitTransactionFromDashboard W N v (domain d) (selectedNet d) (the_vault d2) (requests d)
      = respond (post_once N (completeUrl d) b [(''error'', Str ''GraphQL errors occurred.'')]) (requests d)"
    using v unlock_sealed [OF assms(1) seal] by (simp add: submitTransactionFromDashboard_def body)
  also have "\<dots> = (Obj [(''success'', Bool True), (''data'', own ps ''data'')], requests d @ [(completeUrl d, b)])"
    using node by (simp add: respond_def post_once_def bind_io_def post_json_def lift_io_def tx_reply_def)
  finally have "d' = submitted (Obj [(''success'', Bool True), (''data'', own ps ''data'')])
      (d2\<lparr>requests := requests d @ [(completeUrl d, b)]\<rparr>)"
    using v(1) by (simp add: d' up c handleSubmit_def d2)
  then show ?thesis by (simp add: submitted_def own_def)
qed

lemma upload_error_pairs: "upload_error C i (map pair_json ks) = Inr (first_bad C i ks)"
proof (induction ks arbitrary: i)
  case (Cons k ks)
  have "check_json C i (pair_json k) = Inr (check_pair C i k)"
    by (cases k) (auto simp: check_json_def pair_json_def own_def check_pair_def)
  with Cons show ?case by (simp split: option.split)
qed simp

lemma append_json_pairs: "append_json C (map pair_json ks) w = Inr (appendKeyPairs C ks w)"
proof -
  have "opt_list (map pair_of_json (map pair_json ks)) = Some ks"
    by (induction ks) (simp_all add: pair_of_json_def pair_json_def own_def)
  then show ?thesis
    by (simp add: append_json_def upload_error_pairs appendKeyPairs_def split: option.split)
qed

lemma json_text_parse: "json_ok v \<Longrightarrow> json_parse (json_text v) = Some v"
  using json_roundtrip [of v] by (auto simp: json_text_def)

definition sample_upload :: upload where
  "sample_upload = \<lparr>file_name = ''t.json'', file_type = ''application/json'',
     file_text = json_text (Obj [(''asset'', Obj []), (''recipientAddress'', Str ''R''), (''amount'', Num 5)])\<rparr>"

theorem uploaded_transaction_sent_witness:
  "\<exists>d0. open_dashboard plain_web (Some ''a.io'') sample_popup = Inr d0
     \<and> requests d0 = []
     \<and> length (requests (handleSubmit plain_web echo_node
         (toggleConnection plain_web (Inr ()) ([1], [2], [3]) (handleFileUpload (Some sample_upload) d0)))) = 1"
proof -
  obtain d0 where d0: "open_dashboard plain_web (Some ''a.io'') sample_popup = Inr d0"
    by (simp add: open_dashboard_def sample_popup_def new_popup_def load_nets_def Let_def)
  then have r: "requests d0 = []" "selectedNet d0 = ''ResilientDB Mainnet''"
    by (auto simp: open_dashboard_def sample_popup_def new_popup_def load_nets_def Let_def effect_active_def)
  have s: "the_wallet d0 = ctx sample_popup" "\<not> isConnected d0"
    using open_offline [OF d0 sample_popup_ok(2)] by simp_all
  let ?v = "Obj [(''asset'', Obj []), (''recipientAddress'', Str ''R''), (''amount'', Num 5)]"
  let ?pk = "b58_encode plain_crypto [1]" and ?sk = "b58_encode plain_crypto (take 32 [2])"
  let ?b = "tx_body 22 (tx_variables (parseInt_value (oprop ?v ''amount'')) ?pk ?sk (oprop ?v ''recipientAddress'') (oprop ?v ''asset''))"
  have w: "wallet.publicKey (the_wallet d0) = ?pk" "wallet.privateKey (the_wallet d0) = ?sk" "?pk \<noteq> []" "?sk \<noteq> []"
    unfolding s(1) sample_popup_def using signup_fields [OF plain_crypto_ok, of "''pw''" "[1]" "[2]"]
    by (simp_all add: plain_crypto_def)
  have u: "json_upload (Some sample_upload) = Some sample_upload" "json_parse (file_text sample_upload) = Some ?v"
      "transaction_fields ?v = Inr True"
    using json_text_parse [of ?v]
    by (simp_all add: json_upload_def sample_upload_def transaction_fields_def own_def safe_def)
  obtain e where e: "seal_entry plain_web (Inr ()) ([1], [2], [3]) ?pk ?sk (completeUrl d0) = Inr e"
    using plain_seals unfolding is_ok_iff by blast
  have n: "reply echo_node (requests d0) (completeUrl d0) ?b = Inr (Obj [(''data'', ?b)])" "\<not> truthy (own [(''data'', ?b)] ''errors'')"
    by (simp_all add: reply_def echo_node_def own_def)
  have "selectedNet d0 \<noteq> []" by (simp add: r)
  from uploaded_transaction_sent [OF plain_web_ok u w s(2) this e refl n refl] r(1) d0 show ?thesis by auto
qed


text \<open>
  C38: A deleted key pair can stay in use. The callback of the deletion selects the first pair of the list as it was before:
  deleting the first pair takes it from the list but shows it afterwards as the current pair and stores it
  as the login record, although the comment says that the first remaining pair is selected.
\<close>

theorem deleted_pair_stays_active:
  assumes "crypto_ok C" "synced C p (the_wallet d)" "keyPairs (the_wallet d) = k # k' # ks"
    "selectedKeyPairIndex (the_wallet d) = 0" "w' = the_wallet (handleDeleteKeyPair C d)"
  shows "keyPairs w' = k' # ks \<and> wallet.publicKey w' = pub k \<and> wallet.privateKey w' = priv k
    \<and> (\<exists>st. sync_store w' = Some st \<and> store_public st = pub k \<and> aes_dec C (encryptedPrivateKey st) p = Inr (priv k))"
proof -
  let ?w = "the_wallet d"
  define after where "after = (\<lambda>v. select_pair C (keyPairs ?w) (storedPassword ?w) 0 (v\<lparr>selectedKeyPairIndex := 0\<rparr>))"
  note b = synced_base [OF assms(2)]
  obtain a where a: "generateOwnerAddress C (pub k) = Inr a" using b(4) assms(3) owner_ok by (metis list.set_intros(1))
  have w': "w' = deleteKeyPair C 0 after ?w"
    using assms(3-5) by (simp add: handleDeleteKeyPair_def after_def the_wallet_def on_ctx_def Let_def)
  have e: "after v = (save_store C k p ((saveSelectedKeyPairIndex 0 (v\<lparr>wallet.publicKey := pub k, wallet.privateKey := priv k,
      selectedKeyPairIndex := 0\<rparr>))\<lparr>ownerAddress := a\<rparr>), False)" for v
    using assms(3) a b(1,2) by (simp add: after_def select_pair_def nth_js_def Let_def)
  have x: "aes_dec C (aes_enc C s (priv k) p) p = Inr (priv k)" for s
    using assms(1) by (simp add: crypto_ok_def)
  show ?thesis
    using assms(1,2)
  proof (cases rule: delete_cases [where i = 0 and after = after])
    case (alert m)
    then show ?thesis using assms(3) by simp
  next
    case (deleted k2 ks2 a2)
    then have "k2 = k'" "ks2 = ks" using assms(3) by (simp_all add: splice_one_def)
    with deleted(5) x show ?thesis by (simp add: w' e deleted_wallet_def wallet_ops)
  qed
qed

theorem deleted_pair_stays_active_witness:
  "\<exists>(d :: unit dashboard) k k'. k \<noteq> k' \<and> keyPairs (the_wallet (handleDeleteKeyPair plain_crypto d)) = [k']
     \<and> wallet.publicKey (the_wallet (handleDeleteKeyPair plain_crypto d)) = pub k"
proof -
  let ?w1 = "account_run plain_crypto ''pw'' [1] [2] []" and ?w = "account_run plain_crypto ''pw'' [1] [2] [Generate [3] [4], Select 0]"
  let ?k = "\<lparr>pub = b58_encode plain_crypto [1], priv = b58_encode plain_crypto [2]\<rparr>"
  let ?k' = "\<lparr>pub = b58_encode plain_crypto [3], priv = b58_encode plain_crypto [4]\<rparr>"
  have s: "synced plain_crypto ''pw'' ?w1" "synced plain_crypto ''pw'' ?w" by (rule account_run_synced [OF plain_crypto_ok]; simp)+
  have ne: "?k \<noteq> ?k'" by (simp add: plain_crypto_def)
  have k1: "keyPairs ?w1 = [?k]" using signup_fields(1) [OF plain_crypto_ok, of "''pw''" "[1]" "[2]"] by simp
  have "generates plain_crypto [3] [4] ?w1"
    unfolding generates_def stored_synced [OF s(1)] k1 using synced_base(2) [OF s(1)] ne
    by (simp add: generateOwnerAddress_def plain_crypto_def)
  then have k2: "keyPairs (generateKeyPair plain_crypto [3] [4] ?w1) = [?k, ?k']"
    using generated_pairs [OF s(1)] k1 by simp
  have w: "?w = setSelectedKeyPairFn plain_crypto 0 (generateKeyPair plain_crypto [3] [4] ?w1)"
    by (simp add: account_run_def)
  obtain a where "generateOwnerAddress plain_crypto (pub ?k) = Inr a" by (simp add: generateOwnerAddress_def plain_crypto_def)
  then have k3: "keyPairs ?w = [?k, ?k']" "selectedKeyPairIndex ?w = 0"
    unfolding w setSelectedKeyPairFn_def select_pair_def k2 by (simp_all add: nth_js_def wallet_ops setAlert_def k2)
  obtain d where d: "open_dashboard plain_web None (new_popup\<lparr>ctx := ?w\<rparr>) = Inr d"
    by (simp add: open_dashboard_def new_popup_def load_nets_def Let_def)
  then have wd: "the_wallet d = ?w" using open_wallet by fastforce
  have "keyPairs (the_wallet (handleDeleteKeyPair plain_crypto d)) = [?k']
      \<and> wallet.publicKey (the_wallet (handleDeleteKeyPair plain_crypto d)) = pub ?k"
    using deleted_pair_stays_active [OF plain_crypto_ok, of "''pw''" d ?k ?k' "[]", OF _ _ _ refl] s(2) k3 wd by simp
  with ne show ?thesis by blast
qed

text \<open>
  A generated pair is shown, but the list marks the pair before it as selected: the callback computes the position
  with the length the list had before.
\<close>

lemma generated_pair_not_selected:
  assumes "synced C p (the_wallet d)" "generates C pk secret (the_wallet d)"
  shows "let w = the_wallet d; w' = the_wallet (handleGenerateKeyPair C pk secret d) in
    keyPairs w' = keyPairs w @ [\<lparr>pub = wallet.publicKey w', priv = wallet.privateKey w'\<rparr>]
    \<and> selectedKeyPairIndex w' = int (length (keyPairs w)) - 1"
  using assms(2) generated_pairs [OF assms]
  by (simp add: handleGenerateKeyPair_def disconnectDueToKeysChange_def disconnect_def Let_def setDomainConnectionStatus_def)

end
