(* ===== verification/Vault_Contract.thy ===== *)
theory Vault_Contract
  imports Vault_Dashboard
begin

text \<open>
  The contract page of the ResVault popup, \<^verbatim>\<open>resvault/src/pages/Contract.jsx\<close>. It shares the nets, the connection and
  the key pairs with the dashboard page, whose handlers it repeats; \<open>shared\<close> is that part of its state. Its own part are
  the uploaded source and configuration, their deployment through the worker, and the import and export of key pairs.
  \<open>sourceInput\<close> and \<open>configInput\<close> are the values of the two file inputs.
\<close>

section \<open>State\<close>

record 'j contract_page =
  shared :: "'j dashboard"
  solidityFileName :: string
  solidityContent :: string
  deployJsonFileName :: string
  deployJsonContent :: jv
  deployError :: string
  showContractModal :: bool
  contractAddress :: jv
  sourceInput :: string
  configInput :: string

definition open_contract :: "('k, 'j) web \<Rightarrow> string option \<Rightarrow> 'j popup \<Rightarrow> 'j contract_page res" where
  "open_contract W T P =
     bind_res (open_dashboard W T P) (\<lambda>d.
       Inr \<lparr>shared = d, solidityFileName = [], solidityContent = [], deployJsonFileName = [], deployJsonContent = Str [],
            deployError = [], showContractModal = False, contractAddress = Str [], sourceInput = [], configInput = []\<rparr>)"

section \<open>Files\<close>

text \<open>Choosing a file sets the input before its handler runs; dropping one does not.\<close>

definition chosen_name :: "upload option \<Rightarrow> string" where
  "chosen_name f = (case f of Some u \<Rightarrow> file_name u | None \<Rightarrow> [])"

definition take_source :: "upload option \<Rightarrow> 'j contract_page \<Rightarrow> 'j contract_page" where
  "take_source f p =
     (case f of
        Some u \<Rightarrow>
          if ends_with (file_name u) ''.sol''
          then p\<lparr>solidityContent := file_text u, solidityFileName := file_name u, deployError := []\<rparr>
          else p\<lparr>solidityFileName := [], solidityContent := [],
                 deployError := ''Please upload a valid Solidity (.sol) file.'', sourceInput := []\<rparr>
      | None \<Rightarrow> p\<lparr>solidityFileName := [], solidityContent := [],
                 deployError := ''Please upload a valid Solidity (.sol) file.'', sourceInput := []\<rparr>)"

definition handleSolidityFileUpload :: "upload option \<Rightarrow> 'j contract_page \<Rightarrow> 'j contract_page" where
  "handleSolidityFileUpload f p = take_source f (p\<lparr>sourceInput := chosen_name f\<rparr>)"

definition handleSolidityDrop :: "upload option \<Rightarrow> 'j contract_page \<Rightarrow> 'j contract_page" where
  "handleSolidityDrop f p = take_source f p"

fun is_str :: "jv \<Rightarrow> bool" where
  "is_str (Str _) = True"
| "is_str _ = False"

text \<open>A refused text leaves the name of an earlier file on display.\<close>

definition take_config :: "string \<Rightarrow> upload option \<Rightarrow> 'j contract_page \<Rightarrow> 'j contract_page" where
  "take_config missing f p =
     (case json_upload f of
        None \<Rightarrow> p\<lparr>deployJsonFileName := [], deployJsonContent := Null,
                  deployError := ''Please upload a valid JSON file.'', configInput := []\<rparr>
      | Some u \<Rightarrow>
          (let bad = p\<lparr>deployJsonContent := Null, deployError := ''Invalid JSON format.'', configInput := []\<rparr>
           in case json_parse (file_text u) of
                None \<Rightarrow> bad
              | Some v \<Rightarrow>
                  (case jget v ''arguments'' of
                     Inl _ \<Rightarrow> bad
                   | Inr a \<Rightarrow>
                       if is_str a \<and> is_str (oprop v ''contract_name'')
                       then p\<lparr>deployJsonContent := v, deployError := [], deployJsonFileName := file_name u\<rparr>
                       else p\<lparr>deployJsonContent := Null, deployError := missing, configInput := []\<rparr>)))"

definition handleDeployJsonFileUpload :: "upload option \<Rightarrow> 'j contract_page \<Rightarrow> 'j contract_page" where
  "handleDeployJsonFileUpload f p =
     take_config (''Invalid JSON: Missing '' @ quoted ''arguments'' @ '' and '' @ quoted ''contract_name'')
       f (p\<lparr>configInput := chosen_name f\<rparr>)"

definition handleDeployDrop :: "upload option \<Rightarrow> 'j contract_page \<Rightarrow> 'j contract_page" where
  "handleDeployDrop f p =
     take_config (''Invalid JSON format: '' @ quoted ''arguments'' @ '' and '' @ quoted ''contract_name'' @ '' are required.'') f p"

section \<open>Deployment\<close>

definition deploy_config :: "jv \<Rightarrow> jv \<Rightarrow> jv" where
  "deploy_config args name = Obj [(''arguments'', args), (''contract_name'', name)]"

definition deploy_answer :: "jv \<Rightarrow> 'j contract_page \<Rightarrow> 'j contract_page" where
  "deploy_answer r p =
     (if truthy (oprop r ''success'')
      then if truthy (oprop r ''contractAddress'')
           then p\<lparr>contractAddress := oprop r ''contractAddress'', showContractModal := True,
                  solidityFileName := [], solidityContent := [], deployJsonFileName := [], deployJsonContent := Null,
                  deployError := [], sourceInput := [], configInput := []\<rparr>
           else p\<lparr>deployError := ''Deployment succeeded but no contract address returned.''\<rparr>
      else p\<lparr>deployError := js_text (js_or (oprop r ''error'') (Str ''Contract deployment failed.''))\<rparr>)"

definition handleDeploy :: "('k, 'j) web \<Rightarrow> network \<Rightarrow> 'j contract_page \<Rightarrow> 'j contract_page" where
  "handleDeploy W N p =
     (let d = shared p; args = oprop (deployJsonContent p) ''arguments'';
          name = oprop (deployJsonContent p) ''contract_name'' in
      if solidityContent p = [] \<or> \<not> truthy (deployJsonContent p)
      then p\<lparr>deployError := ''Both Solidity contract and JSON configuration files are required.''\<rparr>
      else if \<not> truthy args \<or> \<not> truthy name
      then p\<lparr>deployError := ''JSON file must contain '' @ quoted ''arguments'' @ '' and '' @ quoted ''contract_name'' @ ''.''\<rparr>
      else if \<not> isConnected d
      then p\<lparr>deployError := ''Please connect to a net before deploying a contract.''\<rparr>
      else (case deployContractChain W N (domain d) (selectedNet d) (Str (ownerAddress (the_wallet d)))
                (Str (solidityContent p)) (deploy_config args name) (the_vault d) (requests d) of
              (r, h) \<Rightarrow> deploy_answer r (p\<lparr>shared := d\<lparr>requests := h\<rparr>\<rparr>)))"

section \<open>Key pairs\<close>

text \<open>
  \<^verbatim>\<open>appendKeyPairs\<close> validates and alerts at once but stores in a callback, which runs after the page's own alert.
\<close>

definition append_reporting :: "crypto \<Rightarrow> jv list \<Rightarrow> string \<Rightarrow> wallet \<Rightarrow> wallet res" where
  "append_reporting C vs m w =
     (if storedPassword w = [] then Inr (setAlert m (setAlert no_password w))
      else bind_res (upload_error C 0 vs) (\<lambda>e.
        case e of
          Some t \<Rightarrow> Inr (setAlert m (setAlert t w))
        | None \<Rightarrow> Inr (appendKeyPairs C (case opt_list (map pair_of_json vs) of Some ks \<Rightarrow> ks | None \<Rightarrow> [])
                     (setAlert m w))))"

definition handleKeyPairFileUpload :: "crypto \<Rightarrow> upload option \<Rightarrow> 'j dashboard \<Rightarrow> 'j dashboard" where
  "handleKeyPairFileUpload C f d =
     (case json_upload f of
        None \<Rightarrow> alert_user ''Please upload a valid JSON file.'' d
      | Some u \<Rightarrow>
          (let bad = ''Invalid JSON format for key pair.''; w = the_wallet d;
               res = (case json_parse (file_text u) of
                   None \<Rightarrow> Inl (Error ''SyntaxError'')
                 | Some (Arr vs) \<Rightarrow> append_reporting C vs ''Key pairs uploaded successfully.'' w
                 | Some v \<Rightarrow> bind_res (jget v ''publicKey'') (\<lambda>k.
                     if truthy k \<and> truthy (oprop v ''privateKey'')
                     then append_reporting C [v] ''Key pair uploaded successfully.'' w
                     else Inr (setAlert bad w)))
           in case res of Inl _ \<Rightarrow> alert_user bad d | Inr w' \<Rightarrow> on_ctx (\<lambda>_. w') d))"

definition owner_json :: "string \<Rightarrow> key_pair \<Rightarrow> jv" where
  "owner_json a k = Obj [(''ownerAddress'', Str a), (''publicKey'', Str (pub k)), (''privateKey'', Str (priv k))]"

definition handleDownloadKeyPair :: "'j dashboard \<Rightarrow> string \<times> string" where
  "handleDownloadKeyPair d =
     (let w = the_wallet d in
      (data_url (owner_json (ownerAddress w) \<lparr>pub = wallet.publicKey w, priv = wallet.privateKey w\<rparr>), ''keypair.json''))"

fun owned_pairs :: "crypto \<Rightarrow> key_pair list \<Rightarrow> jv list res" where
  "owned_pairs C [] = Inr []"
| "owned_pairs C (k # ks) =
     bind_res (generateOwnerAddress C (pub k)) (\<lambda>a.
     bind_res (owned_pairs C ks) (\<lambda>vs. Inr (owner_json a k # vs)))"

definition handleDownloadAllKeyPairs :: "crypto \<Rightarrow> 'j dashboard \<Rightarrow> (string \<times> string) res" where
  "handleDownloadAllKeyPairs C d =
     bind_res (owned_pairs C (keyPairs (the_wallet d))) (\<lambda>vs. Inr (data_url (Arr vs), ''all-keypairs.json''))"

section \<open>Events\<close>

datatype 'k contract_event =
    Common "'k dash_event"
  | ChooseSource "upload option"
  | DropSource "upload option"
  | ChooseConfig "upload option"
  | DropConfig "upload option"
  | ImportPairs "upload option"
  | Deploy
  | CloseContractModal

text \<open>The handlers the two pages have in common.\<close>

fun common :: "'k dash_event \<Rightarrow> bool" where
  "common (UploadPairs _) = False"
| "common (UploadTransaction _) = False"
| "common Submit = False"
| "common _ = True"

fun contract_step :: "crypto \<Rightarrow> ('k, 'j) web \<Rightarrow> network \<Rightarrow> string option \<Rightarrow> 'j contract_page \<Rightarrow> 'k contract_event \<Rightarrow> 'j contract_page" where
  "contract_step C W N T p (Common e) = (if common e then p\<lparr>shared := dash_step C W N T (shared p) e\<rparr> else p)"
| "contract_step C W N T p (ChooseSource f) = handleSolidityFileUpload f p"
| "contract_step C W N T p (DropSource f) = handleSolidityDrop f p"
| "contract_step C W N T p (ChooseConfig f) = handleDeployJsonFileUpload f p"
| "contract_step C W N T p (DropConfig f) = handleDeployDrop f p"
| "contract_step C W N T p (ImportPairs f) = p\<lparr>shared := handleKeyPairFileUpload C f (shared p)\<rparr>"
| "contract_step C W N T p Deploy = handleDeploy W N p"
| "contract_step C W N T p CloseContractModal = p\<lparr>showContractModal := False\<rparr>"

section \<open>Lemmas\<close>

lemma take_source_shared [simp]: "shared (take_source f p) = shared p"
  by (simp add: take_source_def split: option.split)

lemma take_config_shared [simp]: "shared (take_config m f p) = shared p"
  by (simp add: take_config_def Let_def split: option.split sum.split)

lemma deploy_answer_shared [simp]: "shared (deploy_answer r p) = shared p"
  by (simp add: deploy_answer_def)

lemma handleDeploy_shared: "\<exists>h. shared (handleDeploy W N p) = (shared p)\<lparr>requests := h\<rparr>"
proof -
  have "\<exists>h. shared p = (shared p)\<lparr>requests := h\<rparr>" by (rule exI [of _ "requests (shared p)"]) simp
  then show ?thesis unfolding handleDeploy_def Let_def by (auto simp: case_prod_unfold)
qed

text \<open>What is held as a configuration has the two texts.\<close>

definition config_ok :: "'j contract_page \<Rightarrow> bool" where
  "config_ok p \<longleftrightarrow> truthy (deployJsonContent p) \<longrightarrow>
     is_str (oprop (deployJsonContent p) ''arguments'') \<and> is_str (oprop (deployJsonContent p) ''contract_name'')"

lemma config_ok_simps [simp]:
  "config_ok (p\<lparr>shared := d\<rparr>) = config_ok p" "config_ok (p\<lparr>showContractModal := b\<rparr>) = config_ok p"
  "config_ok (p\<lparr>sourceInput := s\<rparr>) = config_ok p" "config_ok (p\<lparr>configInput := s\<rparr>) = config_ok p"
  "config_ok (p\<lparr>deployError := s\<rparr>) = config_ok p" "config_ok (take_source f p) = config_ok p"
  by (simp_all add: config_ok_def take_source_def split: option.split)

lemma take_config_ok: "config_ok p \<Longrightarrow> config_ok (take_config m f p)"
  by (auto simp: config_ok_def take_config_def Let_def jget_Inr split: option.splits sum.splits)

lemma deploy_answer_ok: "config_ok p \<Longrightarrow> config_ok (deploy_answer r p)"
  by (simp add: config_ok_def deploy_answer_def)

lemma contract_config_ok: "config_ok p \<Longrightarrow> config_ok (contract_step C W N T p e)"
  by (cases e) (auto simp: handleSolidityFileUpload_def handleSolidityDrop_def handleDeployJsonFileUpload_def
      handleDeployDrop_def handleDeploy_def Let_def take_config_ok deploy_answer_ok split: prod.split)

fun keeps_session :: "('k, 'j) web \<Rightarrow> 'k contract_event \<Rightarrow> bool" where
  "keeps_session W (Common e) = steady W e"
| "keeps_session W (ImportPairs _) = False"
| "keeps_session W _ = True"

lemma contract_session:
  assumes "web_ok W" "crypto_ok C" "session_ok C W T (shared p)" "keeps_session W e"
  shows "session_ok C W T (shared (contract_step C W N T p e))"
proof (cases e)
  case (Common e')
  then show ?thesis using steady_step [OF assms(1-3)] assms(3,4) by simp
next
  case Deploy
  obtain h where "shared (handleDeploy W N p) = (shared p)\<lparr>requests := h\<rparr>" using handleDeploy_shared by blast
  then show ?thesis using Deploy assms(3) by (auto intro: session_same_wallet simp: the_wallet_def the_vault_def)
qed (use assms(3,4) in \<open>simp_all add: handleSolidityFileUpload_def handleSolidityDrop_def
      handleDeployJsonFileUpload_def handleDeployDrop_def\<close>)

interpretation page: stepper "\<lambda>p e. if keeps_session W e then contract_step C W N T p e else p"
    "\<lambda>p. config_ok p \<and> (web_ok W \<and> crypto_ok C \<longrightarrow> session_ok C W T (shared p))"
    for C :: crypto and W :: "('k, 'j) web" and N T
  by unfold_locales (auto simp: contract_session contract_config_ok)

lemma page_run:
  assumes "web_ok W" "crypto_ok C" "session_ok C W T (shared p)" "config_ok p" "list_all (keeps_session W) es"
  shows "session_ok C W T (shared (foldl (contract_step C W N T) p es)) \<and> config_ok (foldl (contract_step C W N T) p es)"
proof -
  have "foldl (contract_step C W N T) p es = foldl (\<lambda>p e. if keeps_session W e then contract_step C W N T p e else p) p es"
    using assms(5) by (induction es arbitrary: p) simp_all
  then show ?thesis using page.run_inv [of p W C T N es] assms(1-4) by simp
qed


lemma truthy_oprop: "truthy (oprop v k) \<Longrightarrow> truthy v"
  by (cases v) (auto split: if_splits)

text \<open>The three mutations when the node accepts each of them.\<close>

lemma deploy_chain_success:
  assumes r1: "reply N h u (snd (add_request u owner)) = Inr (Obj ps1)" "\<not> truthy (own ps1 ''errors'')" "address_added (Obj ps1)"
    and r2: "reply N (h @ [add_request u owner]) u (snd (compile_request u source)) = Inr (Obj ps2)"
      "\<not> truthy (own ps2 ''errors'')" "oprop (own ps2 ''data'') ''compileContract'' = Str file" "file \<noteq> []"
    and r3: "reply N (h @ [add_request u owner, compile_request u source]) u (snd (deploy_request u owner cfg file)) = Inr (Obj ps3)"
      "\<not> truthy (own ps3 ''errors'')" "oprop (oprop (own ps3 ''data'') ''deployContract'') ''contractAddress'' = addr" "truthy addr"
    and cfg: "cfg = Obj qs"
  shows "deploy_chain_io N u owner source cfg h =
    (Inr (Obj [(''success'', Bool True), (''contractAddress'', addr)]),
     h @ [add_request u owner, compile_request u source, deploy_request u owner cfg file])"
proof -
  have t1: "truthy (own ps1 ''data'')" using r1(3) truthy_oprop [of "own ps1 ''data''" "''addAddress''"] by (simp add: address_added_def)
  have "truthy (own ps2 ''data'')" using r2(3,4) truthy_oprop [of "own ps2 ''data''" "''compileContract''"] by simp
  then have t2: "jget (own ps2 ''data'') ''compileContract'' = Inr (Str file)" using r2(3) by (auto simp: jget_Inr)
  have t3: "truthy (oprop (own ps3 ''data'') ''deployContract'')" using r3(3,4) truthy_oprop by blast
  then have t4: "truthy (own ps3 ''data'')" using truthy_oprop by blast
  show ?thesis
    using assms t1 t2 t3 t4 by (simp add: deploy_chain_io_def chain_post_def compile_step_def deploy_step_def bind_io_def post_json_def
        lift_io_def return_io_def)
qed


lemma unlock_url_sealed: "web_ok W \<Longrightarrow> seal_entry W key vs pk sk u = Inr e \<Longrightarrow> unlock_url W e = Inr u"
  using unlock_sealed [of W key vs pk sk u e] by (auto simp: unlock_def unlock_url_def bind_res_Inr_iff)

section \<open>Properties\<close>


definition contract_node :: network where
  "contract_node h u b = Inr \<lparr>ok = True, statusText = ''OK'', body_json = Inr (Obj [(''data'',
     Obj [(''addAddress'', Str ''Address added successfully''), (''compileContract'', Str ''c.json''),
          (''deployContract'', Obj [(''contractAddress'', Str ''0x1'')])])])\<rparr>"

definition sample_config :: upload where
  "sample_config = \<lparr>file_name = ''c.json'', file_type = ''application/json'',
     file_text = json_text (Obj [(''arguments'', Str ''100''), (''contract_name'', Str ''Coin'')])\<rparr>"


text \<open>
  The page reports success whatever happens to the pairs: an import that the validation refuses changes nothing, and the
  message that said why is replaced.
\<close>

lemma refused_import_reported:
  assumes "json_upload f = Some u" "json_parse (file_text u) = Some (Arr vs)" "upload_error C 0 vs = Inr (Some t)"
  shows "Vault_Dashboard.handleKeyPairFileUpload C f d = alert_user (if storedPassword (the_wallet d) = [] then no_password else t) d"
    and "handleKeyPairFileUpload C f d = alert_user ''Key pairs uploaded successfully.'' d"
  using assms
  by (simp_all add: Vault_Dashboard.handleKeyPairFileUpload_def upload_value_def append_json_def handleKeyPairFileUpload_def
      append_reporting_def alert_user_def on_ctx_def setAlert_def the_wallet_def Let_def)

text \<open>The export of this page, with the owner addresses, can be imported in the dashboard.\<close>

lemma owned_pairs_read:
  "owned_pairs C ks = Inr vs \<Longrightarrow> append_json C vs w = Inr (appendKeyPairs C ks w)"
proof -
  assume "owned_pairs C ks = Inr vs"
  then have "opt_list (map pair_of_json vs) = Some ks \<and> (\<forall>i. upload_error C i vs = Inr (first_bad C i ks))"
  proof (induction ks arbitrary: vs)
    case (Cons k ks)
    have "check_json C i (owner_json a k) = Inr (check_pair C i k)" for i a
      by (cases k) (auto simp: check_json_def owner_json_def own_def check_pair_def)
    moreover have "pair_of_json (owner_json a k) = Some k" for a by (simp add: pair_of_json_def owner_json_def own_def)
    ultimately show ?case using Cons by (auto simp: bind_res_Inr_iff split: option.split)
  qed simp
  then show ?thesis by (simp add: append_json_def appendKeyPairs_def split: option.split)
qed

text \<open>The page shows the connection as the worker has it, as the dashboard does.\<close>

lemma contract_truthful:
  assumes "web_ok W" "crypto_ok C" "synced C pw (ctx P)" "unconnected (tab_domain W T) P"
    and "open_contract W T P = Inr p" "list_all (keeps_session W) es"
  shows "session_ok C W T (shared (foldl (contract_step C W N T) p es)) \<and> config_ok (foldl (contract_step C W N T) p es)"
proof -
  obtain d where "open_dashboard W T P = Inr d" "shared p = d" "config_ok p"
    using assms(5) by (auto simp: open_contract_def bind_res_Inr_iff config_ok_def)
  then show ?thesis using page_run [OF assms(1,2) _ _ assms(6)] open_session [OF _ assms(3,4)] by blast
qed

end
