(* ===== verification/Cache_Sync.thy ===== *)
theory Cache_Sync
  imports JS_JSON "HOL-Library.Multiset"
begin

text \<open>
  The Node cache, \<^verbatim>\<open>resilient-node-cache/src/index.ts\<close> (class \<^verbatim>\<open>WebSocketMongoSync\<close>): it copies the blocks of a
  node into a MongoDB collection. Modelled are the endpoints, the scan for new blocks, the queue of
  batches that five workers share, the upsert of a batch, the decoding of transaction
  values, and the reconnection of the WebSocket.
\<close>

section \<open>Endpoints\<close>

record config =
  baseUrl :: string
  httpSecure :: "bool option"
  wsSecure :: "bool option"
  httpEndpoint :: "string option"
  wsEndpoint :: "string option"
  reconnectInterval :: "int option"
  fetchInterval :: "int option"

record endpoints =
  http_endpoint :: string
  ws_endpoint :: string
  reconnect_interval :: int
  fetch_interval :: int

text \<open>\<^verbatim>\<open>new URL(baseUrl)\<close> is a parameter: protocol, host name and port, or an error.\<close>

definition or_text :: "string option \<Rightarrow> string \<Rightarrow> string" where
  "or_text x d = (case x of Some (c # s) \<Rightarrow> c # s | _ \<Rightarrow> d)"

definition initializeEndpoints ::
    "(string \<Rightarrow> (string \<times> string \<times> string) res) \<Rightarrow> config \<Rightarrow> endpoints res" where
  "initializeEndpoints parse_url c =
     bind_res (parse_url (baseUrl c)) (\<lambda>(protocol, hostname, port).
       if protocol \<noteq> ''resilientdb:''
       then Inl (Error ''Invalid protocol in baseUrl. Expected resilientdb://'')
       else
         (let hostPort = (if port \<noteq> [] then hostname @ '':'' @ port else hostname);
              httpProtocol = (if httpSecure c = Some True then ''https'' else ''http'');
              wsProtocol = (if wsSecure c = Some True then ''wss'' else ''ws'')
          in Inr \<lparr>http_endpoint = or_text (httpEndpoint c) (httpProtocol @ ''://'' @ hostPort @ ''/v1/blocks''),
                  ws_endpoint = or_text (wsEndpoint c) (wsProtocol @ ''://'' @ hostPort @ ''/blockupdatelistener''),
                  reconnect_interval = (case reconnectInterval c of Some i \<Rightarrow> i | None \<Rightarrow> 5000),
                  fetch_interval = (case fetchInterval c of Some i \<Rightarrow> i | None \<Rightarrow> 30000)\<rparr>))"

definition batch_url :: "endpoints \<Rightarrow> int \<Rightarrow> int \<Rightarrow> string" where
  "batch_url e lo hi = http_endpoint e @ ''/'' @ show_int lo @ ''/'' @ show_int hi"

section \<open>Blocks and the collection\<close>

text \<open>
  A block: its number, its transactions if that field is an array, and the other fields. The
  collection keeps one document per inserted block.
\<close>

record block =
  bid :: int
  transactions :: "jv list option"
  others :: "(string \<times> jv) list"

type_synonym collection = "block list"

text \<open>\<^verbatim>\<open>$set\<close>: the fields of the new block replace those of the old document, which keeps the rest.\<close>

definition set_fields :: "block \<Rightarrow> block \<Rightarrow> block" where
  "set_fields new old =
     \<lparr>bid = bid new,
      transactions = (case transactions new of None \<Rightarrow> transactions old | Some ts \<Rightarrow> Some ts),
      others = foldl (\<lambda>m (k, v). oset k v m) (others old) (others new)\<rparr>"

text \<open>\<^verbatim>\<open>updateOne\<close> with \<^verbatim>\<open>upsert\<close> on the first document with the number of the block.\<close>

fun upsert :: "block \<Rightarrow> collection \<Rightarrow> collection" where
  "upsert b [] = [set_fields b \<lparr>bid = bid b, transactions = None, others = []\<rparr>]"
| "upsert b (d # ds) = (if bid d = bid b then set_fields b d # ds else d # upsert b ds)"

definition bulkWrite :: "block list \<Rightarrow> collection \<Rightarrow> collection" where
  "bulkWrite bs db = foldl (\<lambda>db b. upsert b db) db bs"

definition lookup :: "collection \<Rightarrow> int \<Rightarrow> block option" where
  "lookup db i = find (\<lambda>d. bid d = i) db"

text \<open>\<^verbatim>\<open>findOne({}, { sort: { id: -1 } })\<close> and the number the cache starts from.\<close>

definition last_synced :: "collection \<Rightarrow> int" where
  "last_synced db = (if db = [] then 0 else Max (set (map bid db)))"

section \<open>Decoding transaction values\<close>

definition looks_like_json :: "string \<Rightarrow> bool" where
  "looks_like_json t =
     (starts_with t ''{'' \<and> ends_with t ''}'' \<or> starts_with t ''['' \<and> ends_with t '']'')"

definition decode_value :: "jv \<Rightarrow> jv" where
  "decode_value v =
     (case v of
        Str s \<Rightarrow>
          if looks_like_json (trim s)
          then (case json_parse s of Some x \<Rightarrow> x | None \<Rightarrow> v)
          else v
      | _ \<Rightarrow> v)"

fun process_transaction :: "jv \<Rightarrow> jv" where
  "process_transaction (Obj ps) =
     (case map_of ps ''value'' of
        None \<Rightarrow> Obj ps
      | Some v \<Rightarrow> Obj (oset ''value'' (decode_value v) ps))"
| "process_transaction t = t"

definition process_block :: "block \<Rightarrow> block" where
  "process_block b = b\<lparr>transactions := map_option (map process_transaction) (transactions b)\<rparr>"

definition processBlocks :: "block list \<Rightarrow> block list" where
  "processBlocks bs = map process_block bs"

section \<open>Scanning for new blocks\<close>

text \<open>
  The node's answer to the \<open>k\<close>-th scan request for a range; an answer that is not an array counts as no blocks. The loop
  runs on fuel: \<^term>\<open>None\<close> means that it has not ended yet.
\<close>

definition batchSize :: int where
  "batchSize = 100"

definition concurrencyLimit :: nat where
  "concurrencyLimit = 5"

type_synonym node = "nat \<Rightarrow> int \<Rightarrow> int \<Rightarrow> block list res"

fun scan :: "nat \<Rightarrow> node \<Rightarrow> nat \<Rightarrow> int \<Rightarrow> (int \<times> int) list \<Rightarrow> ((int \<times> int) list res \<times> int) option" where
  "scan 0 node k cur ranges = None"
| "scan (Suc n) node k cur ranges =
     (let min_seq = cur + 1; max_seq = min_seq + batchSize - 1 in
      case node k min_seq max_seq of
        Inl e \<Rightarrow> Some (Inl e, cur)
      | Inr blocks \<Rightarrow>
          if blocks \<noteq> []
          then scan n node (Suc k) (foldl max cur (map bid blocks)) (ranges @ [(min_seq, max_seq)])
          else Some (Inr ranges, cur))"

section \<open>Fetching the batches\<close>

text \<open>
  What happens to one batch: the fetch fails, or it succeeds and the bulk write is interrupted after some of its
  operations or completes. Errors are logged and swallowed.
\<close>

record outcome =
  fetched :: "block list res"
  interrupted :: "nat option"

definition fetchAndSyncBatch :: "outcome \<Rightarrow> collection \<Rightarrow> collection" where
  "fetchAndSyncBatch r db =
     (case fetched r of
        Inl _ \<Rightarrow> db
      | Inr blocks \<Rightarrow>
          (let ops = processBlocks blocks
           in case interrupted r of
                None \<Rightarrow> bulkWrite ops db
              | Some k \<Rightarrow> bulkWrite (take k ops) db))"

text \<open>
  The shared queue. A worker takes the first range when it is free, and its batch is written when it finishes; at most
  the given number of workers is busy. \<open>answer\<close> gives the outcome of a range.
\<close>

record pool =
  queue :: "(int \<times> int) list"
  busy :: "(int \<times> int) list"
  finished :: "(int \<times> int) list"
  db :: collection

inductive pool_step :: "nat \<Rightarrow> (int \<times> int \<Rightarrow> outcome) \<Rightarrow> pool \<Rightarrow> pool \<Rightarrow> bool"
  for limit :: nat and answer :: "int \<times> int \<Rightarrow> outcome" where
  take_job: "queue s = r # q \<Longrightarrow> length (busy s) < limit \<Longrightarrow>
     pool_step limit answer s (s\<lparr>queue := q, busy := busy s @ [r]\<rparr>)"
| end_job: "busy s = xs @ r # ys \<Longrightarrow>
     pool_step limit answer s
       (s\<lparr>busy := xs @ ys, finished := finished s @ [r], db := fetchAndSyncBatch (answer r) (db s)\<rparr>)"

definition start_pool :: "(int \<times> int) list \<Rightarrow> collection \<Rightarrow> pool" where
  "start_pool ranges d = \<lparr>queue = ranges, busy = [], finished = [], db = d\<rparr>"

definition pool_done :: "pool \<Rightarrow> bool" where
  "pool_done s = (queue s = [] \<and> busy s = [])"

text \<open>\<^verbatim>\<open>processBatchRanges\<close> returns in a state where the queue is empty and no worker is busy.\<close>

definition processBatchRanges ::
    "nat \<Rightarrow> (int \<times> int \<Rightarrow> outcome) \<Rightarrow> (int \<times> int) list \<Rightarrow> collection \<Rightarrow> collection \<Rightarrow> bool" where
  "processBatchRanges limit answer ranges d d' \<longleftrightarrow>
     (\<exists>s. (pool_step limit answer)\<^sup>*\<^sup>* (start_pool ranges d) s \<and> pool_done s \<and> db s = d')"

text \<open>
  \<^verbatim>\<open>fetchAndSyncNewBlocks\<close>: the scan, then the batches. An error of the scan ends it, with the number advanced
  so far and the collection unchanged; the last component is the error, which this function emits and
  \<^verbatim>\<open>fetchAndSyncInitialBlocks\<close> throws.
\<close>

definition fetchAndSyncNewBlocks ::
    "nat \<Rightarrow> node \<Rightarrow> (int \<times> int \<Rightarrow> outcome) \<Rightarrow> int \<times> collection
       \<Rightarrow> int \<times> collection \<Rightarrow> js_error option \<Rightarrow> bool" where
  "fetchAndSyncNewBlocks fuel node answer s s' err \<longleftrightarrow>
     (case scan fuel node 0 (fst s) [] of
        None \<Rightarrow> False
      | Some (Inl e, cur) \<Rightarrow> s' = (cur, snd s) \<and> err = Some e
      | Some (Inr ranges, cur) \<Rightarrow>
          fst s' = cur \<and> err = None
          \<and> (if ranges = [] then snd s' = snd s
             else processBatchRanges concurrencyLimit answer ranges (snd s) (snd s')))"

text \<open>\<^verbatim>\<open>fetchAndSyncInitialBlocks\<close> first takes the number from the collection.\<close>

definition fetchAndSyncInitialBlocks ::
    "nat \<Rightarrow> node \<Rightarrow> (int \<times> int \<Rightarrow> outcome) \<Rightarrow> int \<times> collection
       \<Rightarrow> int \<times> collection \<Rightarrow> js_error option \<Rightarrow> bool" where
  "fetchAndSyncInitialBlocks fuel node answer s s' err =
     fetchAndSyncNewBlocks fuel node answer (last_synced (snd s), snd s) s' err"

section \<open>The collection\<close>

definition blank :: "int \<Rightarrow> block" where
  "blank i = \<lparr>bid = i, transactions = None, others = []\<rparr>"

definition stored :: "collection \<Rightarrow> int \<Rightarrow> block" where
  "stored d i = (case lookup d i of Some b \<Rightarrow> b | None \<Rightarrow> blank i)"

lemma bid_set_fields [simp]: "bid (set_fields b d) = bid b"
  by (simp add: set_fields_def)

lemma lookup_upsert:
  "lookup (upsert b d) i = (if i = bid b then Some (set_fields b (stored d i)) else lookup d i)"
  by (induction d) (auto simp: lookup_def stored_def blank_def)

lemma lookup_bulkWrite_other: "i \<notin> bid ` set bs \<Longrightarrow> lookup (bulkWrite bs d) i = lookup d i"
  by (induction bs arbitrary: d) (simp_all add: bulkWrite_def lookup_upsert)

lemma lookup_bulkWrite:
  "distinct (map bid bs) \<Longrightarrow> b \<in> set bs \<Longrightarrow>
   lookup (bulkWrite bs d) (bid b) = Some (set_fields b (stored d (bid b)))"
proof (induction bs arbitrary: d)
  case (Cons x bs)
  have e: "bulkWrite (x # bs) d = bulkWrite bs (upsert x d)" by (simp add: bulkWrite_def)
  show ?case
  proof (cases "b = x")
    case True
    then show ?thesis
      using Cons.prems by (simp add: e lookup_bulkWrite_other lookup_upsert)
  next
    case False
    then have b: "b \<in> set bs" using Cons.prems by simp
    then have "bid b \<in> bid ` set bs" by blast
    then have "bid b \<noteq> bid x" using Cons.prems by auto
    with b show ?thesis
      using Cons by (simp add: e stored_def lookup_upsert)
  qed
qed simp

lemma distinct_upsert: "distinct (map bid d) \<Longrightarrow> distinct (map bid (upsert b d))"
proof (induction d)
  case (Cons x d)
  have "bid ` set (upsert b d) = insert (bid b) (bid ` set d)" for d
    by (induction d) auto
  with Cons show ?case by auto
qed simp

section \<open>The worker pool\<close>

lemmas pool_step_simps = pool_step.simps

definition pool_ok :: "nat \<Rightarrow> (int \<times> int \<Rightarrow> outcome) \<Rightarrow> (int \<times> int) list \<Rightarrow> collection \<Rightarrow> pool \<Rightarrow> bool" where
  "pool_ok limit answer ranges d s \<longleftrightarrow>
     mset (queue s) + mset (busy s) + mset (finished s) = mset ranges
   \<and> length (busy s) \<le> limit
   \<and> db s = foldl (\<lambda>d r. fetchAndSyncBatch (answer r) d) d (finished s)"

lemma pool_ok_step: "pool_step limit answer s s' \<Longrightarrow> pool_ok limit answer rs d s \<Longrightarrow> pool_ok limit answer rs d s'"
  by (induction rule: pool_step.induct) (auto simp: pool_ok_def)

lemma pool_ok_run:
  "(pool_step limit answer)\<^sup>*\<^sup>* s s' \<Longrightarrow> pool_ok limit answer rs d s \<Longrightarrow> pool_ok limit answer rs d s'"
  by (induction rule: rtranclp_induct) (auto intro: pool_ok_step)

lemma pool_ok_start: "pool_ok limit answer rs d (start_pool rs d)"
  by (simp add: pool_ok_def start_pool_def)

definition pool_measure :: "pool \<Rightarrow> nat" where
  "pool_measure s = 2 * length (queue s) + length (busy s)"

lemma pool_step_decreases: "pool_step limit answer s s' \<Longrightarrow> pool_measure s' < pool_measure s"
  by (induction rule: pool_step.induct) (simp_all add: pool_measure_def)

lemma pool_progress:
  assumes "0 < limit" "\<not> pool_done s"
  shows "\<exists>s'. pool_step limit answer s s'"
proof (cases "busy s")
  case Nil
  then obtain r q where "queue s = r # q" using assms(2) by (cases "queue s") (auto simp: pool_done_def)
  then show ?thesis using Nil assms(1) take_job [of s r q limit answer] by auto
next
  case (Cons r ys)
  then show ?thesis using end_job [of s "[]" r ys limit answer] by auto
qed

lemma pool_terminates:
  "0 < limit \<Longrightarrow> \<exists>s'. (pool_step limit answer)\<^sup>*\<^sup>* s s' \<and> pool_done s'"
proof (induction "pool_measure s" arbitrary: s rule: less_induct)
  case less
  show ?case
  proof (cases "pool_done s")
    case False
    obtain s' where "pool_step limit answer s s'" using pool_progress [OF less.prems False] by blast
    then show ?thesis
      using less.hyps [OF pool_step_decreases less.prems] by (meson converse_rtranclp_into_rtranclp)
  qed blast
qed

lemma processBatchRanges_perm:
  assumes "processBatchRanges limit answer rs d d'"
  shows "\<exists>ps. mset ps = mset rs \<and> d' = foldl (\<lambda>d r. fetchAndSyncBatch (answer r) d) d ps"
proof -
  obtain s where "(pool_step limit answer)\<^sup>*\<^sup>* (start_pool rs d) s" "pool_done s" "db s = d'"
    using assms by (auto simp: processBatchRanges_def)
  then show ?thesis
    using pool_ok_run [OF _ pool_ok_start, of limit answer rs d s]
    by (intro exI [of _ "finished s"]) (simp add: pool_ok_def pool_done_def)
qed

section \<open>A node that serves a chain\<close>

text \<open>
  The chain has the blocks 1 to \<open>N\<close>; the node answers a range with the blocks in it. The batches of a
  fault-free run are answered in the same way.
\<close>

definition chain_range :: "(int \<Rightarrow> block) \<Rightarrow> int \<Rightarrow> int \<Rightarrow> int \<Rightarrow> block list" where
  "chain_range c N lo hi = map c [max 1 lo..min hi N]"

definition chain_node :: "(int \<Rightarrow> block) \<Rightarrow> int \<Rightarrow> node" where
  "chain_node c N k lo hi = Inr (chain_range c N lo hi)"

definition chain_answer :: "(int \<Rightarrow> block) \<Rightarrow> int \<Rightarrow> int \<times> int \<Rightarrow> outcome" where
  "chain_answer c N r = \<lparr>fetched = Inr (chain_range c N (fst r) (snd r)), interrupted = None\<rparr>"

definition numbered :: "(int \<Rightarrow> block) \<Rightarrow> bool" where
  "numbered c = (\<forall>i. bid (c i) = i)"

definition covers :: "int \<times> int \<Rightarrow> int \<Rightarrow> bool" where
  "covers r i = (fst r \<le> i \<and> i \<le> snd r)"

text \<open>The ranges the scan finds: consecutive batches from the current number to the end of the chain.\<close>

fun tiles :: "int \<Rightarrow> int \<Rightarrow> (int \<times> int) list \<Rightarrow> bool" where
  "tiles cur N [] = (N \<le> cur)"
| "tiles cur N (r # rs) = (cur < N \<and> r = (cur + 1, cur + batchSize) \<and> tiles (min (cur + batchSize) N) N rs)"

lemma tiles_above: "tiles cur N rs \<Longrightarrow> r \<in> set rs \<Longrightarrow> covers r i \<Longrightarrow> cur < i"
  by (induction cur N rs rule: tiles.induct) (fastforce simp: covers_def batchSize_def)+

lemma tiles_cover: "tiles cur N rs \<Longrightarrow> cur < i \<Longrightarrow> i \<le> N \<Longrightarrow> \<exists>r \<in> set rs. covers r i"
proof (induction cur N rs rule: tiles.induct)
  case (2 cur N r rs)
  show ?case
  proof (cases "i \<le> cur + batchSize")
    case True
    then show ?thesis using 2 by (auto simp: covers_def)
  next
    case False
    then show ?thesis using 2 by auto
  qed
qed simp

lemma tiles_unique:
  "tiles cur N rs \<Longrightarrow> distinct rs
     \<and> (\<forall>r \<in> set rs. \<forall>r' \<in> set rs. \<forall>i. i \<le> N \<longrightarrow> covers r i \<longrightarrow> covers r' i \<longrightarrow> r = r')"
proof (induction cur N rs rule: tiles.induct)
  case (2 cur N r rs)
  have t: "tiles (min (cur + batchSize) N) N rs" and r: "r = (cur + 1, cur + batchSize)" "cur < N"
    using 2(2) by auto
  have no: "\<not> covers r i" if "r' \<in> set rs" "covers r' i" "i \<le> N" for r' i
    using tiles_above [OF t that(1,2)] that(3) by (auto simp: r covers_def)
  moreover have "r \<notin> set rs"
    using tiles_above [OF t, of r "cur + 1"] r by (auto simp: covers_def batchSize_def)
  ultimately show ?case using 2(1) [OF t] by auto
qed simp

lemma foldl_max_upto: "l \<le> h \<Longrightarrow> foldl max a [l..h] = max a (h :: int)"
proof (induction "nat (h - l)" arbitrary: l a)
  case 0
  then show ?case by simp
next
  case (Suc n)
  then have "l < h" by linarith
  then show ?case using Suc.hyps(1) [of "l + 1" "max a l"] Suc.hyps(2) by (simp add: upto_rec1)
qed

lemma map_bid_chain: "numbered c \<Longrightarrow> map bid (chain_range c N lo hi) = [max 1 lo..min hi N]"
  by (simp add: chain_range_def numbered_def o_def)

lemma scan_chain:
  assumes c: "numbered c"
  shows "0 \<le> cur \<Longrightarrow> nat (N - cur) < fuel \<Longrightarrow>
    \<exists>rs. scan fuel (chain_node c N) k cur acc = Some (Inr (acc @ rs), max cur N) \<and> tiles cur N rs"
proof (induction fuel arbitrary: k cur acc)
  case (Suc fuel)
  let ?bs = "chain_range c N (cur + 1) (cur + batchSize)"
  show ?case
  proof (cases "cur < N")
    case False
    then have "?bs = []" using Suc.prems by (simp add: chain_range_def)
    with False show ?thesis
      by (intro exI [of _ "[]"]) (simp add: chain_node_def Let_def)
  next
    case True
    let ?cur = "min (cur + batchSize) N"
    have b: "0 < batchSize" by (simp add: batchSize_def)
    have ne: "?bs \<noteq> []" using Suc.prems True b by (simp add: chain_range_def)
    have m: "foldl max cur (map bid ?bs) = ?cur"
      using Suc.prems(1) True b by (simp only: map_bid_chain [OF c]) (subst foldl_max_upto; auto)
    obtain rs where rs: "scan fuel (chain_node c N) (Suc k) ?cur (acc @ [(cur + 1, cur + batchSize)])
        = Some (Inr ((acc @ [(cur + 1, cur + batchSize)]) @ rs), max ?cur N)" "tiles ?cur N rs"
      using Suc.IH [of ?cur] Suc.prems True b by fastforce
    have "scan (Suc fuel) (chain_node c N) k cur acc =
        scan fuel (chain_node c N) (Suc k) ?cur (acc @ [(cur + 1, cur + batchSize)])"
      using ne m by (simp add: chain_node_def Let_def)
    with rs True show ?thesis
      by (intro exI [of _ "(cur + 1, cur + batchSize) # rs"]) (simp add: max_def)
  qed
qed simp

lemma batch_lookup:
  assumes c: "numbered c"
  shows "lookup (fetchAndSyncBatch (chain_answer c N r) d) i =
    (if covers r i \<and> 1 \<le> i \<and> i \<le> N then Some (set_fields (process_block (c i)) (stored d i)) else lookup d i)"
proof -
  let ?ops = "processBlocks (chain_range c N (fst r) (snd r))"
  have ids: "map bid ?ops = [max 1 (fst r)..min (snd r) N]"
    using map_bid_chain [OF c] by (simp add: processBlocks_def o_def process_block_def)
  have e: "fetchAndSyncBatch (chain_answer c N r) d = bulkWrite ?ops d"
    by (simp add: fetchAndSyncBatch_def chain_answer_def Let_def)
  show ?thesis
  proof (cases "covers r i \<and> 1 \<le> i \<and> i \<le> N")
    case True
    then have m: "process_block (c i) \<in> set ?ops"
      by (auto simp: processBlocks_def chain_range_def covers_def)
    have "bid (process_block (c i)) = i" using c by (simp add: process_block_def numbered_def)
    then show ?thesis
      using lookup_bulkWrite [OF _ m, of d] True by (simp add: e ids)
  next
    case False
    have "bid ` set ?ops = {max 1 (fst r)..min (snd r) N}"
      using ids by (metis list.set_map set_upto)
    then have "i \<notin> bid ` set ?ops" using False by (auto simp: covers_def)
    with False show ?thesis using lookup_bulkWrite_other [of i ?ops d] by (auto simp: e)
  qed
qed

text \<open>Batches in any order: each block of the ranges is written once, over what was stored before.\<close>

lemma batches_lookup:
  assumes c: "numbered c"
    and u: "\<forall>r \<in> set ps. \<forall>r' \<in> set ps. i \<le> N \<longrightarrow> covers r i \<longrightarrow> covers r' i \<longrightarrow> r = r'" "distinct ps"
  shows "lookup (foldl (\<lambda>d r. fetchAndSyncBatch (chain_answer c N r) d) d ps) i =
    (if (\<exists>r \<in> set ps. covers r i) \<and> 1 \<le> i \<and> i \<le> N
     then Some (set_fields (process_block (c i)) (stored d i)) else lookup d i)"
  using u
proof (induction ps arbitrary: d)
  case (Cons r ps)
  let ?d = "fetchAndSyncBatch (chain_answer c N r) d"
  have IH: "lookup (foldl (\<lambda>d r. fetchAndSyncBatch (chain_answer c N r) d) ?d ps) i =
    (if (\<exists>r \<in> set ps. covers r i) \<and> 1 \<le> i \<and> i \<le> N
     then Some (set_fields (process_block (c i)) (stored ?d i)) else lookup ?d i)"
    by (rule Cons.IH) (use Cons.prems in auto)
  show ?case
  proof (cases "covers r i \<and> i \<le> N")
    case True
    then have "\<not> (\<exists>r \<in> set ps. covers r i)" using Cons.prems by (metis distinct.simps(2) list.set_intros)
    with True IH show ?thesis by (simp add: batch_lookup [OF c])
  next
    case False
    then have "lookup ?d i = lookup d i" by (auto simp: batch_lookup [OF c])
    with False IH show ?thesis by (auto simp: stored_def)
  qed
qed simp

lemma sync_chain_lookup:
  assumes c: "numbered c" and "0 \<le> cur" "nat (N - cur) < fuel"
    and run: "fetchAndSyncNewBlocks fuel (chain_node c N) (chain_answer c N) (cur, d) (cur', d') err"
  shows "err = None \<and> cur' = max cur N
    \<and> lookup d' i = (if cur < i \<and> i \<le> N then Some (set_fields (process_block (c i)) (stored d i)) else lookup d i)"
proof -
  obtain rs where rs: "scan fuel (chain_node c N) 0 cur [] = Some (Inr rs, max cur N)" "tiles cur N rs"
    using scan_chain [OF c assms(2,3), of 0 "[]"] by auto
  have e: "err = None" "cur' = max cur N" using run rs(1) by (auto simp: fetchAndSyncNewBlocks_def)
  have "lookup d' i = (if (\<exists>r \<in> set rs. covers r i) \<and> 1 \<le> i \<and> i \<le> N
      then Some (set_fields (process_block (c i)) (stored d i)) else lookup d i)"
  proof (cases "rs = []")
    case True
    then show ?thesis using run rs(1) by (simp add: fetchAndSyncNewBlocks_def)
  next
    case False
    then have "processBatchRanges concurrencyLimit (chain_answer c N) rs d d'"
      using run rs(1) by (simp add: fetchAndSyncNewBlocks_def)
    then obtain ps where ps: "mset ps = mset rs"
        "d' = foldl (\<lambda>d r. fetchAndSyncBatch (chain_answer c N r) d) d ps"
      using processBatchRanges_perm by blast
    have s: "set ps = set rs" "distinct ps"
      using ps(1) tiles_unique [OF rs(2)] by (auto dest: mset_eq_setD mset_eq_imp_distinct_iff)
    show ?thesis
      unfolding ps(2) s(1) [symmetric]
      by (rule batches_lookup [OF c]) (use s tiles_unique [OF rs(2)] in auto)
  qed
  moreover have "(\<exists>r \<in> set rs. covers r i) \<and> 1 \<le> i \<and> i \<le> N \<longleftrightarrow> cur < i \<and> i \<le> N"
    using tiles_above [OF rs(2)] tiles_cover [OF rs(2)] assms(2) by force
  ultimately show ?thesis using e by simp
qed

lemma sync_chain_returns:
  assumes c: "numbered c" and "0 \<le> cur" "nat (N - cur) < fuel"
  shows "\<exists>s'. fetchAndSyncNewBlocks fuel (chain_node c N) answer (cur, d) s' None"
proof -
  obtain rs where rs: "scan fuel (chain_node c N) 0 cur [] = Some (Inr rs, max cur N)"
    using scan_chain [OF c assms(2,3), of 0 "[]"] by auto
  obtain s where "(pool_step concurrencyLimit answer)\<^sup>*\<^sup>* (start_pool rs d) s" "pool_done s"
    using pool_terminates [of concurrencyLimit] by (auto simp: concurrencyLimit_def)
  then have "processBatchRanges concurrencyLimit answer rs d (db s)"
    by (auto simp: processBatchRanges_def)
  with rs show ?thesis
    by (intro exI [of _ "(max cur N, if rs = [] then d else db s)"]) (simp add: fetchAndSyncNewBlocks_def)
qed

lemma foldl_lookup_same:
  "\<forall>r \<in> set ps. \<forall>d. lookup (f r d) i = lookup d i \<Longrightarrow>
   lookup (foldl (\<lambda>d r. f r d) d ps) i = lookup d i"
  by (induction ps arbitrary: d) simp_all

text \<open>Batches whose fetch fails, all others being answered from the chain.\<close>

definition failing_answer :: "(int \<Rightarrow> block) \<Rightarrow> int \<Rightarrow> int \<Rightarrow> int \<times> int \<Rightarrow> outcome" where
  "failing_answer c N i r =
     (if covers r i then \<lparr>fetched = Inl (Error ''ECONNRESET''), interrupted = None\<rparr> else chain_answer c N r)"

lemma failing_lookup:
  "numbered c \<Longrightarrow> lookup (fetchAndSyncBatch (failing_answer c N i r) d) i = lookup d i"
  by (cases "covers r i")
    (simp_all add: failing_answer_def batch_lookup, simp add: fetchAndSyncBatch_def)

lemma failing_run:
  assumes c: "numbered c" and "0 \<le> cur" "nat (N - cur) < fuel"
    and run: "fetchAndSyncNewBlocks fuel (chain_node c N) (failing_answer c N i) (cur, d) (cur', d') err"
  shows "cur' = max cur N \<and> lookup d' i = lookup d i"
proof -
  obtain rs where rs: "scan fuel (chain_node c N) 0 cur [] = Some (Inr rs, max cur N)"
    using scan_chain [OF c assms(2,3), of 0 "[]"] by auto
  show ?thesis
  proof (cases "rs = []")
    case True
    then show ?thesis using run rs by (simp add: fetchAndSyncNewBlocks_def)
  next
    case False
    then obtain ps where "d' = foldl (\<lambda>d r. fetchAndSyncBatch (failing_answer c N i r) d) d ps" "cur' = max cur N"
      using run rs processBatchRanges_perm [of concurrencyLimit "failing_answer c N i" rs d d']
      by (auto simp: fetchAndSyncNewBlocks_def)
    then show ?thesis using failing_lookup [OF c] by (auto intro!: foldl_lookup_same)
  qed
qed

section \<open>Decoded values\<close>

lemma json_parse_string: "json_parse s = Some (Str u) \<Longrightarrow> \<exists>t. skip_ws s = dquote # t"
  by (cases "skip_ws s")
    (auto simp: json_parse_def parse_num_def Let_def split: option.splits prod.splits if_splits list.splits)

lemma json_ws_is_ws: "json_ws c \<Longrightarrow> is_ws c"
  by (auto simp: json_ws_def is_ws_def)

lemma trim_first: "trim s = c # t \<Longrightarrow> dropWhile is_ws s = [] \<or> hd (dropWhile is_ws s) = c"
proof -
  assume t: "trim s = c # t"
  let ?r = "dropWhile is_ws s"
  have "suffix (dropWhile is_ws (rev ?r)) (rev ?r)" by (rule suffix_dropWhile)
  then have "prefix (trim s) ?r" by (simp add: trim_def suffix_to_prefix)
  then show ?thesis using t by (auto simp: prefix_def)
qed

lemma dropWhile_mono_hd:
  "(\<And>c. P c \<Longrightarrow> Q c) \<Longrightarrow> dropWhile P s = d # t \<Longrightarrow> \<not> Q d \<Longrightarrow> dropWhile Q s = d # t"
  by (induction s) (auto split: if_splits)

lemma decode_value_not_json:
  assumes "looks_like_json (trim s)" "json_parse s = Some (Str u)"
  shows False
proof -
  obtain t where t: "skip_ws s = dquote # t" using json_parse_string [OF assms(2)] by blast
  have "\<not> is_ws dquote" by (simp add: is_ws_def dquote_def)
  then have "dropWhile is_ws s = dquote # t"
    using t json_ws_is_ws unfolding skip_ws_def by (rule_tac dropWhile_mono_hd) auto
  moreover obtain c q where "trim s = c # q" "c = CHR ''{'' \<or> c = CHR ''[''"
    using assms(1) by (cases "trim s") (auto simp: looks_like_json_def starts_with_def)
  ultimately show False using trim_first [of s c q] by (auto simp: dquote_def)
qed

lemma decode_value_idem: "decode_value (decode_value v) = decode_value v"
proof (cases v)
  case (Str s)
  show ?thesis
  proof (cases "looks_like_json (trim s)")
    case True
    show ?thesis
    proof (cases "json_parse s")
      case (Some x)
      then show ?thesis
        using True decode_value_not_json [OF True] Str by (cases x) (auto simp: decode_value_def)
    qed (simp add: decode_value_def Str)
  qed (simp add: decode_value_def Str)
qed (simp_all add: decode_value_def)

lemma oset_twice: "oset k v (oset k w m) = oset k v m"
  by (induction m) auto

lemma process_transaction_idem: "process_transaction (process_transaction t) = process_transaction t"
  by (cases t) (auto simp: oset_twice decode_value_idem split: option.splits)

section \<open>Properties\<close>

text \<open>
  C3: A fault-free sync is complete and ends, whatever the order in which the workers run. Starting at
  number \<open>cur\<close>, with as many loop iterations as there are blocks left and one more, it returns, and every run that
  returns has no error, has advanced to the end of the chain, has written exactly the blocks after \<open>cur\<close>, decoded,
  over what was stored before, and left every other document alone.
\<close>

theorem cache_sync_complete:
  assumes "numbered c" "0 \<le> cur" "nat (N - cur) < fuel"
  shows "(\<exists>s' err. fetchAndSyncNewBlocks fuel (chain_node c N) (chain_answer c N) (cur, d) s' err)
    \<and> (\<forall>cur' d' err. fetchAndSyncNewBlocks fuel (chain_node c N) (chain_answer c N) (cur, d) (cur', d') err \<longrightarrow>
         err = None \<and> cur' = max cur N
       \<and> (\<forall>i. lookup d' i = (if cur < i \<and> i \<le> N then Some (set_fields (process_block (c i)) (stored d i))
                             else lookup d i)))"
  using sync_chain_returns [OF assms] sync_chain_lookup [OF assms] by blast

definition sample_chain :: "int \<Rightarrow> block" where
  "sample_chain i = \<lparr>bid = i, transactions = None, others = []\<rparr>"

lemma sample_numbered: "numbered sample_chain"
  by (simp add: numbered_def sample_chain_def)

theorem cache_sync_complete_witness:
  "\<exists>s' err. fetchAndSyncNewBlocks 251 (chain_node sample_chain 250) (chain_answer sample_chain 250) (0, []) s' err"
  using cache_sync_complete [OF sample_numbered, of 0 250 251 "[]"] by simp



text \<open>
  A batch whose fetch fails is lost. The error is swallowed and the number advances past the batch, so the blocks
  of that batch stay missing after every later fault-free sync, however long the chain has become.
\<close>

lemma failed_batch_never_retried:
  assumes "numbered c" "0 \<le> cur" "cur < i" "i \<le> N" "N \<le> M" "lookup d i = None"
    and "nat (N - cur) < fuel" "nat (M - N) < fuel'"
    and "fetchAndSyncNewBlocks fuel (chain_node c N) (failing_answer c N i) (cur, d) (cur', d') err"
    and "fetchAndSyncNewBlocks fuel' (chain_node c M) (chain_answer c M) (cur', d') (cur'', d'') err'"
  shows "lookup d'' i = None"
proof -
  have 1: "cur' = N" "lookup d' i = None"
    using failing_run [OF assms(1,2,7,9)] assms(3,4,6) by auto
  have "lookup d'' i = lookup d' i"
    using sync_chain_lookup [OF assms(1) _ _ assms(10)] assms(2-4,8) 1(1) by simp
  with 1 show ?thesis by simp
qed

text \<open>
  A scan that fails after it has found blocks loses them as well: the number has advanced past the ranges found so
  far, and they are not fetched.
\<close>

lemma interrupted_scan_skips:
  assumes "numbered c" "0 \<le> cur" "cur + batchSize \<le> N"
    and "\<And>lo hi. node 0 lo hi = Inr (chain_range c N lo hi)" "\<And>lo hi. node 1 lo hi = Inl e"
  shows "fetchAndSyncNewBlocks (Suc (Suc n)) node answer (cur, d) s' err
           \<longleftrightarrow> s' = (cur + batchSize, d) \<and> err = Some e"
proof -
  have m: "foldl max cur (map bid (chain_range c N (cur + 1) (cur + batchSize))) = cur + batchSize"
    using assms(2,3) by (simp only: map_bid_chain [OF assms(1)]) (subst foldl_max_upto; auto simp: batchSize_def)
  have "chain_range c N (cur + 1) (cur + batchSize) \<noteq> []"
    using assms(2,3) by (simp add: chain_range_def batchSize_def)
  then have "scan (Suc (Suc n)) node 0 cur [] = Some (Inl e, cur + batchSize)"
    using m assms(4,5) by (simp add: Let_def)
  then show ?thesis by (simp add: fetchAndSyncNewBlocks_def)
qed

lemma interrupted_scan_skips_witness:
  "fetchAndSyncNewBlocks 2
     (\<lambda>k lo hi. if k = 0 then Inr (chain_range sample_chain 500 lo hi) else Inl (Error ''timeout''))
     (chain_answer sample_chain 500) (0, []) (100, []) (Some (Error ''timeout''))"
  using interrupted_scan_skips [OF sample_numbered, of 0 500
      "\<lambda>k lo hi. if k = 0 then Inr (chain_range sample_chain 500 lo hi) else Inl (Error ''timeout'')"
      "Error ''timeout''" 0 "chain_answer sample_chain 500" "[]" "(100, [])" "Some (Error ''timeout'')"]
  by (simp add: batchSize_def numeral_2_eq_2)

text \<open>
  Decoding is stable: processing blocks that were processed before changes nothing, values that are not strings or do
  not look like JSON are kept, and a value that is the JSON text of an object or array is replaced by it.
\<close>

lemma processBlocks_stable:
  "processBlocks (processBlocks bs) = processBlocks bs
   \<and> (json_ok v \<longrightarrow> looks_like_json (trim (the (stringify v))) \<longrightarrow>
        process_transaction (Obj [(''value'', Str (the (stringify v)))]) = Obj [(''value'', v)])"
proof -
  have "process_block (process_block b) = process_block b" for b
    by (simp add: process_block_def option.map_comp o_def process_transaction_idem)
  then show ?thesis
    by (auto simp: processBlocks_def decode_value_def json.dec_enc)
qed

end
