(* ===== verification/Cache_Connection.thy ===== *)
theory Cache_Connection
  imports JS_JSON
begin

text \<open>
  The WebSocket side of \<^verbatim>\<open>resilient-node-cache/src/index.ts\<close>: opening, messages, closing, reconnection with
  exponential back-off, and \<^verbatim>\<open>close()\<close>. The state is the socket, the counter of attempts, the pending reconnection
  timers and the flags of the class; the environment's events drive it.
\<close>

section \<open>State and handlers\<close>

datatype socket = Connecting | Open | Closing | Closed

record conn =
  ws :: "socket option"
  reconnectAttempts :: nat
  isClosing :: bool
  timers :: "int list"
  periodic :: bool
  close_on_open :: bool

definition connectWebSocket :: "conn \<Rightarrow> conn" where
  "connectWebSocket s = s\<lparr>ws := Some Connecting, close_on_open := False\<rparr>"

definition on_open :: "conn \<Rightarrow> conn" where
  "on_open s = s\<lparr>reconnectAttempts := 0, ws := Some (if close_on_open s then Closing else Open)\<rparr>"

definition backoff :: "int \<Rightarrow> nat \<Rightarrow> int" where
  "backoff interval attempts = interval * 2 ^ attempts"

definition attemptReconnection :: "int \<Rightarrow> conn \<Rightarrow> conn" where
  "attemptReconnection interval s = s\<lparr>timers := timers s @ [backoff interval (reconnectAttempts s)]\<rparr>"

definition on_close :: "int \<Rightarrow> conn \<Rightarrow> conn" where
  "on_close interval s =
     (let s1 = s\<lparr>ws := Some Closed\<rparr>
      in if isClosing s then s1 else attemptReconnection interval s1)"

definition on_timer :: "conn \<Rightarrow> conn" where
  "on_timer s =
     connectWebSocket (s\<lparr>timers := tl (timers s), reconnectAttempts := Suc (reconnectAttempts s)\<rparr>)"

definition close_sync :: "conn \<Rightarrow> conn" where
  "close_sync s =
     (let s1 = s\<lparr>isClosing := True, periodic := False\<rparr>
      in case ws s of
           Some Connecting \<Rightarrow> s1\<lparr>close_on_open := True\<rparr>
         | Some Open \<Rightarrow> s1\<lparr>ws := Some Closing\<rparr>
         | _ \<Rightarrow> s1)"

text \<open>What a message leads to: a sync, a warning, or an error event.\<close>

datatype reaction = SyncNewBlocks | Unrecognized | EmitError

definition on_message :: "string \<Rightarrow> reaction" where
  "on_message message =
     (let parsed = (case json_parse message of Some v \<Rightarrow> v | None \<Rightarrow> Obj [(''type'', Str message)])
      in case jget parsed ''type'' of
           Inl _ \<Rightarrow> EmitError
         | Inr t \<Rightarrow> if t = Str ''Update blocks'' then SyncNewBlocks else Unrecognized)"

text \<open>
  Node's \<^verbatim>\<open>setTimeout\<close> takes delays from 1 to 2147483647 milliseconds and replaces any other by 1.
\<close>

definition timeout_delay :: "int \<Rightarrow> int" where
  "timeout_delay d = (if d < 1 \<or> 2147483647 < d then 1 else d)"

section \<open>Runs\<close>

datatype conn_event = Opened | Lost | Fired | Stop

text \<open>An event that the socket cannot produce in its state leaves everything as it is.\<close>

fun conn_step :: "int \<Rightarrow> conn \<Rightarrow> conn_event \<Rightarrow> conn" where
  "conn_step i s Opened = (if ws s = Some Connecting then on_open s else s)"
| "conn_step i s Lost = (if ws s \<in> {Some Connecting, Some Open, Some Closing} then on_close i s else s)"
| "conn_step i s Fired = (if timers s \<noteq> [] then on_timer s else s)"
| "conn_step i s Stop = close_sync s"

definition initial_conn :: conn where
  "initial_conn = \<lparr>ws = Some Connecting, reconnectAttempts = 0, isClosing = False, timers = [],
     periodic = True, close_on_open = False\<rparr>"

lemmas conn_defs = connectWebSocket_def on_open_def attemptReconnection_def on_close_def on_timer_def
  close_sync_def

text \<open>At most one timer is pending, and only while there is no live socket; after \<^verbatim>\<open>close()\<close> polling has stopped.\<close>

definition conn_ok :: "conn \<Rightarrow> bool" where
  "conn_ok s \<longleftrightarrow> length (timers s) \<le> 1 \<and> (timers s \<noteq> [] \<longrightarrow> ws s = Some Closed)
     \<and> (isClosing s \<longrightarrow> \<not> periodic s)"

lemma conn_step_ok: "conn_ok s \<Longrightarrow> conn_ok (conn_step i s e)"
  by (cases e; cases "timers s")
    (auto simp: conn_ok_def conn_defs Let_def split: option.splits socket.splits)

interpretation con: stepper "conn_step i" conn_ok for i
  by unfold_locales (rule conn_step_ok)

text \<open>Stopped for good: closing, no timer pending, and the socket is not being opened.\<close>

definition stopped :: "conn \<Rightarrow> bool" where
  "stopped s \<longleftrightarrow> isClosing s \<and> timers s = [] \<and> ws s \<in> {None, Some Closing, Some Closed}"

interpretation stop: stepper "conn_step i" stopped for i
  by unfold_locales (case_tac e; auto simp: stopped_def conn_defs Let_def)

lemma failures_attempts:
  assumes "ws s = Some Connecting" "timers s = []" "\<not> isClosing s"
  shows "foldl (conn_step i) s (concat (replicate k [Lost, Fired])) =
    s\<lparr>ws := Some Connecting, reconnectAttempts := reconnectAttempts s + k,
      close_on_open := (if k = 0 then close_on_open s else False)\<rparr>"
  using assms
proof (induction k arbitrary: s)
  case (Suc k)
  let ?s = "conn_step i (conn_step i s Lost) Fired"
  have s: "?s = s\<lparr>reconnectAttempts := Suc (reconnectAttempts s), close_on_open := False\<rparr>"
    using Suc.prems by (simp add: conn_defs Let_def)
  then have "foldl (conn_step i) ?s (concat (replicate k [Lost, Fired])) =
      ?s\<lparr>ws := Some Connecting, reconnectAttempts := reconnectAttempts ?s + k,
        close_on_open := (if k = 0 then close_on_open ?s else False)\<rparr>"
    using Suc.IH [of ?s] Suc.prems by (simp only: s) simp
  moreover have "foldl (conn_step i) s (concat (replicate (Suc k) [Lost, Fired])) =
      foldl (conn_step i) ?s (concat (replicate k [Lost, Fired]))"
    by (simp del: conn_step.simps)
  ultimately show ?case using Suc.prems by (simp add: s del: conn_step.simps)
qed simp

section \<open>Properties\<close>


text \<open>
  The back-off has no cap, so with the default interval it collapses: up to 18 failures in a row the timer waits as
  long as intended, from the 19th on the delay is out of the timer's range and the wait is one
  millisecond.
\<close>

lemma backoff_collapses:
  "timeout_delay (backoff 5000 k) = (if k \<le> 18 then backoff 5000 k else 1)"
proof (cases "k \<le> 18")
  case True
  then have "(2 :: int) ^ k \<le> 262144" using power_increasing [of k 18 "2 :: int"] by simp
  moreover have "(1 :: int) \<le> 2 ^ k" by simp
  ultimately have "1 \<le> 5000 * (2 :: int) ^ k" "5000 * (2 :: int) ^ k \<le> 2147483647" by linarith+
  then show ?thesis using True by (simp add: timeout_delay_def backoff_def)
next
  case False
  then have "(2 :: int) ^ 19 \<le> 2 ^ k" by (intro power_increasing) simp_all
  then show ?thesis using False by (simp add: timeout_delay_def backoff_def)
qed

text \<open>
  After \<^verbatim>\<open>close()\<close> the cache stays closed if no reconnection was pending: whatever happens later, no timer is
  scheduled and the socket is not opened again.
\<close>

lemma close_is_final:
  assumes "timers (foldl (conn_step i) initial_conn es) = []"
    and "ws (foldl (conn_step i) initial_conn es) \<noteq> Some Connecting"
  shows "timers (foldl (conn_step i) initial_conn (es @ Stop # fs)) = []
    \<and> ws (foldl (conn_step i) initial_conn (es @ Stop # fs)) \<in> {None, Some Closing, Some Closed}"
proof -
  let ?s = "foldl (conn_step i) initial_conn es"
  have "stopped (conn_step i ?s Stop)"
    using assms by (auto simp: stopped_def close_sync_def Let_def split: option.splits socket.splits)
  then have "stopped (foldl (conn_step i) (conn_step i ?s Stop) fs)" by (rule stop.run_inv)
  then show ?thesis by (simp add: stopped_def)
qed

text \<open>
  A reconnection that is pending when \<^verbatim>\<open>close()\<close> is called still happens: the timer is not cancelled, and
  when it fires a new socket is opened and stays open although the cache has been closed.
\<close>

lemma close_leaves_timer:
  "let s = foldl (conn_step i) initial_conn [Opened, Lost, Stop, Fired, Opened]
   in isClosing s \<and> ws s = Some Open"
  by (simp add: initial_conn_def conn_defs Let_def)

text \<open>
  A notification is understood in both forms, as the bare text and as a JSON object with that type; a message that
  is the JSON text null raises an error event instead of a warning.
\<close>

lemma on_message_spec:
  "on_message ''Update blocks'' = SyncNewBlocks
   \<and> (\<forall>v. json_ok v \<longrightarrow> on_message (the (stringify v)) =
        (if v = Null then EmitError
         else if oprop v ''type'' = Str ''Update blocks'' then SyncNewBlocks else Unrecognized))"
proof -
  have "json_parse ''Update blocks'' = None"
    by (simp add: json_parse_def skip_ws_def json_ws_def dquote_def starts_with_def parse_num_def
        int_part_def is_digit_def)
  moreover have "on_message (the (stringify v)) =
        (if v = Null then EmitError
         else if oprop v ''type'' = Str ''Update blocks'' then SyncNewBlocks else Unrecognized)"
    if "json_ok v" for v
  proof -
    define t where "t = the (stringify v)"
    have "json_parse t = Some v" unfolding t_def by (rule json.dec_enc [OF that])
    then show ?thesis using that unfolding t_def [symmetric] by (cases v) (simp_all add: on_message_def)
  qed
  ultimately show ?thesis by (simp add: on_message_def own_def)
qed

lemma on_message_spec_witness:
  "on_message (the (stringify (Obj [(''type'', Str ''Update blocks'')]))) = SyncNewBlocks"
proof -
  have "json_ok (Obj [(''type'', Str ''Update blocks'')])" by simp
  with on_message_spec have "on_message (the (stringify (Obj [(''type'', Str ''Update blocks'')]))) =
      (if Obj [(''type'', Str ''Update blocks'')] = Null then EmitError
       else if oprop (Obj [(''type'', Str ''Update blocks'')]) ''type'' = Str ''Update blocks''
       then SyncNewBlocks else Unrecognized)"
    by blast
  then show ?thesis by (simp only: oprop.simps) (simp add: own_def)
qed

end
