(* ===== verification/Contract_CLI.thy ===== *)
theory Contract_CLI
  imports JS_JSON
begin

text \<open>
  The ResContract command line, \<^verbatim>\<open>rescontract/index.js\<close> and \<^verbatim>\<open>rescontract/config.js\<close>: locating ResilientDB, the
  registry of deployed contracts kept in a file of the home directory, and one function per
  command. An invocation is a process: it loads the registry, runs its command and exits with a code. The
  programs it starts, the file system's contents and the YAML loader are parameters.
\<close>

section \<open>Hosts and processes\<close>

type_synonym files = "string \<Rightarrow> string option"

record host =
  env_ResDB_Home :: "string option"
  cwd :: string
  homedir :: string
  yaml_load :: "string \<Rightarrow> jv res"

text \<open>How a started program ends: it cannot be started, or it exits with a code and its output.\<close>

datatype run = SpawnError string | Exited int string

type_synonym programs = "string \<Rightarrow> string list \<Rightarrow> run"

record invocation =
  exit_code :: nat
  fs :: files
  calls :: "(string \<times> string list) list"
  printed :: string

definition exit_with :: "nat \<Rightarrow> files \<Rightarrow> (string \<times> string list) list \<Rightarrow> invocation" where
  "exit_with c f cs = \<lparr>exit_code = c, fs = f, calls = cs, printed = []\<rparr>"

definition path_join :: "string list \<Rightarrow> string" where
  "path_join ps = join ''/'' ps"

definition tool_path :: "string \<Rightarrow> string" where
  "tool_path home =
     path_join [home, ''bazel-bin'', ''service'', ''tools'', ''contract'', ''api_tools'', ''contract_tools'']"

section \<open>Configuration\<close>

definition getResDBHome :: "host \<Rightarrow> files \<Rightarrow> string res" where
  "getResDBHome H f =
     (case env_ResDB_Home H of
        Some (c # s) \<Rightarrow> Inr (c # s)
      | _ \<Rightarrow>
          (let p1 = path_join [cwd H, ''config.yaml'']; p2 = path_join [homedir H, ''config.yaml''];
               file = (case f p1 of Some t \<Rightarrow> Some t | None \<Rightarrow> f p2)
           in case file of
                None \<Rightarrow> Inl (Error (''ResDB_Home is not set and config.yaml file not found. '' @
                          ''Please set ResDB_Home environment variable or provide a config.yaml file.''))
              | Some t \<Rightarrow>
                  bind_res (yaml_load H t) (\<lambda>config.
                    case oprop config ''ResDB_Home'' of
                      Str (c # s) \<Rightarrow> Inr (c # s)
                    | _ \<Rightarrow> Inl (Error (''ResDB_Home is not defined in config.yaml. '' @
                             ''Please define ResDB_Home in your config.yaml file.'')))))"

section \<open>The registry\<close>

type_synonym registry = "(string, jv) omap"

definition registryFilePath :: "host \<Rightarrow> string" where
  "registryFilePath H = path_join [homedir H, ''.rescontract_deployed_contracts.json'']"

text \<open>\<^verbatim>\<open>new Map(JSON.parse(data))\<close>: an array of pairs with string keys, later entries overriding earlier ones.\<close>

fun entry_of :: "jv \<Rightarrow> (string \<times> jv) option" where
  "entry_of (Arr (Str k # v # _)) = Some (k, v)"
| "entry_of _ = None"

fun map_of_entries :: "jv \<Rightarrow> registry option" where
  "map_of_entries (Arr es) =
     map_option (foldl (\<lambda>m (k, v). oset k v m) []) (opt_list (map entry_of es))"
| "map_of_entries _ = None"

text \<open>\<^term>\<open>None\<close>: the process ends with an uncaught exception.\<close>

definition loadDeployedContracts :: "host \<Rightarrow> files \<Rightarrow> registry option" where
  "loadDeployedContracts H f =
     (case f (registryFilePath H) of
        None \<Rightarrow> Some []
      | Some data \<Rightarrow> (case json_parse data of None \<Rightarrow> None | Some v \<Rightarrow> map_of_entries v))"

definition entries_json :: "registry \<Rightarrow> jv" where
  "entries_json r = Arr (map (\<lambda>(k, v). Arr [Str k, v]) r)"

definition saveDeployedContracts :: "host \<Rightarrow> registry \<Rightarrow> files \<Rightarrow> files" where
  "saveDeployedContracts H r f =
     f(registryFilePath H \<mapsto> (case pretty 0 (entries_json r) of Some t \<Rightarrow> t | None \<Rightarrow> ''undefined''))"

section \<open>Reading the output of a deployment\<close>

definition line_end :: "char \<Rightarrow> bool" where
  "line_end c = (code c = 10 \<or> code c = 13)"

text \<open>\<^verbatim>\<open>line.replace(/^.*\] /, '')\<close>: what follows the last bracket and space of the first line.\<close>

fun after_tag :: "string \<Rightarrow> string option" where
  "after_tag [] = None"
| "after_tag (c # s) =
     (if line_end c then None
      else case after_tag s of
        Some r \<Rightarrow> Some r
      | None \<Rightarrow> if starts_with (c # s) ''] '' then Some (drop 2 (c # s)) else None)"

definition strip_tag :: "string \<Rightarrow> string" where
  "strip_tag l = (case after_tag l of Some r \<Rightarrow> r | None \<Rightarrow> l)"

text \<open>\<^verbatim>\<open>content.match(/label:\s*"(.+)"$/)\<close>: the captured text at the leftmost place where it matches.\<close>

definition match_here :: "string \<Rightarrow> string \<Rightarrow> string option" where
  "match_here label s =
     (if starts_with s (label @ '':'')
      then (case dropWhile is_ws (drop (length label + 1) s) of
              q # r \<Rightarrow>
                if q = dquote \<and> 2 \<le> length r \<and> last r = dquote \<and> \<not> list_ex line_end (butlast r)
                then Some (butlast r) else None
            | [] \<Rightarrow> None)
      else None)"

fun match_line :: "string \<Rightarrow> string \<Rightarrow> string option" where
  "match_line label [] = None"
| "match_line label (c # s) =
     (case match_here label (c # s) of Some g \<Rightarrow> Some g | None \<Rightarrow> match_line label s)"

definition scan_line :: "string \<times> string \<times> string \<Rightarrow> string \<Rightarrow> string \<times> string \<times> string" where
  "scan_line acc line =
     (case acc of (ow, ca, cn) \<Rightarrow>
        let content = trim (strip_tag line) in
        case match_line ''owner_address'' content of
          Some g \<Rightarrow> (g, ca, cn)
        | None \<Rightarrow>
            (case match_line ''contract_address'' content of
               Some g \<Rightarrow> (ow, g, cn)
             | None \<Rightarrow>
                 (case match_line ''contract_name'' content of
                    Some g \<Rightarrow> (ow, ca, g)
                  | None \<Rightarrow> (ow, ca, cn))))"

definition parse_output :: "string \<Rightarrow> string \<times> string \<times> string" where
  "parse_output output = foldl scan_line ([], [], []) (split_on newline output)"

section \<open>Commands\<close>

text \<open>A program whose exit code is not zero, or that cannot be started, makes the command fail.\<close>

definition finished_ok :: "run \<Rightarrow> string option" where
  "finished_ok r = (case r of Exited c out \<Rightarrow> if c = 0 then Some out else None | SpawnError _ \<Rightarrow> None)"

definition with_tool :: "host \<Rightarrow> files \<Rightarrow> (string \<Rightarrow> invocation) \<Rightarrow> invocation" where
  "with_tool H f k =
     (case getResDBHome H f of Inl _ \<Rightarrow> exit_with 1 f [] | Inr home \<Rightarrow> k (tool_path home))"

definition create :: "host \<Rightarrow> programs \<Rightarrow> string \<Rightarrow> files \<Rightarrow> invocation" where
  "create H P config f =
     with_tool H f (\<lambda>tool.
       if f config = None then exit_with 1 f []
       else (let args = [''create'', ''-c'', config]
             in exit_with (if finished_ok (P tool args) = None then 1 else 0) f [(tool, args)]))"

definition compile :: "programs \<Rightarrow> string \<Rightarrow> string \<Rightarrow> files \<Rightarrow> invocation" where
  "compile P sol output f =
     (if f sol = None then exit_with 1 f []
      else
        (let args = [''--evm-version'', ''homestead'', ''--combined-json'', ''bin,hashes'',
                     ''--pretty-json'', ''--optimize'', sol]
         in case finished_ok (P ''solc'' args) of
              None \<Rightarrow> exit_with 1 f [(''solc'', args)]
            | Some stdout \<Rightarrow> exit_with 0 (f(output \<mapsto> stdout)) [(''solc'', args)]))"

record deploy_options =
  config :: string
  contract :: string
  contract_name :: string
  arguments :: string
  owner :: string

definition deploymentKey :: "deploy_options \<Rightarrow> string" where
  "deploymentKey ops = owner ops @ '':'' @ contract_name ops"

definition deployment :: "string \<times> string \<times> string \<Rightarrow> jv" where
  "deployment d = (case d of (ow, ca, cn) \<Rightarrow>
     Obj [(''ownerAddress'', Str ow), (''contractAddress'', Str ca), (''contractName'', Str cn)])"

definition deployment_text :: "string \<times> string \<times> string \<Rightarrow> string" where
  "deployment_text d = (case d of (ow, ca, cn) \<Rightarrow>
     the (stringify (Obj [(''owner_address'', Str ow), (''contract_address'', Str ca),
       (''contract_name'', Str cn)])))"

definition deploy_args :: "deploy_options \<Rightarrow> string list" where
  "deploy_args ops =
     [''deploy'', ''-c'', config ops, ''-p'', contract ops, ''-n'', contract_name ops,
      ''-a'', arguments ops, ''-m'', owner ops]"

definition deploy :: "host \<Rightarrow> programs \<Rightarrow> deploy_options \<Rightarrow> registry \<Rightarrow> files \<Rightarrow> invocation" where
  "deploy H P ops reg f =
     (if ohas reg (deploymentKey ops) then exit_with 1 f []
      else with_tool H f (\<lambda>tool.
        let args = deploy_args ops; cs = [(tool, args)] in
        case finished_ok (P tool args) of
          None \<Rightarrow> exit_with 1 f cs
        | Some out \<Rightarrow>
            (case parse_output out of (ow, ca, cn) \<Rightarrow>
               if ow = [] \<or> ca = [] \<or> cn = [] then exit_with 1 f cs
               else \<lparr>exit_code = 0,
                     fs = saveDeployedContracts H (oset (deploymentKey ops) (deployment (ow, ca, cn)) reg) f,
                     calls = cs, printed = deployment_text (ow, ca, cn)\<rparr>)))"

definition add_address :: "host \<Rightarrow> programs \<Rightarrow> string \<Rightarrow> string \<Rightarrow> files \<Rightarrow> invocation" where
  "add_address H P cfg address f =
     with_tool H f (\<lambda>tool.
       if f cfg = None then exit_with 1 f []
       else (let args = [''add_address'', ''-c'', cfg, ''-e'', address]
             in exit_with (if finished_ok (P tool args) = None then 1 else 0) f [(tool, args)]))"

definition list_text :: "registry \<Rightarrow> string" where
  "list_text reg =
     (if reg = [] then ''No contracts have been deployed yet.''
      else ''Deployed Contracts:'' @ concat (map (\<lambda>(k, v).
        let field = (\<lambda>n. case oprop v n of Str s \<Rightarrow> s | _ \<Rightarrow> ''undefined'')
        in [newline] @ ''Owner: '' @ field ''ownerAddress'' @
           [newline] @ ''Contract Name: '' @ field ''contractName'' @
           [newline] @ ''Contract Address: '' @ field ''contractAddress'' @ [newline] @ ''---'') reg))"

definition list_deployments :: "registry \<Rightarrow> files \<Rightarrow> invocation" where
  "list_deployments reg f = \<lparr>exit_code = 0, fs = f, calls = [], printed = list_text reg\<rparr>"

definition clear_registry :: "host \<Rightarrow> files \<Rightarrow> invocation" where
  "clear_registry H f =
     (if f (registryFilePath H) \<noteq> None then exit_with 0 (f(registryFilePath H := None)) []
      else exit_with 0 f [])"

datatype command =
    Create string
  | Compile string string
  | Deploy deploy_options
  | AddAddress string string
  | ListDeployments
  | ClearRegistry

fun run_command :: "host \<Rightarrow> programs \<Rightarrow> registry \<Rightarrow> files \<Rightarrow> command \<Rightarrow> invocation" where
  "run_command H P reg f (Create c) = create H P c f"
| "run_command H P reg f (Compile s out) = compile P s out f"
| "run_command H P reg f (Deploy ops) = deploy H P ops reg f"
| "run_command H P reg f (AddAddress c a) = add_address H P c a f"
| "run_command H P reg f ListDeployments = list_deployments reg f"
| "run_command H P reg f ClearRegistry = clear_registry H f"

text \<open>A process: the registry is loaded before any command runs.\<close>

definition invoke :: "host \<Rightarrow> programs \<Rightarrow> files \<Rightarrow> command \<Rightarrow> invocation" where
  "invoke H P f c =
     (case loadDeployedContracts H f of
        None \<Rightarrow> exit_with 1 f []
      | Some reg \<Rightarrow> run_command H P reg f c)"

section \<open>Sequences of invocations\<close>

text \<open>The keys that were deployed successfully, in order; each invocation has its own programs.\<close>

definition deployed_key :: "command \<Rightarrow> invocation \<Rightarrow> string list" where
  "deployed_key c r =
     (case c of Deploy ops \<Rightarrow> if exit_code r = 0 then [deploymentKey ops] else [] | _ \<Rightarrow> [])"

fun run_cli :: "host \<Rightarrow> (programs \<times> command) list \<Rightarrow> files \<Rightarrow> files \<times> string list" where
  "run_cli H [] f = (f, [])"
| "run_cli H ((P, c) # cs) f =
     (let r = invoke H P f c; (f', ks) = run_cli H cs (fs r) in (f', deployed_key c r @ ks))"

text \<open>The commands that write the registry file otherwise than by a deployment.\<close>

definition keeps_registry :: "host \<Rightarrow> command \<Rightarrow> bool" where
  "keeps_registry H c =
     (case c of ClearRegistry \<Rightarrow> False | Compile s out \<Rightarrow> out \<noteq> registryFilePath H | _ \<Rightarrow> True)"

definition registry_ok :: "registry \<Rightarrow> bool" where
  "registry_ok r = (owf r \<and> (\<forall>(k, v) \<in> set r. json_ok v))"

section \<open>Lemmas\<close>

lemma foldl_oset: "distinct (map fst (m @ r)) \<Longrightarrow> foldl (\<lambda>m (k, v). oset k v m) m r = m @ r"
proof (induction r arbitrary: m)
  case (Cons p r)
  obtain k v where p: "p = (k, v)" by (cases p)
  then have "oset k v m = m @ [(k, v)]" using Cons.prems by (intro oset_append) auto
  then show ?case using Cons p by simp
qed simp

lemma entries_roundtrip: "owf r \<Longrightarrow> map_of_entries (entries_json r) = Some r"
proof -
  assume r: "owf r"
  have "opt_list (map entry_of (map (\<lambda>(k, v). Arr [Str k, v]) r)) = Some r"
    by (induction r) auto
  then show ?thesis using r foldl_oset [of "[]" r] by (simp add: entries_json_def owf_def)
qed

lemma entries_json_ok: "registry_ok r \<Longrightarrow> json_ok (entries_json r)"
  by (auto simp: registry_ok_def entries_json_def)

lemma load_save:
  assumes "registry_ok r"
  shows "loadDeployedContracts H (saveDeployedContracts H r f) = Some r"
proof -
  obtain t where "pretty 0 (entries_json r) = Some t" "json_parse t = Some (entries_json r)"
    using pretty_roundtrip [OF entries_json_ok [OF assms]] by blast
  then show ?thesis
    using assms entries_roundtrip
    by (simp add: loadDeployedContracts_def saveDeployedContracts_def registry_ok_def)
qed

lemma load_other:
  "f (registryFilePath H) = f' (registryFilePath H) \<Longrightarrow>
   loadDeployedContracts H f = loadDeployedContracts H f'"
  by (simp add: loadDeployedContracts_def)

lemma set_oset: "set (oset k v m) \<subseteq> insert (k, v) (set m)"
  by (induction m) (auto split: if_splits)

lemma registry_ok_oset: "registry_ok r \<Longrightarrow> json_ok v \<Longrightarrow> registry_ok (oset k v r)"
  by (auto simp: registry_ok_def dest!: subsetD [OF set_oset])

lemma deployment_ok: "json_ok (deployment d)"
  by (cases d) (simp add: deployment_def)

lemma deploy_cases:
  obtains (refused) "ohas reg (deploymentKey ops)" "deploy H P ops reg f = exit_with 1 f []"
  | (failed) cs where "\<not> ohas reg (deploymentKey ops)" "deploy H P ops reg f = exit_with 1 f cs"
  | (deployed) home out ow ca cn where "\<not> ohas reg (deploymentKey ops)" "getResDBHome H f = Inr home"
      "P (tool_path home) (deploy_args ops) = Exited 0 out" "parse_output out = (ow, ca, cn)"
      "ow \<noteq> []" "ca \<noteq> []" "cn \<noteq> []"
      "deploy H P ops reg f = \<lparr>exit_code = 0,
         fs = saveDeployedContracts H (oset (deploymentKey ops) (deployment (ow, ca, cn)) reg) f,
         calls = [(tool_path home, deploy_args ops)], printed = deployment_text (ow, ca, cn)\<rparr>"
proof (cases "ohas reg (deploymentKey ops)")
  case True
  then show ?thesis by (intro refused) (simp_all add: deploy_def)
next
  case no: False
  show ?thesis
  proof (cases "getResDBHome H f")
    case (Inl e)
    with no show ?thesis by (intro failed) (simp_all add: deploy_def with_tool_def)
  next
    case home: (Inr home)
    show ?thesis
    proof (cases "finished_ok (P (tool_path home) (deploy_args ops))")
      case None
      with no home show ?thesis by (intro failed) (simp_all add: deploy_def with_tool_def Let_def)
    next
      case (Some out)
      then have r: "P (tool_path home) (deploy_args ops) = Exited 0 out"
        by (auto simp: finished_ok_def split: run.splits if_splits)
      obtain ow ca cn where p: "parse_output out = (ow, ca, cn)" by (cases "parse_output out")
      show ?thesis
      proof (cases "ow = [] \<or> ca = [] \<or> cn = []")
        case True
        with no home Some p show ?thesis by (intro failed) (auto simp: deploy_def with_tool_def Let_def)
      next
        case False
        with no home Some r p show ?thesis
          by (intro deployed [of home out ow ca cn]) (auto simp: deploy_def with_tool_def Let_def)
      qed
    qed
  qed
qed

lemma quiet_fs [simp]:
  "fs (create H P c f) = f" "fs (add_address H P c a f) = f" "fs (list_deployments reg f) = f"
  by (simp_all add: create_def add_address_def list_deployments_def with_tool_def exit_with_def Let_def
      split: sum.splits)

lemma unchanged_registry:
  assumes "loadDeployedContracts H f = Some reg" "registry_ok reg"
    and "f' (registryFilePath H) = f (registryFilePath H)" "ks = []"
  shows "\<exists>reg'. loadDeployedContracts H f' = Some reg' \<and> registry_ok reg'
     \<and> (\<forall>x. ohas reg' x \<longleftrightarrow> ohas reg x \<or> x \<in> set ks) \<and> (\<forall>x \<in> set ks. \<not> ohas reg x)"
  using assms load_other [of f' H f] by auto

text \<open>What one invocation does to the registry.\<close>

lemma invoke_registry:
  assumes l: "loadDeployedContracts H f = Some reg" "registry_ok reg" and k: "keeps_registry H c"
  shows "\<exists>reg'. loadDeployedContracts H (fs (invoke H P f c)) = Some reg' \<and> registry_ok reg'
     \<and> (\<forall>x. ohas reg' x \<longleftrightarrow> ohas reg x \<or> x \<in> set (deployed_key c (invoke H P f c)))
     \<and> (\<forall>x \<in> set (deployed_key c (invoke H P f c)). \<not> ohas reg x)"
proof (cases c)
  case (Deploy ops)
  have i: "invoke H P f (Deploy ops) = deploy H P ops reg f" using l by (simp add: invoke_def)
  show ?thesis
  proof (cases rule: deploy_cases [of reg ops H P f])
    case refused
    then show ?thesis using l by (simp add: i Deploy deployed_key_def exit_with_def)
  next
    case (failed cs)
    then show ?thesis using l by (simp add: i Deploy deployed_key_def exit_with_def)
  next
    case (deployed home out ow ca cn)
    let ?r = "oset (deploymentKey ops) (deployment (ow, ca, cn)) reg"
    have "registry_ok ?r" by (rule registry_ok_oset [OF l(2) deployment_ok])
    then show ?thesis
      using deployed by (simp add: i Deploy deployed_key_def load_save ohas_def)
  qed
next
  case (Compile s out)
  then have "fs (invoke H P f c) (registryFilePath H) = f (registryFilePath H)"
    using k l by (auto simp: invoke_def compile_def exit_with_def Let_def keeps_registry_def split: option.splits)
  then show ?thesis by (rule unchanged_registry [OF l]) (simp add: Compile deployed_key_def)
next
  case (Create c')
  then show ?thesis
    by (intro unchanged_registry [OF l]) (simp_all add: invoke_def l deployed_key_def)
next
  case (AddAddress c' a)
  then show ?thesis
    by (intro unchanged_registry [OF l]) (simp_all add: invoke_def l deployed_key_def)
next
  case ListDeployments
  then show ?thesis
    by (intro unchanged_registry [OF l]) (simp_all add: invoke_def l deployed_key_def)
qed (use k in \<open>simp add: keeps_registry_def\<close>)

lemma run_cli_registry:
  assumes "loadDeployedContracts H f = Some reg" "registry_ok reg" "\<forall>(P, c) \<in> set cs. keeps_registry H c"
  shows "distinct (snd (run_cli H cs f))
    \<and> (\<forall>x \<in> set (snd (run_cli H cs f)). \<not> ohas reg x)
    \<and> (\<exists>reg'. loadDeployedContracts H (fst (run_cli H cs f)) = Some reg'
         \<and> (\<forall>x. ohas reg' x \<longleftrightarrow> ohas reg x \<or> x \<in> set (snd (run_cli H cs f))))"
  using assms
proof (induction cs arbitrary: f reg)
  case (Cons pc cs)
  obtain P c where pc: "pc = (P, c)" by (cases pc)
  obtain reg' where r: "loadDeployedContracts H (fs (invoke H P f c)) = Some reg'" "registry_ok reg'"
      "\<forall>x. ohas reg' x \<longleftrightarrow> ohas reg x \<or> x \<in> set (deployed_key c (invoke H P f c))"
      "\<forall>x \<in> set (deployed_key c (invoke H P f c)). \<not> ohas reg x"
    using invoke_registry [OF Cons.prems(1,2), of c P] Cons.prems(3) pc by auto
  have d: "distinct (deployed_key c (invoke H P f c))"
    by (simp add: deployed_key_def split: command.splits)
  have IH: "distinct (snd (run_cli H cs (fs (invoke H P f c))))
    \<and> (\<forall>x \<in> set (snd (run_cli H cs (fs (invoke H P f c)))). \<not> ohas reg' x)
    \<and> (\<exists>reg''. loadDeployedContracts H (fst (run_cli H cs (fs (invoke H P f c)))) = Some reg''
         \<and> (\<forall>x. ohas reg'' x \<longleftrightarrow> ohas reg' x \<or> x \<in> set (snd (run_cli H cs (fs (invoke H P f c))))))"
    using Cons.IH [OF r(1,2)] Cons.prems(3) by simp
  show ?case using IH r(3,4) d by (auto simp: pc Let_def case_prod_unfold)
qed (simp add: exI [of _ reg])

lemma split_on_sublist: "l \<in> set (split_on d s) \<Longrightarrow> sublist l s"
proof (induction s arbitrary: l)
  case (Cons c s)
  show ?case
  proof (cases "c = d")
    case True
    with Cons show ?thesis by (auto simp: sublist_Cons_right)
  next
    case False
    obtain w ws where w: "split_on d s = w # ws" by (cases "split_on d s") auto
    have "prefix w s" using join_split_on [of d s] w by (cases ws) (auto intro: prefixI)
    with Cons w False show ?thesis by (auto simp: sublist_Cons_right)
  qed
qed simp

lemma after_tag_suffix: "after_tag s = Some r \<Longrightarrow> suffix r s"
proof (induction s arbitrary: r)
  case (Cons c s)
  show ?case
  proof (cases "after_tag s")
    case None
    with Cons.prems have "r = drop 2 (c # s)" by (auto split: if_splits)
    then show ?thesis by (simp only: suffix_drop)
  next
    case (Some q)
    with Cons show ?thesis by (auto split: if_splits intro: suffix_ConsI)
  qed
qed simp

lemma strip_tag_suffix: "suffix (strip_tag s) s"
  using after_tag_suffix by (auto simp: strip_tag_def split: option.splits)

lemma trim_sublist: "sublist (trim s) s"
proof -
  have "suffix (dropWhile is_ws s) s" by (rule suffix_dropWhile)
  moreover have "prefix (trim s) (dropWhile is_ws s)"
    using suffix_dropWhile [of is_ws "rev (dropWhile is_ws s)"] by (simp add: trim_def suffix_to_prefix)
  ultimately show ?thesis by (metis prefix_imp_sublist suffix_imp_sublist sublist_order.order_trans)
qed

text \<open>The field as the output shows it.\<close>

definition shows_field :: "string \<Rightarrow> string \<Rightarrow> string \<Rightarrow> bool" where
  "shows_field out label g = (\<exists>w. (\<forall>c \<in> set w. is_ws c) \<and> sublist (label @ '':'' @ w @ [dquote] @ g @ [dquote]) out)"

lemma match_here_sound:
  assumes "match_here label s = Some g"
  shows "\<exists>w. (\<forall>c \<in> set w. is_ws c) \<and> s = label @ '':'' @ w @ [dquote] @ g @ [dquote]"
proof -
  let ?t = "drop (length label + 1) s"
  obtain r where r: "dropWhile is_ws ?t = dquote # r" "2 \<le> length r" "last r = dquote" "g = butlast r"
    using assms by (auto simp: match_here_def split: if_splits list.splits)
  have s: "s = (label @ '':'') @ ?t"
    using assms by (auto simp: match_here_def starts_with_def split: if_splits)
      (metis append.assoc append_Cons append_Nil append_take_drop_id length_append_singleton)
  have "?t = takeWhile is_ws ?t @ dquote # g @ [dquote]"
    using r by (metis append_butlast_last_id length_0_conv not_numeral_le_zero takeWhile_dropWhile_id)
  then have "s = label @ '':'' @ takeWhile is_ws ?t @ [dquote] @ g @ [dquote]"
    by (subst s) simp
  then show ?thesis by (meson set_takeWhileD)
qed

lemma match_line_sound: "match_line label s = Some g \<Longrightarrow> shows_field s label g"
proof (induction s)
  case (Cons c s)
  show ?case
  proof (cases "match_here label (c # s)")
    case (Some h)
    then show ?thesis
      using match_here_sound [OF Some] Cons.prems by (auto simp: shows_field_def)
  next
    case None
    then show ?thesis using Cons by (auto simp: shows_field_def sublist_Cons_right)
  qed
qed simp

lemma shows_field_mono: "sublist s t \<Longrightarrow> shows_field s label g \<Longrightarrow> shows_field t label g"
  unfolding shows_field_def by (meson sublist_order.order_trans)

lemma scan_line_sound:
  assumes "sublist line out" "scan_line (ow, ca, cn) line = (ow', ca', cn')"
  shows "(ow' = ow \<or> shows_field out ''owner_address'' ow') \<and> (ca' = ca \<or> shows_field out ''contract_address'' ca')
     \<and> (cn' = cn \<or> shows_field out ''contract_name'' cn')"
proof -
  let ?c = "trim (strip_tag line)"
  have "sublist ?c out"
    using assms(1) trim_sublist [of "strip_tag line"] strip_tag_suffix [of line]
    by (meson suffix_imp_sublist sublist_order.order_trans)
  then have "match_line l ?c = Some g \<Longrightarrow> shows_field out l g" for l g
    using match_line_sound shows_field_mono by blast
  with assms(2) show ?thesis by (auto simp: scan_line_def Let_def split: option.splits)
qed

lemma foldl_scan_sound:
  assumes "\<forall>l \<in> set ls. sublist l out" "foldl scan_line (ow, ca, cn) ls = (ow', ca', cn')"
  shows "(ow' = ow \<or> shows_field out ''owner_address'' ow') \<and> (ca' = ca \<or> shows_field out ''contract_address'' ca')
     \<and> (cn' = cn \<or> shows_field out ''contract_name'' cn')"
  using assms
proof (induction ls arbitrary: ow ca cn)
  case (Cons l ls)
  obtain a b c where abc: "scan_line (ow, ca, cn) l = (a, b, c)" by (cases "scan_line (ow, ca, cn) l")
  show ?case
    using Cons.IH [of a b c] Cons.prems scan_line_sound [of l out ow ca cn a b c] abc by auto
qed simp

lemma parse_output_sound:
  assumes "parse_output out = (ow, ca, cn)" "ow \<noteq> []" "ca \<noteq> []" "cn \<noteq> []"
  shows "shows_field out ''owner_address'' ow \<and> shows_field out ''contract_address'' ca
     \<and> shows_field out ''contract_name'' cn"
  using foldl_scan_sound [of "split_on newline out" out "[]" "[]" "[]" ow ca cn] assms split_on_sublist
  by (auto simp: parse_output_def)

section \<open>Properties\<close>


definition sample_host :: host where
  "sample_host = \<lparr>env_ResDB_Home = Some ''/opt/resdb'', cwd = ''/w'', homedir = ''/h'',
     yaml_load = (\<lambda>_. Inr Null)\<rparr>"

definition sample_options :: deploy_options where
  "sample_options = \<lparr>config = ''c'', contract = ''p'', contract_name = ''N'', arguments = ''1'', owner = ''O''\<rparr>"


text \<open>
  A deployment that exits with success was not in the registry, ran the tool exactly once with the
  given options and exit code zero, recorded what the tool's output shows for owner, address and name, and
  later deployments of the same key are refused without running the tool; one that fails leaves the files as they were.
\<close>

lemma deploy_spec:
  assumes "registry_ok reg"
  shows "let r = deploy H P ops reg f in
    (exit_code r \<noteq> 0 \<longrightarrow> fs r = f)
  \<and> (exit_code r = 0 \<longrightarrow> \<not> ohas reg (deploymentKey ops)
      \<and> (\<exists>home out ow ca cn reg'. calls r = [(tool_path home, deploy_args ops)]
           \<and> P (tool_path home) (deploy_args ops) = Exited 0 out
           \<and> shows_field out ''owner_address'' ow \<and> shows_field out ''contract_address'' ca
           \<and> shows_field out ''contract_name'' cn
           \<and> loadDeployedContracts H (fs r) = Some reg'
           \<and> map_of reg' (deploymentKey ops) = Some (deployment (ow, ca, cn))
           \<and> (\<forall>P'. invoke H P' (fs r) (Deploy ops) = exit_with 1 (fs r) [])))"
proof (cases rule: deploy_cases [of reg ops H P f])
  case (deployed home out ow ca cn)
  let ?r = "oset (deploymentKey ops) (deployment (ow, ca, cn)) reg"
  have ok: "registry_ok ?r" by (rule registry_ok_oset [OF assms deployment_ok])
  have l: "loadDeployedContracts H (saveDeployedContracts H ?r f) = Some ?r" by (rule load_save [OF ok])
  have "invoke H P' (saveDeployedContracts H ?r f) (Deploy ops)
      = exit_with 1 (saveDeployedContracts H ?r f) []" for P'
    by (simp add: invoke_def l deploy_def ohas_def)
  moreover have "map_of ?r (deploymentKey ops) = Some (deployment (ow, ca, cn))" by simp
  ultimately show ?thesis
    using deployed(1,3) parse_output_sound [OF deployed(4-7)] l
    unfolding deployed(8) Let_def invocation.select_convs
    by blast
qed (simp_all add: exit_with_def Let_def)

end
