(* ===== verification/Contract_GraphQL.thy ===== *)
theory Contract_GraphQL
  imports Contract_CLI
begin

text \<open>
  The smart contract GraphQL service and its client library: \<^verbatim>\<open>smart-contract-graphql/cli-functions.js\<close>, the resolvers of
  \<^verbatim>\<open>schema.js\<close>, and \<^verbatim>\<open>resilient-contract-kit/src\<close>. Each operation may write a temporary file, runs the
  \<^verbatim>\<open>rescontract\<close> program and reads its output. The program is a parameter that sees and may change the files.
\<close>

section \<open>Running the program\<close>

datatype process = Unstarted string | Ended "int option" string string

type_synonym executor = "string \<Rightarrow> string list \<Rightarrow> files \<Rightarrow> process \<times> files"

text \<open>A promise is rejected with a text or with an error object.\<close>

datatype thrown = Text string | Err js_error

type_synonym 'a task = "(thrown + 'a) \<times> files"

definition code_text :: "int option \<Rightarrow> string" where
  "code_text c = (case c of None \<Rightarrow> ''null'' | Some i \<Rightarrow> show_int i)"

definition handleExecFile :: "executor \<Rightarrow> string list \<Rightarrow> files \<Rightarrow> string task" where
  "handleExecFile E args f =
     (case E ''rescontract'' args f of
        (Unstarted m, f') \<Rightarrow> (Inl (Text (''Error spawning child process: '' @ m)), f')
      | (Ended c out err, f') \<Rightarrow>
          if c \<noteq> Some 0
          then (Inl (Text (''Process exited with code '' @ code_text c @ [newline] @ err)), f')
          else (Inr (trim (out @ err)), f'))"

section \<open>Patterns\<close>

text \<open>
  \<^verbatim>\<open>/pre"(head class+)"/\<close>, where the class has no quote: the capture at the leftmost match.
\<close>

definition field_at :: "string \<Rightarrow> string \<Rightarrow> (char \<Rightarrow> bool) \<Rightarrow> string \<Rightarrow> string option" where
  "field_at pre hdr P s =
     (if starts_with s (pre @ [dquote] @ hdr)
      then (let r = drop (length pre + 1 + length hdr) s; ds = takeWhile P r
            in if ds \<noteq> [] \<and> starts_with (drop (length ds) r) [dquote] then Some (hdr @ ds) else None)
      else None)"

fun find_field :: "string \<Rightarrow> string \<Rightarrow> (char \<Rightarrow> bool) \<Rightarrow> string \<Rightarrow> string option" where
  "find_field pre hdr P [] = None"
| "find_field pre hdr P (c # s) =
     (case field_at pre hdr P (c # s) of Some g \<Rightarrow> Some g | None \<Rightarrow> find_field pre hdr P s)"

text \<open>\<^verbatim>\<open>result.match(...)[1]\<close> throws if there is no match.\<close>

definition match_field :: "string \<Rightarrow> string \<Rightarrow> (char \<Rightarrow> bool) \<Rightarrow> string \<Rightarrow> thrown + string" where
  "match_field pre hdr P s =
     (case find_field pre hdr P s of
        Some g \<Rightarrow> Inr g
      | None \<Rightarrow> Inl (Err (TypeError ''Cannot read properties of null (reading '1')'')))"

definition compiled_at :: "string \<Rightarrow> string option" where
  "compiled_at s =
     (let pre = ''Compiled successfully to /'' in
      if starts_with s pre
      then (let ds = takeWhile (\<lambda>c. \<not> is_ws c) (drop (length pre) s)
            in if ds \<noteq> [] then Some (pre @ ds) else None)
      else None)"

fun find_compiled :: "string \<Rightarrow> string option" where
  "find_compiled [] = None"
| "find_compiled (c # s) = (case compiled_at (c # s) of Some g \<Rightarrow> Some g | None \<Rightarrow> find_compiled s)"

section \<open>Operations\<close>

text \<open>
  \<open>tmp\<close> is the path of the temporary file, \<^verbatim>\<open>config-<uuid>.tmp\<close> or \<^verbatim>\<open>contract-<uuid>.sol\<close> in the temporary directory.
\<close>

definition given_path :: "string \<Rightarrow> string \<Rightarrow> string \<Rightarrow> string" where
  "given_path type tmp arg = (if type = ''data'' then tmp else arg)"

definition with_file :: "string \<Rightarrow> string \<Rightarrow> string \<Rightarrow> files \<Rightarrow> files" where
  "with_file type tmp content f = (if type = ''data'' then f(tmp \<mapsto> content) else f)"

definition cleanup :: "string \<Rightarrow> string \<Rightarrow> files \<Rightarrow> files" where
  "cleanup type tmp f = (if type = ''data'' \<and> f tmp \<noteq> None then f(tmp := None) else f)"

definition createAccount :: "executor \<Rightarrow> string \<Rightarrow> string \<Rightarrow> string \<Rightarrow> files \<Rightarrow> string task" where
  "createAccount E tmp cfg typ f =
     (let path = given_path typ tmp cfg in
      case handleExecFile E [''create'', ''--config'', path] (with_file typ tmp cfg f) of
        (Inl t, f') \<Rightarrow> (Inl t, cleanup typ tmp f')
      | (Inr result, f') \<Rightarrow>
          if typ = ''data'' \<and> f' tmp = None
          then (Inl (Err (Error (''ENOENT: no such file or directory, unlink '' @ tmp))), f')
          else (match_field ''address: '' ''0x'' is_hex result, cleanup typ tmp f'))"

definition addAddress :: "executor \<Rightarrow> string \<Rightarrow> string \<Rightarrow> string \<Rightarrow> string \<Rightarrow> files \<Rightarrow> string task" where
  "addAddress E tmp cfg address typ f =
     (let path = given_path typ tmp cfg in
      case handleExecFile E [''add_address'', ''-c'', path, ''-e'', address] (with_file typ tmp cfg f) of
        (Inl t, f') \<Rightarrow> (Inl t, cleanup typ tmp f')
      | (Inr result, f') \<Rightarrow>
          (if str_includes result ''Address added successfully'' then Inr ''Address added successfully''
           else Inl (Err (Error (''Failed to add address. Unexpected output: '' @ result))),
           cleanup typ tmp f'))"

text \<open>\<open>dir\<close> is the directory of compiled contracts, \<open>uid\<close> the random identifier.\<close>

definition output_name :: "string \<Rightarrow> string \<Rightarrow> string" where
  "output_name typ uid = (if typ = ''data'' then ''contract-'' @ uid @ ''.json'' else ''MyContract.json'')"

definition compileContract :: "executor \<Rightarrow> string \<Rightarrow> string \<Rightarrow> string \<Rightarrow> string \<Rightarrow> string \<Rightarrow> files \<Rightarrow> string task" where
  "compileContract E dir uid tmp source typ f =
     (let path = given_path typ tmp source; out = path_join [dir, output_name typ uid] in
      case handleExecFile E [''compile'', ''--sol'', path, ''--output'', out] (with_file typ tmp source f) of
        (Inl t, f') \<Rightarrow> (Inl t, cleanup typ tmp f')
      | (Inr result, f') \<Rightarrow>
          (if typ = ''data'' then Inr (output_name typ uid)
           else case find_compiled result of
             Some m \<Rightarrow> Inr m
           | None \<Rightarrow> Inl (Err (TypeError ''Cannot read properties of null (reading '0')'')),
           cleanup typ tmp f'))"

definition arg_list :: "string \<Rightarrow> string" where
  "arg_list args = join '','' (map trim (split_on (CHR '','') args))"

definition deploy_result :: "string \<Rightarrow> thrown + (string \<times> string \<times> string)" where
  "deploy_result result =
     (case match_field ''owner_address: '' ''0x'' is_hex result of
        Inl t \<Rightarrow> Inl t
      | Inr ow \<Rightarrow>
          (case match_field ''contract_address: '' ''0x'' is_hex result of
             Inl t \<Rightarrow> Inl t
           | Inr ca \<Rightarrow>
               (case match_field ''contract_name: '' [] (\<lambda>c. c \<noteq> dquote) result of
                  Inl t \<Rightarrow> Inl t
                | Inr cn \<Rightarrow> Inr (ow, ca, cn))))"

definition deployContract :: "executor \<Rightarrow> string \<Rightarrow> string \<Rightarrow> string \<Rightarrow> string \<Rightarrow> string \<Rightarrow> string \<Rightarrow> string \<Rightarrow>
    string \<Rightarrow> files \<Rightarrow> (string \<times> string \<times> string) task" where
  "deployContract E dir tmp cfg contr name args ownr typ f =
     (let path = given_path typ tmp cfg;
          contractPath = (if typ = ''data'' then path_join [dir, contr] else contr) in
      case handleExecFile E [''deploy'', ''--config'', path, ''--contract'', contractPath, ''--name'', name,
             ''--arguments'', arg_list args, ''--owner'', ownr] (with_file typ tmp cfg f) of
        (Inl t, f') \<Rightarrow> (Inl t, cleanup typ tmp f')
      | (Inr result, f') \<Rightarrow> (deploy_result result, cleanup typ tmp f'))"

definition one_word :: string where
  "one_word = ''0x'' @ replicate 63 (CHR ''0'') @ ''1''"

definition executeContract :: "executor \<Rightarrow> string \<Rightarrow> string \<Rightarrow> string \<Rightarrow> string \<Rightarrow> string \<Rightarrow> string \<Rightarrow>
    string \<Rightarrow> files \<Rightarrow> string task" where
  "executeContract E tmp cfg sender contr functionName args typ f =
     (let path = given_path typ tmp cfg in
      case handleExecFile E [''execute'', ''--config'', path, ''--sender'', sender, ''--contract'', contr,
             ''--function-name'', functionName, ''--arguments'', arg_list args] (with_file typ tmp cfg f) of
        (Inl t, f') \<Rightarrow> (Inl t, cleanup typ tmp f')
      | (Inr result, f') \<Rightarrow>
          (Inr (if str_includes result one_word then ''Execution successful'' else ''Execution failed''),
           cleanup typ tmp f'))"

text \<open>The resolvers throw a new error with the text of what was thrown; the type defaults to \<^verbatim>\<open>path\<close>.\<close>

fun thrown_text :: "thrown \<Rightarrow> string" where
  "thrown_text (Text m) = m"
| "thrown_text (Err (Error m)) = ''Error: '' @ m"
| "thrown_text (Err (TypeError m)) = ''TypeError: '' @ m"

definition resolve :: "'a task \<Rightarrow> 'a res \<times> files" where
  "resolve t = (case t of (Inl e, f) \<Rightarrow> (Inl (Error (thrown_text e)), f) | (Inr x, f) \<Rightarrow> (Inr x, f))"

definition default_type :: "string option \<Rightarrow> string" where
  "default_type t = (case t of None \<Rightarrow> ''path'' | Some s \<Rightarrow> s)"

text \<open>
  The mutations of the schema with their arguments. The service's directories and the identifier
  drawn for the request are in \<open>request_paths\<close>.
\<close>

datatype mutation =
    CreateAccount string "string option"
  | RegisterAddress string string "string option"
  | CompileContract string "string option"
  | DeployContract string string string string string "string option"
  | ExecuteContract string string string string string "string option"

record request_paths =
  compiled_dir :: string
  tmp_dir :: string
  request_id :: string

definition config_path :: "request_paths \<Rightarrow> string" where
  "config_path R = path_join [tmp_dir R, ''config-'' @ request_id R @ ''.tmp'']"

definition contract_path :: "request_paths \<Rightarrow> string" where
  "contract_path R = path_join [tmp_dir R, ''contract-'' @ request_id R @ ''.sol'']"

definition deploy_output :: "string \<times> string \<times> string \<Rightarrow> jv" where
  "deploy_output d = (case d of (ow, ca, cn) \<Rightarrow>
     Obj [(''ownerAddress'', Str ow), (''contractAddress'', Str ca), (''contractName'', Str cn)])"

definition map_task :: "('a \<Rightarrow> 'b) \<Rightarrow> 'a res \<times> files \<Rightarrow> 'b res \<times> files" where
  "map_task g t = (case t of (r, f) \<Rightarrow> (bind_res r (\<lambda>x. Inr (g x)), f))"

fun resolve_mutation :: "executor \<Rightarrow> request_paths \<Rightarrow> files \<Rightarrow> mutation \<Rightarrow> jv res \<times> files" where
  "resolve_mutation E R f (CreateAccount cfg typ) =
     map_task Str (resolve (createAccount E (config_path R) cfg (default_type typ) f))"
| "resolve_mutation E R f (RegisterAddress cfg address typ) =
     map_task Str (resolve (addAddress E (config_path R) cfg address (default_type typ) f))"
| "resolve_mutation E R f (CompileContract source typ) =
     map_task Str (resolve (compileContract E (compiled_dir R) (request_id R) (contract_path R) source
       (default_type typ) f))"
| "resolve_mutation E R f (DeployContract cfg contr name args ownr typ) =
     map_task deploy_output (resolve (deployContract E (compiled_dir R) (config_path R) cfg contr name args ownr
       (default_type typ) f))"
| "resolve_mutation E R f (ExecuteContract cfg sendr contr fn args typ) =
     map_task Str (resolve (executeContract E (config_path R) cfg sendr contr fn args (default_type typ) f))"

section \<open>The client library\<close>

definition parseResilientURL :: "string \<Rightarrow> string res" where
  "parseResilientURL u =
     (let pre = ''resilient://''; r = drop (length pre) u
      in if starts_with u pre \<and> r \<noteq> [] \<and> \<not> list_ex line_end r then Inr (''https://'' @ r)
         else Inl (Error ''Invalid Resilient URL format. Expected resilient://<host>''))"

record execute_params =
  exec_config :: string
  exec_sender :: string
  contractAddress :: string
  functionName :: string
  exec_arguments :: "string list"

definition execute_variables :: "execute_params \<Rightarrow> jv" where
  "execute_variables p =
     Obj [(''config'', Str (exec_config p)), (''sender'', Str (exec_sender p)),
          (''contract'', Str (contractAddress p)), (''functionName'', Str (functionName p)),
          (''arguments'', Str (join '','' (exec_arguments p)))]"

definition execute_query :: string where
  "execute_query = text_lines
     [(4, ''mutation ExecuteSmartContract(''),
      (6, ''$config: String!,''), (6, ''$sender: String!,''), (6, ''$contract: String!,''),
      (6, ''$functionName: String!,''), (6, ''$arguments: String!''), (4, '') {''),
      (6, ''executeContract(''), (8, ''config: $config,''), (8, ''sender: $sender,''),
      (8, ''contract: $contract,''), (8, ''functionName: $functionName,''),
      (8, ''arguments: $arguments''), (6, '')''), (4, ''}''), (2, [])]"

text \<open>\<open>request\<close> is the GraphQL client: the value of the response, or an error.\<close>

definition executeSmartContract :: "(string \<Rightarrow> jv \<Rightarrow> jv res) \<Rightarrow> execute_params \<Rightarrow> jv res" where
  "executeSmartContract request p =
     (case bind_res (request execute_query (execute_variables p)) (\<lambda>r. jget r ''executeContract'') of
        Inr v \<Rightarrow> Inr v
      | Inl e \<Rightarrow> Inl (Error (''Error executing smart contract: '' @ err_message e)))"

section \<open>Lemmas\<close>

text \<open>The files the program left behind, without the temporary file.\<close>

definition child_files :: "executor \<Rightarrow> string list \<Rightarrow> string \<Rightarrow> string \<Rightarrow> files \<Rightarrow> files" where
  "child_files E args tmp content f = (snd (E ''rescontract'' args (f(tmp \<mapsto> content))))(tmp := None)"

lemma handleExecFile_files: "snd (handleExecFile E args f) = snd (E ''rescontract'' args f)"
  by (auto simp: handleExecFile_def split: prod.splits process.splits)

lemma cleanup_data [simp]: "cleanup ''data'' tmp f = f(tmp := None)"
  by (auto simp: cleanup_def fun_eq_iff)

lemma cleaned:
  "(case handleExecFile E args (f(tmp \<mapsto> content)) of
      (Inl t, f') \<Rightarrow> f'(tmp := None) | (Inr x, f') \<Rightarrow> f'(tmp := None)) = child_files E args tmp content f"
  using handleExecFile_files [of E args "f(tmp \<mapsto> content)"]
  by (auto simp: child_files_def split: prod.splits sum.splits)

lemma cleaned_all:
  "(case handleExecFile E args (f(tmp \<mapsto> content)) of (x, f') \<Rightarrow> f'(tmp := None)) = child_files E args tmp content f"
  using handleExecFile_files [of E args "f(tmp \<mapsto> content)"]
  by (auto simp: child_files_def split: prod.splits)

lemma snd_case_task:
  "snd (case x of (Inl t, f') \<Rightarrow> (Inl t, g f') | (Inr r, f') \<Rightarrow> (h r, g f')) =
   (case x of (Inl t, f') \<Rightarrow> g f' | (Inr r, f') \<Rightarrow> g f')"
  by (auto split: prod.splits sum.splits)

lemmas data_defs = given_path_def with_file_def Let_def

lemma createAccount_files:
  "snd (createAccount E tmp cfg ''data'' f) = child_files E [''create'', ''--config'', tmp] tmp cfg f"
proof -
  let ?x = "handleExecFile E [''create'', ''--config'', tmp] (f(tmp \<mapsto> cfg))"
  have "snd (createAccount E tmp cfg ''data'' f) =
      (case ?x of (Inl t, f') \<Rightarrow> f'(tmp := None) | (Inr x, f') \<Rightarrow> f'(tmp := None))"
    by (auto simp: createAccount_def data_defs fun_eq_iff split: prod.splits sum.splits)
  then show ?thesis by (simp only: cleaned)
qed

lemma field_at_sound:
  assumes "field_at pre hdr P s = Some g"
  shows "\<exists>ds r. g = hdr @ ds \<and> ds \<noteq> [] \<and> (\<forall>c \<in> set ds. P c) \<and> s = pre @ [dquote] @ g @ [dquote] @ r"
proof -
  let ?r = "drop (length pre + 1 + length hdr) s"
  let ?ds = "takeWhile P ?r"
  have m: "starts_with s (pre @ [dquote] @ hdr)" "?ds \<noteq> []" "starts_with (drop (length ?ds) ?r) [dquote]"
      "g = hdr @ ?ds"
    using assms by (auto simp: field_at_def Let_def split: if_splits)
  obtain q where q: "s = (pre @ [dquote] @ hdr) @ q" using m(1) by (auto simp: starts_with_prefix prefix_def)
  then have r: "?r = q" by simp
  obtain z where z: "drop (length ?ds) ?r = dquote # z" using m(3) by (auto simp: starts_with_prefix prefix_def)
  have "q = ?ds @ dquote # z"
    using z r by (metis append_take_drop_id takeWhile_eq_take)
  then have "s = pre @ [dquote] @ g @ [dquote] @ z" using q m(4) by simp
  moreover have "\<forall>c \<in> set ?ds. P c" by (meson set_takeWhileD)
  ultimately show ?thesis using m(2,4) by blast
qed

lemma find_field_sound:
  "find_field pre hdr P s = Some g \<Longrightarrow>
   \<exists>ds. g = hdr @ ds \<and> ds \<noteq> [] \<and> (\<forall>c \<in> set ds. P c) \<and> sublist (pre @ [dquote] @ g @ [dquote]) s"
proof (induction s)
  case (Cons c s)
  show ?case
  proof (cases "field_at pre hdr P (c # s)")
    case (Some h)
    then obtain ds r where h: "h = hdr @ ds" "ds \<noteq> []" "\<forall>c \<in> set ds. P c"
        "c # s = pre @ [dquote] @ h @ [dquote] @ r"
      using field_at_sound by blast
    have "prefix (pre @ [dquote] @ h @ [dquote]) (c # s)" by (simp add: h(4))
    moreover have "h = g" using Some Cons.prems by simp
    ultimately show ?thesis using h(1-3) prefix_imp_sublist by blast
  next
    case None
    then show ?thesis using Cons by (fastforce simp: sublist_Cons_right)
  qed
qed simp

definition is_address :: "string \<Rightarrow> bool" where
  "is_address a = (\<exists>ds. a = ''0x'' @ ds \<and> ds \<noteq> [] \<and> (\<forall>c \<in> set ds. is_hex c))"

lemma match_address_sound:
  "match_field pre ''0x'' is_hex s = Inr a \<Longrightarrow> is_address a \<and> sublist (pre @ [dquote] @ a @ [dquote]) s"
  using find_field_sound [of pre "''0x''" is_hex s a]
  by (auto simp: match_field_def is_address_def split: option.splits)

lemma handleExecFile_ok:
  "handleExecFile E args f = (Inr result, f') \<Longrightarrow>
   \<exists>out err. E ''rescontract'' args f = (Ended (Some 0) out err, f') \<and> result = trim (out @ err)"
  by (auto simp: handleExecFile_def split: prod.splits process.splits if_splits)

lemma arg_list_join:
  assumes "args \<noteq> []" "\<forall>a \<in> set args. CHR '','' \<notin> set a \<and> trim a = a"
  shows "arg_list (join '','' args) = join '','' args"
proof -
  have "split_on (CHR '','') (join '','' args) = args"
    by (rule split_on_join) (use assms in auto)
  moreover have "map trim args = args" using assms(2) by (simp add: map_idI)
  ultimately show ?thesis by (simp add: arg_list_def)
qed

section \<open>Properties\<close>

text \<open>
  C30: No operation leaves its temporary file behind. Whatever the program does, starts or not, exits
  with any code, prints anything or changes files, after each of the five operations on inline
  data the files are exactly those the program left, without the temporary file.
\<close>

theorem temporary_files_removed:
  "snd (createAccount E tmp cfg ''data'' f) = child_files E [''create'', ''--config'', tmp] tmp cfg f
   \<and> snd (addAddress E tmp cfg addr ''data'' f) =
       child_files E [''add_address'', ''-c'', tmp, ''-e'', addr] tmp cfg f
   \<and> snd (compileContract E dir uid tmp src ''data'' f) =
       child_files E [''compile'', ''--sol'', tmp, ''--output'', path_join [dir, output_name ''data'' uid]] tmp src f
   \<and> snd (deployContract E dir tmp cfg contr name args ownr ''data'' f) =
       child_files E [''deploy'', ''--config'', tmp, ''--contract'', path_join [dir, contr], ''--name'', name,
         ''--arguments'', arg_list args, ''--owner'', ownr] tmp cfg f
   \<and> snd (executeContract E tmp cfg sndr contr fn args ''data'' f) =
       child_files E [''execute'', ''--config'', tmp, ''--sender'', sndr, ''--contract'', contr,
         ''--function-name'', fn, ''--arguments'', arg_list args] tmp cfg f"
  by (intro conjI; (rule createAccount_files)?)
    (simp_all add: addAddress_def compileContract_def deployContract_def executeContract_def data_defs
      snd_case_task cleaned_all)

text \<open>
  C31: Addresses are never invented. If \<^verbatim>\<open>createAccount\<close> or \<^verbatim>\<open>deployContract\<close> succeeds, the program exited
  with code zero and the addresses returned are hexadecimal and stand, quoted and labelled, in its output.
\<close>

theorem addresses_come_from_output:
  "(fst (createAccount E tmp cfg typ f) = Inr a \<longrightarrow>
      is_address a \<and> (\<exists>out err f'. E ''rescontract'' [''create'', ''--config'', given_path typ tmp cfg]
          (with_file typ tmp cfg f) = (Ended (Some 0) out err, f')
        \<and> sublist (''address: '' @ [dquote] @ a @ [dquote]) (out @ err)))
   \<and> (fst (deployContract E dir tmp cfg contr name args ownr typ f) = Inr (ow, ca, cn) \<longrightarrow>
      is_address ow \<and> is_address ca
      \<and> (\<exists>as out err f'. E ''rescontract'' (''deploy'' # ''--config'' # given_path typ tmp cfg # as)
          (with_file typ tmp cfg f) = (Ended (Some 0) out err, f')
        \<and> sublist (''owner_address: '' @ [dquote] @ ow @ [dquote]) (out @ err)
        \<and> sublist (''contract_address: '' @ [dquote] @ ca @ [dquote]) (out @ err)))"
proof (intro conjI impI)
  let ?args = "[''create'', ''--config'', given_path typ tmp cfg]"
  assume "fst (createAccount E tmp cfg typ f) = Inr a"
  then obtain result f' where h: "handleExecFile E ?args (with_file typ tmp cfg f) = (Inr result, f')"
      "match_field ''address: '' ''0x'' is_hex result = Inr a"
    by (auto simp: createAccount_def Let_def split: prod.splits sum.splits if_splits)
  then obtain out err where o: "E ''rescontract'' ?args (with_file typ tmp cfg f) = (Ended (Some 0) out err, f')"
      "result = trim (out @ err)"
    using handleExecFile_ok by blast
  have m: "is_address a" "sublist (''address: '' @ [dquote] @ a @ [dquote]) result"
    using match_address_sound [OF h(2)] by auto
  have "sublist (''address: '' @ [dquote] @ a @ [dquote]) (out @ err)"
    using sublist_order.order_trans [OF m(2)] trim_sublist [of "out @ err"] o(2) by simp
  with m(1) o(1) show "is_address a" "\<exists>out err f'. E ''rescontract'' ?args (with_file typ tmp cfg f)
      = (Ended (Some 0) out err, f') \<and> sublist (''address: '' @ [dquote] @ a @ [dquote]) (out @ err)"
    by blast+
next
  assume "fst (deployContract E dir tmp cfg contr name args ownr typ f) = Inr (ow, ca, cn)"
  then obtain as result f' where h:
      "handleExecFile E (''deploy'' # ''--config'' # given_path typ tmp cfg # as) (with_file typ tmp cfg f) = (Inr result, f')"
      "deploy_result result = Inr (ow, ca, cn)"
    by (auto simp: deployContract_def Let_def split: prod.splits sum.splits)
  then obtain out err where o:
      "E ''rescontract'' (''deploy'' # ''--config'' # given_path typ tmp cfg # as) (with_file typ tmp cfg f) = (Ended (Some 0) out err, f')"
      "result = trim (out @ err)"
    using handleExecFile_ok by blast
  have f: "match_field ''owner_address: '' ''0x'' is_hex result = Inr ow"
      "match_field ''contract_address: '' ''0x'' is_hex result = Inr ca"
    using h(2) by (auto simp: deploy_result_def split: sum.splits)
  note m = match_address_sound [OF f(1)] match_address_sound [OF f(2)]
  have "sublist t result \<Longrightarrow> sublist t (out @ err)" for t
    using trim_sublist [of "out @ err"] o(2) by (metis sublist_order.order_trans)
  with m o(1) show "is_address ow" "is_address ca" "\<exists>as out err f'.
      E ''rescontract'' (''deploy'' # ''--config'' # given_path typ tmp cfg # as) (with_file typ tmp cfg f)
      = (Ended (Some 0) out err, f')
      \<and> sublist (''owner_address: '' @ [dquote] @ ow @ [dquote]) (out @ err)
      \<and> sublist (''contract_address: '' @ [dquote] @ ca @ [dquote]) (out @ err)"
    by blast+
qed

definition sample_executor :: executor where
  "sample_executor cmd args f = (Ended (Some 0) (''address: '' @ [dquote] @ ''0xab'' @ [dquote]) [], f)"

theorem addresses_come_from_output_witness:
  "fst (createAccount sample_executor ''t'' ''c'' ''path'' (\<lambda>_. None)) = Inr ''0xab'' \<and> is_address ''0xab''"
proof -
  have "fst (createAccount sample_executor ''t'' ''c'' ''path'' (\<lambda>_. None)) = Inr ''0xab''"
    by (simp add: createAccount_def handleExecFile_def sample_executor_def trim_fixed is_ws_def dquote_def
        match_field_def field_at_def starts_with_def is_hex_def is_digit_def given_path_def with_file_def Let_def)
  then show ?thesis
    using addresses_come_from_output [of sample_executor "''t''" "''c''" "''path''" "\<lambda>_. None" "''0xab''"] by blast
qed

text \<open>
  Arguments survive the way from the client library to the program: a list of arguments without commas and
  surrounding white space, joined by the client and split, trimmed and joined again by the service, reaches the
  program unchanged, and the program can split it into the same arguments.
\<close>

lemma arguments_roundtrip:
  assumes "exec_arguments p \<noteq> []" "\<forall>a \<in> set (exec_arguments p). CHR '','' \<notin> set a \<and> trim a = a"
  shows "\<exists>s. oprop (execute_variables p) ''arguments'' = Str s
    \<and> arg_list s = s \<and> split_on (CHR '','') (arg_list s) = exec_arguments p"
proof -
  let ?s = "join '','' (exec_arguments p)"
  have "oprop (execute_variables p) ''arguments'' = Str ?s" by (simp add: execute_variables_def own_def)
  moreover have "arg_list ?s = ?s" by (rule arg_list_join [OF assms])
  moreover have "split_on (CHR '','') ?s = exec_arguments p"
    by (rule split_on_join) (use assms in auto)
  ultimately show ?thesis by simp
qed

end
