(* ===== verification/Spec2Isabelle.thy ===== *)
theory Spec2Isabelle
  imports Reslens_Toast Reslens_Table Reslens_Flame Orbit_Native Create_App Badge_Lines App_Template Vault_Contract
    Cache_Sync Cache_Connection Contract_GraphQL
begin

text \<open>
  Verification of the programs around the ResilientDB chain that are written in TypeScript and JavaScript, under
  \<^verbatim>\<open>src/ecosystem\<close>, of the badge action in \<^verbatim>\<open>src/src\<close>, and of the native commands of Orbit.

  \<^bold>\<open>The programs.\<close> ResVault is a browser extension that keeps key pairs and signs transactions: a popup (\<^verbatim>\<open>resvault/src\<close>), a service
  worker (\<^verbatim>\<open>public/background.js\<close>) and a content script (\<^verbatim>\<open>public/content.js\<close>). A page talks to the content script through the
  library \<^verbatim>\<open>resvault-sdk\<close>; the starter applications of \<^verbatim>\<open>create-resilient-app\<close> are such pages. ResLens shows the state of
  a chain: a job copies the block list into a table, a middleware serves it with metrics and profiles, and a dashboard draws
  them. \<^verbatim>\<open>resilient-node-cache\<close> copies the blocks of a node into MongoDB. \<^verbatim>\<open>rescontract\<close> deploys contracts from the command line and
  \<^verbatim>\<open>smart-contract-graphql\<close> offers it as a service, with \<^verbatim>\<open>resilient-contract-kit\<close> as its client. Orbit starts and stops a
  chain in a container.

  \<^bold>\<open>Conventions.\<close> A function that can throw returns \<open>'a res = js_error + 'a\<close>. Values whose type the source does not fix are of the
  datatype \<open>jv\<close>; objects keep the order of insertion. A component is a record with the fields of its state; a
  handler is a function on it; where events can interleave, an event datatype and a step function say which handler an event
  runs, and a run is a \<open>foldl\<close> over the events. Numbers are doubles (\<open>JS_Number\<close>): exact results rounded by \<open>fl\<close>, \<open>None\<close> is NaN. Everything
  outside the sources is a parameter: the node, the explorer, Prometheus, Pyroscope, the language model, Docker, the contract
  tool, the file copier, the URL and HTML parsers, the cryptography; predicates such as \<open>web_ok\<close>, \<open>crypto_ok\<close>, \<open>serves\<close>, \<open>copies\<close> and
  \<open>container_ok\<close> state their documented behaviour, and the witnesses of the theorems instantiate them.

  \<^bold>\<open>The language.\<close>
  \<^item> \<open>JS_Prelude\<close>: results, values, ordered objects, and the interfaces \<open>dictionary\<close>, \<open>stepper\<close> (a step keeps an invariant, so every
    run does), \<open>simulation\<close> (an abstraction follows a specification) and \<open>codec\<close> (a decoder inverts an encoder), each interpreted on
    the definitions of the components.
  \<^item> \<open>JS_String\<close>, \<open>JS_Number\<close>, \<open>JS_Date\<close>, \<open>JS_ISO\<close>, \<open>JS_JSON\<close>, \<open>JS_URL\<close>: the library functions the sources call, with round trips between
    printing and parsing and the range in which doubles are exact.

  \<^bold>\<open>ResVault.\<close>
  \<^item> \<open>Vault_Base64\<close>, \<open>Vault_Crypto\<close>: the helpers of the worker; Base64 inverts, escaped text cannot leave a GraphQL literal,
    identifiers are version 4 UUIDs.
  \<^item> \<open>Vault_Background\<close>, \<open>Vault_Transactions\<close>: the worker's handlers. Reads and writes of the storage are separate steps; the
    invariant of the storage holds in every interleaving, a page can only spend with the keys of its own host name, and a
    deployment sends its three requests in order and stops at the first failure.
  \<^item> \<open>Vault_Wallet\<close>: \<^verbatim>\<open>GlobalContext.js\<close>; the stored copies and all shown values stay in step with the list of pairs.
  \<^item> \<open>Vault_Account\<close>: sign-up, login and the routes; a login restores what was left and only with the password.
  \<^item> \<open>Vault_Dashboard\<close>, \<open>Vault_Contract\<close>: the two main pages of the popup; what they show of the connection is what the worker holds,
    uploaded transactions and contracts are sent as written, exported keys are imported unchanged.
  \<^item> \<open>Vault_Content\<close>, \<open>Vault_SDK\<close>: the content script refines a specification in which only a click on submit sends what was asked
    for, and shows what it will send; the library delivers every message to each handler once.
  \<^item> \<open>App_Template\<close>, \<open>Create_App\<close>: the starter applications and the tool that creates them; a session lasts as long as the
    user is signed in, and creating an application changes no existing file.

  \<^bold>\<open>ResLens.\<close>
  \<^item> \<open>Reslens_Time\<close>, \<open>Reslens_Encoding\<close>: timestamps and the delta encoding, which decodes exactly in doubles on the one-second grid.
  \<^item> \<open>Reslens_Sync\<close>: the sync job; under arbitrary failures and crashes its table is the image of a prefix of the chain.
  \<^item> \<open>Reslens_Explorer\<close>, \<open>Reslens_Metrics\<close>, \<open>Reslens_Profile\<close>, \<open>Reslens_Node\<close>: the controllers of the middleware, the last with the disk charts
    it serves; every sample of Prometheus reaches the chart at its time.
  \<^item> \<open>Reslens_Charts\<close>, \<open>Reslens_Table\<close>, \<open>Reslens_Flame\<close>, \<open>Reslens_Toast\<close>: the components of the dashboard with state: zooming loses nothing, the
    pages partition the chain and only ask for blocks that exist, a selected range is the range of the requested profile.

  \<^bold>\<open>The others.\<close>
  \<^item> \<open>Cache_Sync\<close>, \<open>Cache_Connection\<close>: the Node cache; a sync without faults is complete for every order of the workers, the pool
    handles each batch once, at most one reconnection is pending.
  \<^item> \<open>Contract_CLI\<close>, \<open>Contract_GraphQL\<close>: a contract is deployed at most once; no temporary file stays behind and
    addresses come from the output of the program.
  \<^item> \<open>Orbit_Page\<close>, \<open>Orbit_Native\<close>: the page, the native commands and the container; the database is shown as it is.
  \<^item> \<open>Badge_Lines\<close>: the throttle runs at most its limit of calls and the badge shows the number of lines.

  This theory has the properties across components: from a call of the page, or the form of a starter application, to the
  node and back, and from the blocks of the chain to the timeline.

  \<^bold>\<open>Bounds and fuel.\<close> The scan for new blocks runs on fuel, as the node decides when it ends; the completeness theorem of the
  cache gives an amount that suffices. The JSON parser's fuel is the length of the text, which each step
  shortens. All other loops are total functions. Assumptions on sizes (times before 2248, volumes below \<open>2 ^ 52\<close>,
  totals below \<open>2 ^ 40\<close>) keep double arithmetic exact. The timeline theorem is for at most 2000 blocks, the number
  up to which the downsampling library leaves a series as it is.

  \<^bold>\<open>Not modelled.\<close> The C++ replica (\<^verbatim>\<open>platform\<close>, \<^verbatim>\<open>executor\<close>, \<^verbatim>\<open>chain\<close>, \<^verbatim>\<open>service\<close>), the Python and Rust clients and the GraphQL service are
  separate programs behind the network interfaces that are parameters here. Markup, styles, animation, sample data,
  loggers and server set-up have no behaviour of their own. Of the dashboard, the panels that show one answer unchanged are left
  out, as are the download and the explanation dialogue of the flame graph; of the starter applications, the
  JavaScript variants; of the cache, connecting to MongoDB.
  Strings have 8-bit code units and \<^verbatim>\<open>\u\<close> escapes go up to \<^verbatim>\<open>00ff\<close>; infinities and negative zero, the numeric order of integer-like keys, inherited
  names of \<^verbatim>\<open>Object.prototype\<close> and the normalisation of paths are not represented. A handler of the popup
  runs to the end of its callbacks before the next event, and fields of an imported key pair other than its two keys are dropped.
\<close>

section \<open>Properties that span components\<close>

lemma clean_sync_rows:
  assumes "serves c api" "\<forall>a b. is_ok (api a b)" "int (length (foldl (sync_step c) [] es)) \<le> n"
  shows "fst (syncTransactionHistory api (Inr (Some [Some n])) (foldl (sync_step c) [] es)) = chain_rows c 1 n"
  using sync_complete [OF assms(1,2) sync.run_inv [OF mirrors_Nil], of n "[]" es] assms(3) by (simp add: max_def)

lemma chart_points_on_grid:
  assumes "printed_times c tm [1..n]" "list_all (\<lambda>i. block_volume c i < 2 ^ 52) [1..n]"
  shows "\<forall>p \<in> set (map (chart_point c tm) [1..n]). on_grid p"
  using assms by (auto simp: printed_times_def list_all_iff intro!: on_grid_chart_point)

text \<open>
  From the chain to the chart. After any history of failed and crashed sync runs followed by one
  run without failures over an explorer with \<open>n\<close> blocks, the middleware's reply for the full graph
  decodes in the dashboard to one point per block, in block order, with the block's creation time to
  the second and its number of transactions.
\<close>

lemma chain_to_chart:
  assumes "serves c api" and "\<forall>a b. is_ok (api a b)"
    and "int (length (foldl (sync_step c) [] es)) \<le> n" and "1 \<le> n"
    and "printed_times c tm [1..n]" and "list_all (\<lambda>i. block_volume c i < 2 ^ 52) [1..n]"
  shows "\<exists>enc. getAllEncodedBlocks (Inr (fst (syncTransactionHistory api (Inr (Some [Some n]))
        (foldl (sync_step c) [] es)))) = Send enc
    \<and> map ev (ui_decodeDeltaEncoding enc) =
        map (\<lambda>i. (Some (of_int (tm i - tm i mod 1000000)), Some (of_int (block_volume c i)))) [1..n]"
proof -
  have "map (chart_point c tm) [1..n] \<noteq> []" using assms(4) by simp
  then show ?thesis
    using decode_encode [OF _ chart_points_on_grid [OF assms(5,6)]] clean_sync_rows [OF assms(1-3)]
      getAllEncodedBlocks_chain [OF assms(4,5)]
    by (auto simp: chart_point_def ui_decode_eq)
qed



text \<open>The service worker's choice between the two messages a content script sends.\<close>

definition worker_message :: "('k, 'j) web \<Rightarrow> network \<Rightarrow> sender \<Rightarrow> int \<Rightarrow> string option \<Rightarrow> (nat \<Rightarrow> 8 word) \<Rightarrow> jv \<Rightarrow>
    'j storage \<Rightarrow> sent \<Rightarrow> jv \<times> sent" where
  "worker_message W N frm now uuid rnd request st h =
     (if oprop request ''action'' = Str ''submitTransaction''
      then submitTransaction W N frm (oprop request ''amount'') (oprop request ''data'') (oprop request ''recipient'') st h
      else if oprop request ''action'' = Str ''submitLoginTransaction''
      then submitLoginTransaction W N frm now uuid rnd st h
      else (Undefined, h))"

lemma commit_message_opens:
  assumes "own ps ''direction'' = Str ''commit''" "own ps ''amount'' = Str a" "trim a \<noteq> []"
  shows "\<exists>m. content_step query p (PageMessage True (Obj ps)) = p\<lparr>resVaultModal := Some m\<rparr> \<and> shown m
    \<and> html m = commit_content ''COMMIT'' a \<and> modal.transactionData m = (Str a, own ps ''data'', own ps ''recipient'')"
  using assms by (auto simp: on_page_message_def handleCommitOperation_def trim_value_def createOrUpdateModal_def
    applyStylesToModal_def generateModalContent_def Let_def)

text \<open>What a confirmed request of a connected page does: the part shared by every client of the extension.\<close>

lemma confirmed_request:
  assumes connected: "web_ok W" "storeKeys W key vs host net pk sk u st0 = (success, st1)"
      "\<forall>a \<in> set us. leaves a host net" "st = run_updates st1 us"
    and page: "senderUrl frm = Some su" "getBaseDomain W su = host"
    and req: "own ms ''direction'' = Str ''commit''" "own ms ''amount'' = Str a" "own ms ''data'' = data"
      "own ms ''recipient'' = recipient" "trim a \<noteq> []" "pk \<noteq> []" "sk \<noteq> []" "truthy recipient"
    and node: "reply N h u (page_request (Str a) data recipient pk sk) = Inr (Obj ps)"
      "\<not> truthy (own ps ''errors'')"
    and asked: "p1 = content_step query p (PageMessage True (Obj ms))"
    and clicked: "p2 = content_step query p1 (ModalClick ''resVaultModalSubmit'')"
    and answer: "worker_message W N frm now uuid rnd (last (to_worker p2)) st h = (answer, h')"
    and passed: "p3 = content_step query p2 (Response answer)"
  shows "\<exists>m. resVaultModal p1 = Some m \<and> shown m \<and> html m = commit_content ''COMMIT'' a"
    and "h' = h @ [(u, page_request (Str a) data recipient pk sk)]"
    and "to_page p3 = to_page p @ [Obj [(''type'', Str ''FROM_CONTENT_SCRIPT''),
           (''data'', Obj [(''success'', Bool True), (''data'', own ps ''data'')])]]"
proof -
  let ?m = "submit_message (Str a, data, recipient)"
  have p1: "\<exists>m. p1 = p\<lparr>resVaultModal := Some m\<rparr> \<and> shown m \<and> html m = commit_content ''COMMIT'' a
      \<and> modal.transactionData m = (Str a, data, recipient)"
    using commit_message_opens [OF req(1,2,5), of query p] req(3,4) asked by simp
  then show "\<exists>m. resVaultModal p1 = Some m \<and> shown m \<and> html m = commit_content ''COMMIT'' a" by auto
  from p1 have p2: "to_worker p2 = to_worker p @ [?m]" "to_page p2 = to_page p"
    by (auto simp: clicked on_modal_click_def handleTransactionSubmit_def)
  have w: "worker_message W N frm now uuid rnd ?m st h = submitTransaction W N frm (Str a) data recipient st h"
    by (simp add: worker_message_def submit_message_def own_def)
  have "submitTransaction W N frm (Str a) data recipient st h =
      (Obj [(''success'', Bool True), (''data'', own ps ''data'')], h @ [(u, page_request (Str a) data recipient pk sk)])"
    using submit_stored [OF connected(1-3) page req(6-8) node] connected(4) by simp
  with answer p2 w have a: "answer = Obj [(''success'', Bool True), (''data'', own ps ''data'')]"
      "h' = h @ [(u, page_request (Str a) data recipient pk sk)]"
    by simp_all
  show "h' = h @ [(u, page_request (Str a) data recipient pk sk)]" by (rule a(2))
  show "to_page p3 = to_page p @ [Obj [(''type'', Str ''FROM_CONTENT_SCRIPT''),
           (''data'', Obj [(''success'', Bool True), (''data'', own ps ''data'')])]]"
    by (simp add: passed on_response_def sendMessageToPage_def p2 a(1))
qed



text \<open>
  C5: A starter application reaches the node. On a connected page the form of the React template, filled in with an amount,
  a JSON text and a recipient and submitted, makes the content script ask; a click on submit sends exactly one request to the
  stored address, with the form's values and signed with the stored key pair; and when the node accepts it, the form
  shows the identifier of the transaction.
\<close>

theorem template_to_node:
  assumes connected: "web_ok W" "storeKeys W key vs host net pk sk u st0 = (success, st1)"
      "\<forall>a \<in> set us. leaves a host net" "st = run_updates st1 us"
    and page: "senderUrl frm = Some su" "getBaseDomain W su = host"
    and form: "shown_screen app = FormScreen f" "trim a \<noteq> []" "trim t \<noteq> []" "json_parse t = Some data" "r \<noteq> []"
      "pk \<noteq> []" "sk \<noteq> []"
    and node: "reply N h u (page_request (Str a) data (Str r) pk sk) =
        Inr (Obj [(''data'', Obj [(''postTransaction'', Obj [(''id'', Str i)])])])"
    and submitted: "app1 = foldl app_step app [Fill a t r, ClickSubmit]"
    and asked: "p1 = content_step query p (PageMessage True (fst (last (posted app1))))"
    and clicked: "p2 = content_step query p1 (ModalClick ''resVaultModalSubmit'')"
    and answer: "worker_message W N frm now uuid rnd (last (to_worker p2)) st h = (answer, h')"
    and passed: "p3 = content_step query p2 (Response answer)"
    and heard: "app2 = app_step app1 (FromWindow True (last (to_page p3)) fresh)"
  shows "h' = h @ [(u, page_request (Str a) data (Str r) pk sk)]
    \<and> length (posted app1) = length (posted app) + 1
    \<and> (\<exists>f'. shown_screen app2 = FormScreen f' \<and> form_notice f' = notify ''Success'' (''Transaction successful! ID: '' @ i))"
proof -
  let ?ms = "[(''type'', Str ''commit''), (''direction'', Str ''commit''), (''amount'', Str a), (''data'', data), (''recipient'', Str r)]"
  let ?f = "f\<lparr>form_amount := a, form_data := t, form_recipient := r\<rparr>"
  let ?ps = "[(''data'', Obj [(''postTransaction'', Obj [(''id'', Str i)])])]"
  have ms: "own ?ms ''direction'' = Str ''commit''" "own ?ms ''amount'' = Str a" "own ?ms ''data'' = data" "own ?ms ''recipient'' = Str r"
    by (simp_all add: own_def)
  have app1: "shown_screen app1 = FormScreen ?f" "posted app1 = posted app @ [(Obj ?ms, targetOrigin component_sdk)]"
    using form by (simp_all add: submitted App_Template.handleSubmit_def form_request_def sendMessage_def)
  have "p1 = content_step query p (PageMessage True (Obj ?ms))" using app1(2) by (simp add: asked)
  moreover have "truthy (Str r)" "\<not> truthy (own ?ps ''errors'')" using form(5) by (simp_all add: own_def)
  ultimately have c: "h' = h @ [(u, page_request (Str a) data (Str r) pk sk)]"
    "to_page p3 = to_page p @ [Obj [(''type'', Str ''FROM_CONTENT_SCRIPT''),
       (''data'', Obj [(''success'', Bool True), (''data'', own ?ps ''data'')])]]"
    using confirmed_request(2,3) [OF connected page ms form(2,6,7) _ node _ _ clicked answer passed] by blast+
  have "form_notice (form_message (last (to_page p3)) ?f) = notify ''Success'' (''Transaction successful! ID: '' @ i)"
    by (simp add: c(2) form_message_def has_outcome_def transaction_id_def own_def)
  moreover have "shown_screen app2 = FormScreen (form_message (last (to_page p3)) ?f)"
    using app1(1) by (simp add: heard c(2))
  ultimately show ?thesis using c(1) app1(2) by simp
qed

text \<open>A node that gives every transaction the same identifier.\<close>

definition naming_node :: network where
  "naming_node h u b = Inr \<lparr>ok = True, statusText = ''OK'',
     body_json = Inr (Obj [(''data'', Obj [(''postTransaction'', Obj [(''id'', Str ''t1'')])])])\<rparr>"

theorem template_to_node_witness:
  "\<exists>(app1 :: app) (app2 :: app) st (p2 :: page). app1 = foldl app_step (open_app (Some ''tok'')) [Fill ''5'' ''{}'' ''R'', ClickSubmit]
    \<and> snd (worker_message plain_web naming_node \<lparr>tab_url = Some ''a.io'', sender_url = None, sender_origin = None\<rparr>
          0 None (\<lambda>_. 0) (last (to_worker p2)) st []) = [(''U'', page_request (Str ''5'') (Obj []) (Str ''R'') ''P'' ''S'')]
    \<and> (\<exists>f. shown_screen app2 = FormScreen f \<and> form_notice f = notify ''Success'' ''Transaction successful! ID: t1'')"
proof -
  let ?frm = "\<lparr>tab_url = Some ''a.io'', sender_url = None, sender_origin = None\<rparr>"
  let ?req = "page_request (Str ''5'') (Obj []) (Str ''R'') ''P'' ''S''"
  obtain e where "seal_entry plain_web (Inr ()) ([1], [2], [3]) ''P'' ''S'' ''U'' = Inr e"
    by (auto simp: seal_entry_def encryptData_def plain_web_def)
  then have st: "storeKeys plain_web (Inr ()) ([1], [2], [3]) ''a.io'' ''net'' ''P'' ''S'' ''U'' empty_storage
       = (success, storeKeys_cb ''a.io'' ''net'' e empty_storage)" (is "_ = (_, ?st)")
    by (simp add: storeKeys_def)
  define app1 where "app1 = foldl app_step (open_app (Some ''tok'')) [Fill ''5'' ''{}'' ''R'', ClickSubmit]"
  define p1 where "p1 = content_step (\<lambda>_ _. []) fresh_page (PageMessage True (fst (last (posted app1))))"
  define p2 where "p2 = content_step (\<lambda>_ _. []) p1 (ModalClick ''resVaultModalSubmit'')"
  obtain answer h' where w: "worker_message plain_web naming_node ?frm 0 None (\<lambda>_. 0) (last (to_worker p2)) ?st [] = (answer, h')"
    by fastforce
  define p3 where "p3 = content_step (\<lambda>_ _. []) p2 (Response answer)"
  define app2 where "app2 = app_step app1 (FromWindow True (last (to_page p3)) ''id'')"
  have node: "reply naming_node [] ''U'' ?req = Inr (Obj [(''data'', Obj [(''postTransaction'', Obj [(''id'', Str ''t1'')])])])"
    by (simp add: reply_def naming_node_def)
  have page: "senderUrl ?frm = Some ''a.io''" "getBaseDomain plain_web ''a.io'' = ''a.io''"
    by (simp_all add: senderUrl_def nonempty_def getBaseDomain_def plain_web_def)
  have form: "shown_screen (open_app (Some ''tok'')) = FormScreen new_form" "trim ''5'' \<noteq> []" "trim ''{}'' \<noteq> []"
      "json_parse ''{}'' = Some (Obj [])"
    using json_roundtrip [of "Obj []"] by (simp_all add: open_app_def App_Template.stored_def render_def Let_def trim_fixed is_ws_def)
  have "h' = [] @ [(''U'', ?req)] \<and> length (posted app1) = length (posted (open_app (Some ''tok''))) + 1
      \<and> (\<exists>f'. shown_screen app2 = FormScreen f' \<and> form_notice f' = notify ''Success'' (''Transaction successful! ID: '' @ ''t1''))"
    by (rule template_to_node [where us = "[]", OF plain_web_ok st _ _ page form _ _ _ node app1_def p1_def p2_def w p3_def app2_def])
      (simp_all add: run_updates_def)
  then have r: "snd (worker_message plain_web naming_node ?frm 0 None (\<lambda>_. 0) (last (to_worker p2)) ?st []) = [(''U'', ?req)]"
      "\<exists>f. shown_screen app2 = FormScreen f \<and> form_notice f = notify ''Success'' ''Transaction successful! ID: t1''"
    by (simp_all only: w snd_conv append.simps)
  show ?thesis
    by (rule exI [of _ app1], rule exI [of _ app2], rule exI [of _ ?st], rule exI [of _ p2]) (intro conjI app1_def r)
qed

end
